(* ===== verification/Hpssix_Prelude.thy ===== *)
theory Hpssix_Prelude
  imports Main "HOL-Library.Word" "HOL-Library.Sublist"
begin

text \<open>
  Shared foundations of the development: the names of the C integer types, the
  error numbers the library returns, the program type that every effectful C
  function is translated to, and the list lemmas the components share.

  A C function that talks to the outside is a function from a world (here: the
  history of external calls, see \<^theory_text>\<open>Hpssix_World\<close>) to an outcome and the new
  world.  The outcome \<open>UB\<close> marks an execution the C standard leaves undefined (a
  write past a buffer, a null dereference, a variadic argument of the wrong
  class), \<open>Exit\<close> a call of \<open>exit(3)\<close>, and \<open>Spin\<close> a retry loop that is still
  retrying when the loop bound of the environment is used up.
\<close>

named_theorems io_simps \<open>evaluation of the program combinators\<close>
named_theorems cstr_simps \<open>evaluation of the C string functions\<close>

type_synonym u16 = "16 word"
type_synonym u32 = "32 word"
type_synonym u64 = "64 word"

section \<open>Error numbers (errno.h on Linux)\<close>

abbreviation (input) ENOENT :: int where "ENOENT \<equiv> 2"
abbreviation (input) EIO :: int where "EIO \<equiv> 5"
abbreviation (input) ENOMEM :: int where "ENOMEM \<equiv> 12"
abbreviation (input) ENOTDIR :: int where "ENOTDIR \<equiv> 20"
abbreviation (input) EINVAL :: int where "EINVAL \<equiv> 22"
abbreviation (input) ENOSPC :: int where "ENOSPC \<equiv> 28"
abbreviation (input) ERANGE :: int where "ERANGE \<equiv> 34"
abbreviation (input) ENODATA :: int where "ENODATA \<equiv> 61"
abbreviation (input) ENOSYS :: int where "ENOSYS \<equiv> 38"

section \<open>Programs\<close>

datatype 'a outcome = Ret 'a | UB | Exit int | Spin

type_synonym ('w, 'a) prog = "'w \<Rightarrow> 'a outcome \<times> 'w"

definition return_io :: "'a \<Rightarrow> ('w, 'a) prog" where
  "return_io x = (\<lambda>w. (Ret x, w))"

definition bind_io :: "('w, 'a) prog \<Rightarrow> ('a \<Rightarrow> ('w, 'b) prog) \<Rightarrow> ('w, 'b) prog" where
  "bind_io m f = (\<lambda>w. case m w of
      (Ret x, w') \<Rightarrow> f x w'
    | (UB, w') \<Rightarrow> (UB, w')
    | (Exit n, w') \<Rightarrow> (Exit n, w')
    | (Spin, w') \<Rightarrow> (Spin, w'))"

definition then_io :: "('w, 'a) prog \<Rightarrow> ('w, 'b) prog \<Rightarrow> ('w, 'b) prog" where
  "then_io m k = bind_io m (\<lambda>_. k)"

definition undef_io :: "('w, 'a) prog" where
  "undef_io = (\<lambda>w. (UB, w))"

definition exit_io :: "int \<Rightarrow> ('w, 'a) prog" where
  "exit_io n = (\<lambda>w. (Exit n, w))"

definition spin_io :: "('w, 'a) prog" where
  "spin_io = (\<lambda>w. (Spin, w))"

text \<open>A pure computation that is undefined on some inputs, run as a program.\<close>

definition lift_io :: "'a option \<Rightarrow> ('w, 'a) prog" where
  "lift_io v = (case v of None \<Rightarrow> undef_io | Some x \<Rightarrow> return_io x)"

lemma return_io_apply [simp, io_simps]: "return_io x w = (Ret x, w)"
  by (simp add: return_io_def)

lemma undef_io_apply [simp, io_simps]: "undef_io w = (UB, w)"
  by (simp add: undef_io_def)

lemma exit_io_apply [simp, io_simps]: "exit_io n w = (Exit n, w)"
  by (simp add: exit_io_def)

lemma spin_io_apply [simp, io_simps]: "spin_io w = (Spin, w)"
  by (simp add: spin_io_def)

lemma lift_io_Some [simp, io_simps]: "lift_io (Some x) = return_io x"
  by (simp add: lift_io_def)

lemma lift_io_None [simp, io_simps]: "lift_io None = undef_io"
  by (simp add: lift_io_def)

lemma bind_io_apply [io_simps]:
  "bind_io m f w = (case m w of
      (Ret x, w') \<Rightarrow> f x w'
    | (UB, w') \<Rightarrow> (UB, w')
    | (Exit n, w') \<Rightarrow> (Exit n, w')
    | (Spin, w') \<Rightarrow> (Spin, w'))"
  by (simp add: bind_io_def)

lemma then_io_apply [io_simps]:
  "then_io m k w = (case m w of
      (Ret x, w') \<Rightarrow> k w'
    | (UB, w') \<Rightarrow> (UB, w')
    | (Exit n, w') \<Rightarrow> (Exit n, w')
    | (Spin, w') \<Rightarrow> (Spin, w'))"
  by (simp add: then_io_def bind_io_def)

lemma bind_return_io [simp]: "bind_io (return_io x) f = f x"
  by (simp add: bind_io_def fun_eq_iff)

lemma bind_io_return [simp]: "bind_io m return_io = m"
  by (simp add: bind_io_def fun_eq_iff split: prod.splits outcome.splits)

lemma bind_undef_io [simp]: "bind_io undef_io f = undef_io"
  by (simp add: bind_io_def fun_eq_iff undef_io_def)

lemma bind_exit_io [simp]: "bind_io (exit_io n) f = exit_io n"
  by (simp add: bind_io_def fun_eq_iff exit_io_def)

lemma bind_bind_io: "bind_io (bind_io m f) g = bind_io m (\<lambda>x. bind_io (f x) g)"
  by (simp add: bind_io_def fun_eq_iff split: prod.splits outcome.splits)

lemma bind_io_eq_Ret_iff:
  "bind_io m f w = (Ret y, w'') \<longleftrightarrow> (\<exists>x w'. m w = (Ret x, w') \<and> f x w' = (Ret y, w''))"
  by (auto simp: bind_io_def split: prod.splits outcome.splits)

lemma bind_io_Ret: "m w = (Ret x, w') \<Longrightarrow> bind_io m f w = f x w'"
  by (simp add: bind_io_def)

lemma then_io_Ret: "m w = (Ret x, w') \<Longrightarrow> then_io m k w = k w'"
  by (simp add: then_io_def bind_io_def)

text \<open>\<open>ret = m(); if (ret) goto fail;\<close> and on with \<open>k\<close>.\<close>

definition try_io :: "('w, int) prog \<Rightarrow> (int \<Rightarrow> ('w, 'a) prog) \<Rightarrow> ('w, 'a) prog \<Rightarrow> ('w, 'a) prog" where
  "try_io m fail k = bind_io m (\<lambda>ret. if ret \<noteq> 0 then fail ret else k)"

lemma try_io_ok [io_simps]: "m w = (Ret 0, w') \<Longrightarrow> try_io m fail k w = k w'"
  by (simp add: try_io_def bind_io_Ret)

lemma try_io_fail [io_simps]: "m w = (Ret r, w') \<Longrightarrow> r \<noteq> 0 \<Longrightarrow> try_io m fail k w = fail r w'"
  by (simp add: try_io_def bind_io_Ret)

lemma try_io_cases [consumes 1]:
  assumes "try_io m fail k w = (Ret y, w')"
  obtains (1) r w1 where "r \<noteq> 0" and "m w = (Ret r, w1)" and "fail r w1 = (Ret y, w')"
    | (2) w1 where "m w = (Ret 0, w1)" and "k w1 = (Ret y, w')"
  using assms by (auto simp: try_io_def bind_io_eq_Ret_iff split: if_splits)

text \<open>A result that no failure branch gives comes from the success branch.\<close>

lemma try_io_RetD:
  assumes "try_io m fail k w = (Ret y, w')" and "\<And>r w1. r \<noteq> 0 \<Longrightarrow> fail r w1 \<noteq> (Ret y, w')"
  obtains w1 where "m w = (Ret 0, w1)" and "k w1 = (Ret y, w')"
  using assms by (auto simp: try_io_def bind_io_eq_Ret_iff split: if_splits)

text \<open>A call per element: stopping at the first non-zero result, or collecting the results.\<close>

primrec for_each :: "('a \<Rightarrow> ('w, int) prog) \<Rightarrow> 'a list \<Rightarrow> ('w, int) prog" where
  "for_each f [] = return_io 0"
| "for_each f (x # xs) = bind_io (f x) (\<lambda>r. if r \<noteq> 0 then return_io r else for_each f xs)"

primrec map_io :: "('a \<Rightarrow> ('w, 'b) prog) \<Rightarrow> 'a list \<Rightarrow> ('w, 'b list) prog" where
  "map_io f [] = return_io []"
| "map_io f (x # xs) = bind_io (f x) (\<lambda>y. bind_io (map_io f xs) (\<lambda>ys. return_io (y # ys)))"

section \<open>Invariants of programs\<close>

text \<open>\<open>preserves I m\<close>: whatever the outcome, running \<open>m\<close> keeps \<open>I\<close> true of the world.\<close>

definition preserves :: "('w \<Rightarrow> bool) \<Rightarrow> ('w, 'a) prog \<Rightarrow> bool" where
  "preserves I m \<longleftrightarrow> (\<forall>w. I w \<longrightarrow> I (snd (m w)))"

lemma preservesI: "(\<And>w. I w \<Longrightarrow> I (snd (m w))) \<Longrightarrow> preserves I m"
  by (simp add: preserves_def)

lemma preservesD: "preserves I m \<Longrightarrow> I w \<Longrightarrow> m w = (r, w') \<Longrightarrow> I w'"
  by (metis preserves_def snd_conv)

lemma preserves_return [simp, intro]: "preserves I (return_io x)"
  by (simp add: preserves_def)

lemma preserves_undef [simp, intro]: "preserves I undef_io"
  by (simp add: preserves_def)

lemma preserves_exit [simp, intro]: "preserves I (exit_io n)"
  by (simp add: preserves_def)

lemma preserves_spin [simp, intro]: "preserves I spin_io"
  by (simp add: preserves_def)

lemma preserves_lift [simp, intro]: "preserves I (lift_io v)"
  by (cases v) simp_all

lemma preserves_bind [intro]:
  assumes "preserves I m" and "\<And>x. preserves I (f x)"
  shows "preserves I (bind_io m f)"
proof (rule preservesI)
  fix w
  assume "I w"
  then have "I (snd (m w))"
    using assms(1) by (simp add: preserves_def)
  then show "I (snd (bind_io m f w))"
    using assms(2) by (auto simp: bind_io_def preserves_def split: prod.splits outcome.splits)
qed

lemma preserves_then [intro]: "preserves I m \<Longrightarrow> preserves I k \<Longrightarrow> preserves I (then_io m k)"
  by (auto simp: then_io_def)

lemma preserves_if [intro]:
  "preserves I m \<Longrightarrow> preserves I k \<Longrightarrow> preserves I (if b then m else k)"
  by simp

text \<open>\<open>silent m\<close>: \<open>m\<close> always returns and leaves the world as it is.\<close>

definition silent :: "('w, 'a) prog \<Rightarrow> bool" where
  "silent m \<longleftrightarrow> (\<forall>w. \<exists>x. m w = (Ret x, w))"

lemma silentE: "silent m \<Longrightarrow> (\<And>x. m w = (Ret x, w) \<Longrightarrow> P) \<Longrightarrow> P"
  unfolding silent_def by blast

lemma silent_return [simp, intro]: "silent (return_io x)"
  by (simp add: silent_def)

lemma silent_bind [intro]:
  assumes "silent m" and "\<And>x. silent (f x)"
  shows "silent (bind_io m f)"
  unfolding silent_def
proof
  fix w
  obtain x where "m w = (Ret x, w)" using assms(1) by (rule silentE)
  moreover obtain y where "f x w = (Ret y, w)" using assms(2) by (rule silentE)
  ultimately show "\<exists>x. bind_io m f w = (Ret x, w)" by (simp add: bind_io_Ret)
qed

section \<open>Lists\<close>

definition slice :: "nat \<Rightarrow> nat \<Rightarrow> 'a list \<Rightarrow> 'a list" where
  "slice off len xs = take len (drop off xs)"

lemma slice_0 [simp]: "slice off 0 xs = []"
  by (simp add: slice_def)

lemma length_slice: "length (slice off len xs) = min len (length xs - off)"
  by (simp add: slice_def)

lemma slice_append_next:
  "slice off a xs @ slice (off + a) b xs = slice off (a + b) xs"
  by (simp add: slice_def take_add add.commute)

lemma slice_all: "length xs \<le> len \<Longrightarrow> slice 0 len xs = xs"
  by (simp add: slice_def)

lemma slice_map: "slice i n (map f xs) = map f (slice i n xs)"
  by (simp add: slice_def take_map drop_map)

lemma set_slice: "set (slice i n xs) \<subseteq> set xs"
  unfolding slice_def by (meson set_drop_subset set_take_subset subset_trans)

lemma concat_slices:
  assumes "\<And>i. i < n \<Longrightarrow> off (Suc i) = off i + cnt i" and "off 0 = 0"
  shows "concat (map (\<lambda>i. slice (off i) (cnt i) xs) [0..<n]) = slice 0 (off n) xs"
  using assms
proof (induction n)
  case 0
  then show ?case by simp
next
  case (Suc n)
  have "concat (map (\<lambda>i. slice (off i) (cnt i) xs) [0..<Suc n])
        = slice 0 (off n) xs @ slice (off n) (cnt n) xs"
    using Suc by simp
  also have "\<dots> = slice 0 (off n + cnt n) xs"
    using slice_append_next [of 0 "off n" xs "cnt n"] by simp
  finally show ?case
    using Suc.prems(1) [of n] by simp
qed

lemma takeWhile_all: "(\<forall>x\<in>set xs. P x) \<Longrightarrow> takeWhile P xs = xs"
  by (induction xs) auto

lemma takeWhile_append_stop:
  "(\<forall>x\<in>set xs. P x) \<Longrightarrow> \<not> P y \<Longrightarrow> takeWhile P (xs @ y # ys) = xs"
  by (induction xs) auto

lemma dropWhile_append_stop:
  "(\<forall>x\<in>set xs. P x) \<Longrightarrow> \<not> P y \<Longrightarrow> dropWhile P (xs @ y # ys) = y # ys"
  by (induction xs) auto

lemma split_at_char:
  "c \<notin> set a \<Longrightarrow> takeWhile (\<lambda>x. x \<noteq> c) (a @ c # r) = a"
  "c \<notin> set a \<Longrightarrow> dropWhile (\<lambda>x. x \<noteq> c) (a @ c # r) = c # r"
  by (auto intro!: takeWhile_append_stop dropWhile_append_stop)

end
