(* ===== verification/C_Stdio.thy ===== *)
theory C_Stdio
  imports Hpssix_Prelude
begin

text \<open>
  The part of the C library the sources compute with: character classes
  (ctype.h, C locale), string search (string.h), decimal and base-0 number
  conversion (stdlib.h), the printf and scanf conversions that occur in the
  sources, and line reading with \<open>fgets\<close>.

  C strings are HOL strings without a NUL character; a string read from a file
  is cut at its first NUL (\<open>cstr\<close>).  Integer arguments of printf are passed as the
  64-bit value a register holds (the x86-64 convention under which the sources
  print 32-bit fields with \<open>%lu\<close>); an argument of another class than its
  conversion is undefined behaviour (\<open>None\<close>).  A null pointer under \<open>%s\<close> prints
  \<open>(null)\<close> as the GNU library does.
\<close>

section \<open>ctype.h\<close>

abbreviation (input) NUL :: char where "NUL \<equiv> CHR 0x00"
abbreviation (input) NL :: char where "NL \<equiv> CHR 0x0A"
abbreviation (input) PERCENT :: char where "PERCENT \<equiv> CHR 0x25"
abbreviation (input) SQUOTE :: char where "SQUOTE \<equiv> CHR 0x27"
abbreviation (input) DQUOTE :: char where "DQUOTE \<equiv> CHR 0x22"
abbreviation (input) SLASH :: char where "SLASH \<equiv> CHR 0x2F"

definition code :: "char \<Rightarrow> nat" where
  "code c = of_char c"

definition isspace :: "char \<Rightarrow> bool" where
  "isspace c \<longleftrightarrow> code c = 32 \<or> (9 \<le> code c \<and> code c \<le> 13)"

definition isdigit :: "char \<Rightarrow> bool" where
  "isdigit c \<longleftrightarrow> 48 \<le> code c \<and> code c \<le> 57"

definition tolower :: "char \<Rightarrow> char" where
  "tolower c = (if 65 \<le> code c \<and> code c \<le> 90 then char_of (code c + 32) else c)"

definition digit_char :: "nat \<Rightarrow> char" where
  "digit_char d = char_of (48 + d)"

lemma code_digit_char: "d < 10 \<Longrightarrow> code (digit_char d) = 48 + d"
  by (simp add: code_def digit_char_def)

lemma isdigit_digit_char [simp]: "d < 10 \<Longrightarrow> isdigit (digit_char d)"
  by (simp add: isdigit_def code_digit_char)

lemma isdigit_not_isspace: "isdigit c \<Longrightarrow> \<not> isspace c"
  by (auto simp: isdigit_def isspace_def code_def)

lemma tolower_idem [simp]: "tolower (tolower c) = tolower c"
  by (auto simp: tolower_def code_def)

section \<open>string.h\<close>

definition cstr :: "string \<Rightarrow> string" where
  "cstr s = takeWhile (\<lambda>c. c \<noteq> NUL) s"

text \<open>\<open>strncmp(a, b, n) == 0\<close> on NUL-free strings.\<close>

definition strneq :: "string \<Rightarrow> string \<Rightarrow> nat \<Rightarrow> bool" where
  "strneq a b n \<longleftrightarrow> take n a = take n b"

text \<open>\<open>strchr\<close> and \<open>strrchr\<close> return the suffix that starts at the character found.\<close>

definition strchr :: "string \<Rightarrow> char \<Rightarrow> string option" where
  "strchr s c = (case dropWhile (\<lambda>x. x \<noteq> c) s of [] \<Rightarrow> None | r \<Rightarrow> Some r)"

fun strrchr :: "string \<Rightarrow> char \<Rightarrow> string option" where
  "strrchr [] c = None"
| "strrchr (x # xs) c =
     (case strrchr xs c of Some r \<Rightarrow> Some r
      | None \<Rightarrow> if x = c then Some (x # xs) else None)"

fun strstr :: "string \<Rightarrow> string \<Rightarrow> string option" where
  "strstr [] p = (if p = [] then Some [] else None)"
| "strstr (x # xs) p = (if prefix p (x # xs) then Some (x # xs) else strstr xs p)"

lemma strrchr_None_iff: "strrchr s c = None \<longleftrightarrow> c \<notin> set s"
  by (induction s) (auto split: option.splits)

lemma strrchr_SomeD:
  "strrchr s c = Some r \<Longrightarrow> \<exists>pre post. s = pre @ r \<and> r = c # post \<and> c \<notin> set post"
proof (induction s)
  case Nil
  then show ?case by simp
next
  case (Cons x xs)
  show ?case
  proof (cases "strrchr xs c")
    case None
    with Cons.prems have "x = c" and "r = x # xs"
      by (auto split: if_splits)
    with None show ?thesis by (auto simp: strrchr_None_iff)
  next
    case (Some q)
    with Cons.prems have "strrchr xs c = Some r" by simp
    from Cons.IH [OF this] obtain pre post
      where "xs = pre @ r" "r = c # post" "c \<notin> set post" by blast
    then show ?thesis by (metis append_Cons)
  qed
qed

lemma strrchr_append: "c \<notin> set post \<Longrightarrow> strrchr (pre @ c # post) c = Some (c # post)"
proof (induction pre)
  case Nil
  then show ?case by (simp add: strrchr_None_iff [THEN iffD2])
next
  case (Cons x pre)
  then show ?case by simp
qed

lemma strstr_SomeD: "strstr s p = Some r \<Longrightarrow> prefix p r \<and> suffix r s"
proof (induction s)
  case Nil
  then show ?case by (simp split: if_splits)
next
  case (Cons x xs)
  then show ?case by (cases "prefix p (x # xs)") (auto intro: suffix_ConsI)
qed

section \<open>Decimal numbers\<close>

fun dec :: "nat \<Rightarrow> string" where
  "dec n = (if n < 10 then [digit_char n] else dec (n div 10) @ [digit_char (n mod 10)])"

declare dec.simps [simp del]

fun digits_val :: "nat \<Rightarrow> nat \<Rightarrow> string \<Rightarrow> nat" where
  "digits_val base acc [] = acc"
| "digits_val base acc (c # cs) =
     digits_val base
       (base * acc + (if isdigit c then code c - 48
                      else if 97 \<le> code c then code c - 87 else code c - 55)) cs"

lemma digits_val_append:
  "digits_val b acc (xs @ ys) = digits_val b (digits_val b acc xs) ys"
  by (induction xs arbitrary: acc) auto

lemma dec_nonempty [simp]: "dec n \<noteq> []"
  by (subst dec.simps) simp

lemma dec_isdigit: "c \<in> set (dec n) \<Longrightarrow> isdigit c"
proof (induction n rule: dec.induct)
  case (1 n)
  then show ?case by (cases "n < 10") (auto simp: dec.simps [of n])
qed

lemma digits_val_dec [simp]: "digits_val 10 0 (dec n) = n"
proof (induction n rule: dec.induct)
  case (1 n)
  show ?case
  proof (cases "n < 10")
    case True
    then show ?thesis by (simp add: dec.simps [of n] code_digit_char)
  next
    case False
    with 1 have "digits_val 10 0 (dec (n div 10)) = n div 10" by simp
    moreover have "n mod 10 < 10" by simp
    ultimately show ?thesis
      using False
      by (simp add: dec.simps [of n] digits_val_append code_digit_char)
  qed
qed

lemma length_dec_le: "n < 10 ^ k \<Longrightarrow> 0 < k \<Longrightarrow> length (dec n) \<le> k"
proof (induction n arbitrary: k rule: dec.induct)
  case (1 n)
  show ?case
  proof (cases "n < 10")
    case True
    with 1 show ?thesis by (simp add: dec.simps [of n])
  next
    case False
    with "1.prems" obtain j where k: "k = Suc j" and j: "0 < j"
      by (metis One_nat_def gr0_conv_Suc not_gr_zero power_one_right)
    have "n div 10 < 10 ^ j"
      using "1.prems"(1) k by (simp add: less_mult_imp_div_less mult.commute)
    with 1 False j have "length (dec (n div 10)) \<le> j" by simp
    with False k show ?thesis by (simp add: dec.simps [of n])
  qed
qed

lemma length_dec_u64: "length (dec (unat (v :: u64))) \<le> 20"
proof -
  have "unat v < 2 ^ LENGTH(64)" by (rule unsigned_less)
  then have "unat v < 10 ^ 20" by simp
  then show ?thesis by (rule length_dec_le) simp
qed

text \<open>
  \<open>strtoull(s, \&end, base)\<close> for base 0 and 10: leading white space, a sign, the
  base prefix, the digits; the value saturates at \<open>ULLONG_MAX\<close>.  The second
  component is where \<open>end\<close> points.
\<close>

definition isxdigit :: "char \<Rightarrow> bool" where
  "isxdigit c \<longleftrightarrow> isdigit c \<or> (97 \<le> code c \<and> code c \<le> 102) \<or> (65 \<le> code c \<and> code c \<le> 70)"

definition isodigit :: "char \<Rightarrow> bool" where
  "isodigit c \<longleftrightarrow> 48 \<le> code c \<and> code c \<le> 55"

definition sat64 :: "bool \<Rightarrow> nat \<Rightarrow> u64" where
  "sat64 neg v = (if 2 ^ 64 \<le> int v then - 1 else if neg then - of_nat v else of_nat v)"

definition split_sign :: "string \<Rightarrow> bool \<times> string" where
  "split_sign s = (case s of [] \<Rightarrow> (False, [])
     | c # cs \<Rightarrow> if c = CHR ''-'' then (True, cs)
                 else if c = CHR ''+'' then (False, cs) else (False, s))"

definition hex_prefix :: "string \<Rightarrow> bool" where
  "hex_prefix t = (case t of
     c0 # c1 # c2 # _ \<Rightarrow> c0 = CHR ''0'' \<and> (c1 = CHR ''x'' \<or> c1 = CHR ''X'') \<and> isxdigit c2
   | _ \<Rightarrow> False)"

definition num_value :: "nat \<Rightarrow> (char \<Rightarrow> bool) \<Rightarrow> bool \<Rightarrow> string \<Rightarrow> string \<Rightarrow> u64 \<times> string" where
  "num_value base p neg t s =
     (if takeWhile p t = [] then (0, s)
      else (sat64 neg (digits_val base 0 (takeWhile p t)), dropWhile p t))"

definition strtoull0 :: "string \<Rightarrow> u64 \<times> string" where
  "strtoull0 s =
     (let (neg, t) = split_sign (dropWhile isspace s) in
      if hex_prefix t then num_value 16 isxdigit neg (drop 2 t) s
      else if t \<noteq> [] \<and> hd t = CHR ''0'' then num_value 8 isodigit neg t s
      else num_value 10 isdigit neg t s)"

definition strtoull10 :: "string \<Rightarrow> u64 \<times> string" where
  "strtoull10 s = (let (neg, t) = split_sign (dropWhile isspace s) in num_value 10 isdigit neg t s)"

lemma dropWhile_isspace_digit:
  "s \<noteq> [] \<Longrightarrow> isdigit (hd s) \<Longrightarrow> dropWhile isspace s = s"
  by (cases s) (auto dest: isdigit_not_isspace)

lemma split_sign_digit:
  "s \<noteq> [] \<Longrightarrow> isdigit (hd s) \<Longrightarrow> split_sign s = (False, s)"
  by (cases s) (auto simp: split_sign_def isdigit_def code_def)

lemma dec_hd: "0 < n \<Longrightarrow> isdigit (hd (dec n)) \<and> hd (dec n) \<noteq> CHR ''0''"
proof (induction n rule: dec.induct)
  case (1 n)
  show ?case
  proof (cases "n < 10")
    case True
    have "digit_char n \<noteq> CHR ''0''"
    proof
      assume "digit_char n = CHR ''0''"
      then have "code (digit_char n) = 48" by (simp add: code_def)
      with True 1 show False by (simp add: code_digit_char)
    qed
    with True show ?thesis by (simp add: dec.simps [of n])
  next
    case False
    then have "0 < n div 10" by simp
    with 1 False have "isdigit (hd (dec (n div 10))) \<and> hd (dec (n div 10)) \<noteq> CHR ''0''"
      by simp
    with False show ?thesis by (simp add: dec.simps [of n])
  qed
qed

lemma dec_0: "dec 0 = ''0''"
  by code_simp

lemma hex_prefix_hd: "hex_prefix t \<Longrightarrow> hd t = CHR ''0''"
  by (auto simp: hex_prefix_def split: list.splits)

lemma sat64_of_u64 [simp]: "sat64 False (unat (w :: u64)) = w"
  using uint_bounded [of w] by (simp add: sat64_def)

lemma num_value_dec:
  assumes "rest = [] \<or> \<not> isdigit (hd rest)"
  shows "num_value 10 isdigit neg (dec n @ rest) s = (sat64 neg n, rest)"
proof -
  have "takeWhile isdigit (dec n @ rest) = dec n"
    and "dropWhile isdigit (dec n @ rest) = rest"
    using assms dec_isdigit [of _ n]
    by (cases rest; auto simp: takeWhile_append2 takeWhile_all dropWhile_append_stop
        takeWhile_append_stop)+
  then show ?thesis by (simp add: num_value_def)
qed

lemma dec_hd_digit: "isdigit (hd (dec n @ rest))"
  using dec_isdigit [of "hd (dec n)" n] by simp

lemma dec_no_prefix [simp]:
  "dropWhile isspace (dec n @ rest) = dec n @ rest"
  "split_sign (dec n @ rest) = (False, dec n @ rest)"
  using dec_hd_digit [of n rest]
  by (simp_all add: dropWhile_isspace_digit split_sign_digit)

lemma strtoull10_dec:
  "rest = [] \<or> \<not> isdigit (hd rest) \<Longrightarrow> strtoull10 (dec n @ rest) = (sat64 False n, rest)"
  by (simp add: strtoull10_def num_value_dec)

text \<open>Reading a printed number back with base 0 gives the number: it has no leading zero.\<close>

lemma strtoull0_dec:
  assumes "rest = [] \<or> \<not> isdigit (hd rest)"
    and "n = 0 \<longrightarrow> rest = [] \<or> (hd rest \<noteq> CHR ''x'' \<and> hd rest \<noteq> CHR ''X'')"
  shows "strtoull0 (dec n @ rest) = (sat64 False n, rest)"
proof (cases "n = 0")
  case True
  have "rest = [] \<or> \<not> isodigit (hd rest)"
    using assms(1) by (auto simp: isodigit_def isdigit_def)
  then have r: "takeWhile isodigit rest = []" "dropWhile isodigit rest = rest"
    by (cases rest; auto)+
  have o: "isodigit (CHR ''0'')" "isdigit (CHR ''0'')" "code (CHR ''0'') = 48"
    by (simp_all add: isodigit_def isdigit_def code_def)
  have "\<not> hex_prefix (CHR ''0'' # rest)"
    using True assms(2) by (auto simp: hex_prefix_def split: list.splits)
  with True r o dec_no_prefix [of 0 rest] show ?thesis
    by (simp add: strtoull0_def dec_0 num_value_def)
next
  case False
  then have h: "hd (dec n @ rest) \<noteq> CHR ''0''" and ne: "dec n @ rest \<noteq> []"
    using dec_hd [of n] by simp_all
  then have "\<not> hex_prefix (dec n @ rest)"
    using hex_prefix_hd by blast
  with h ne show ?thesis
    using num_value_dec [OF assms(1)] by (simp add: strtoull0_def)
qed

section \<open>printf\<close>

text \<open>
  One conversion is a percent sign, an optional zero flag, a width, any number of
  \<open>l\<close> modifiers and the conversion character.
\<close>

datatype parg = PStr "string option" | PInt u64 | PPtr | PDbl string

definition pad :: "bool \<Rightarrow> nat \<Rightarrow> string \<Rightarrow> string" where
  "pad zero width s = replicate (width - length s) (if zero then CHR ''0'' else CHR '' '') @ s"

definition sdec :: "int \<Rightarrow> string" where
  "sdec i = (if i < 0 then CHR ''-'' # dec (nat (- i)) else dec (nat i))"

definition int32 :: "u64 \<Rightarrow> int" where
  "int32 w = sint (ucast w :: u32)"

definition conv_arg :: "bool \<Rightarrow> char \<Rightarrow> parg \<Rightarrow> string option" where
  "conv_arg long k a = (case a of
     PStr s \<Rightarrow> if k = CHR ''s'' then Some (case s of None \<Rightarrow> ''(null)'' | Some t \<Rightarrow> t) else None
   | PInt w \<Rightarrow>
       if k = CHR ''u'' then Some (dec (if long then unat w else unat (ucast w :: u32)))
       else if k = CHR ''d'' then Some (sdec (if long then sint w else int32 w))
       else if k = CHR ''c'' then Some [char_of (unat w)]
       else None
   | PPtr \<Rightarrow> None
   | PDbl s \<Rightarrow> if k = CHR ''f'' then Some s else None)"

definition spec_digits :: "string \<Rightarrow> string" where
  "spec_digits cs = takeWhile isdigit cs"

definition spec_tail :: "string \<Rightarrow> string" where
  "spec_tail cs = dropWhile isdigit cs"

definition spec_conv :: "string \<Rightarrow> string" where
  "spec_conv cs = dropWhile (\<lambda>c. c = CHR ''l'') (spec_tail cs)"

lemma length_spec_conv: "length (spec_conv cs) \<le> length cs"
  unfolding spec_conv_def spec_tail_def
  by (meson length_dropWhile_le le_trans)

function printf :: "string \<Rightarrow> parg list \<Rightarrow> string option" where
  "printf [] args = Some []"
| "printf (c # cs) args =
     (if c \<noteq> PERCENT then map_option (Cons c) (printf cs args)
      else (case spec_conv cs of
              [] \<Rightarrow> None
            | k # rest \<Rightarrow>
                if k = PERCENT then map_option (Cons PERCENT) (printf rest args)
                else (case args of
                        [] \<Rightarrow> None
                      | a # args' \<Rightarrow>
                          (case conv_arg (spec_tail cs \<noteq> spec_conv cs) k a of
                             None \<Rightarrow> None
                           | Some t \<Rightarrow>
                               map_option
                                 (append (pad (take 1 (spec_digits cs) = ''0'')
                                              (digits_val 10 0 (spec_digits cs)) t))
                                 (printf rest args')))))"
  by pat_completeness auto
termination
proof (relation "measure (\<lambda>(f, a). length f)", goal_cases)
  case 1
  show ?case by simp
next
  case (2 c cs args)
  then show ?case by simp
next
  case (3 c cs args k rest)
  with length_spec_conv [of cs] show ?case by simp
next
  case (4 c cs args k rest a args' t)
  with length_spec_conv [of cs] show ?case by simp
qed

text \<open>\<open>sprintf\<close> into a buffer of \<open>cap\<close> bytes: undefined when the result and its NUL do not fit.\<close>

definition sprintf_buf :: "nat \<Rightarrow> string \<Rightarrow> parg list \<Rightarrow> string option" where
  "sprintf_buf cap fmt args = (case printf fmt args of
     None \<Rightarrow> None
   | Some s \<Rightarrow> if length s < cap then Some s else None)"

lemma printf_lit: "c \<noteq> PERCENT \<Longrightarrow> printf (c # cs) args = map_option (Cons c) (printf cs args)"
  by simp

lemma isdigit_letters [simp]:
  "\<not> isdigit (CHR ''l'')" "\<not> isdigit (CHR ''s'')" "\<not> isdigit (CHR ''d'')"
  "\<not> isdigit (CHR ''u'')" "\<not> isdigit (CHR ''c'')" "\<not> isdigit (CHR ''f'')"
  "\<not> isdigit PERCENT" "isdigit (CHR ''0'')" "isdigit (CHR ''2'')" "isdigit (CHR ''4'')"
  "\<not> isdigit (CHR '','')" "\<not> isdigit NL" "\<not> isdigit SLASH" "\<not> isdigit (CHR ''.'')"
  "\<not> isdigit (CHR '':'')" "\<not> isdigit (CHR '' '')" "\<not> isdigit (CHR ''-'')"
  by (simp_all add: isdigit_def code_def)

lemma pad_0 [simp]: "pad z 0 s = s"
  by (simp add: pad_def)

lemmas spec_simps = spec_conv_def spec_tail_def spec_digits_def

lemma printf_s [simp]:
  "printf (PERCENT # CHR ''s'' # cs) (PStr (Some t) # args) = map_option (append t) (printf cs args)"
  "printf (PERCENT # CHR ''s'' # cs) (PStr None # args)
     = map_option (append ''(null)'') (printf cs args)"
  by (simp_all add: spec_simps conv_arg_def)

lemma printf_lu [simp]:
  "printf (PERCENT # CHR ''l'' # CHR ''u'' # cs) (PInt w # args)
     = map_option (append (dec (unat w))) (printf cs args)"
  by (simp add: spec_simps conv_arg_def)

lemma printf_d [simp]:
  "printf (PERCENT # CHR ''d'' # cs) (PInt w # args)
     = map_option (append (sdec (int32 w))) (printf cs args)"
  by (simp add: spec_simps conv_arg_def)

lemma printf_02d [simp]:
  "printf (PERCENT # CHR ''0'' # CHR ''2'' # CHR ''d'' # cs) (PInt w # args)
     = map_option (append (pad True 2 (sdec (int32 w)))) (printf cs args)"
  by (simp add: spec_simps conv_arg_def code_def numeral_2_eq_2)

lemma printf_pct [simp]:
  "printf (PERCENT # PERCENT # cs) args = map_option (Cons PERCENT) (printf cs args)"
  by (simp add: spec_simps)

declare printf.simps(2) [simp del]

lemma printf_lits [simp]:
  assumes "c \<noteq> PERCENT"
  shows "printf (c # cs) args = map_option (Cons c) (printf cs args)"
  using assms by (simp add: printf.simps(2))

section \<open>sscanf\<close>

text \<open>
  A scan format is split into directives.  A number directive carries its field
  width (0: none), whether it is signed, and the width in bits of the object its
  pointer names.
\<close>

datatype sdir = SLit char | SNum nat bool nat | SBad

function scan_fmt :: "string \<Rightarrow> sdir list" where
  "scan_fmt [] = []"
| "scan_fmt (c # cs) =
     (if c \<noteq> PERCENT then SLit c # scan_fmt cs
      else (case spec_conv cs of
              [] \<Rightarrow> [SBad]
            | k # rest \<Rightarrow>
                (if k = CHR ''u'' \<or> k = CHR ''d''
                 then SNum (digits_val 10 0 (spec_digits cs)) (k = CHR ''d'')
                        (if spec_tail cs \<noteq> spec_conv cs then 64 else 32)
                 else SBad) # scan_fmt rest))"
  by pat_completeness auto
termination
proof (relation "measure length", goal_cases)
  case 1
  show ?case by simp
next
  case (2 c cs)
  then show ?case by simp
next
  case (3 c cs k rest)
  with length_spec_conv [of cs] show ?case by simp
qed

text \<open>The characters of one number field: a sign and digits, at most \<open>w\<close> characters if \<open>0 < w\<close>.\<close>

definition num_field :: "nat \<Rightarrow> string \<Rightarrow> string \<times> string" where
  "num_field w s =
     (let lim = (if w = 0 then length s else w);
          (_, t) = split_sign (take lim s);
          sgn = length (take lim s) - length t;
          ds = takeWhile isdigit t
      in (if ds = [] then [] else take (sgn + length ds) s, drop (sgn + length ds) s))"

definition sat_signed :: "bool \<Rightarrow> nat \<Rightarrow> u64" where
  "sat_signed neg v =
     (if neg then (if 2 ^ 63 \<le> int v then - (2 ^ 63) else - of_nat v)
      else (if 2 ^ 63 \<le> int v then 2 ^ 63 - 1 else of_nat v))"

definition num_assign :: "bool \<Rightarrow> nat \<Rightarrow> string \<Rightarrow> u64" where
  "num_assign sg bits fld =
     (let (neg, ds) = split_sign fld;
          v = (if sg then sat_signed neg (digits_val 10 0 ds)
               else sat64 neg (digits_val 10 0 ds))
      in if bits = 32 then ucast (ucast v :: u32) else v)"

text \<open>
  The result pairs the values stored so far with a flag: the input ended before
  the directive.  \<open>n\<close> pointers were passed; a further store is undefined.
\<close>

fun scan_go :: "sdir list \<Rightarrow> nat \<Rightarrow> string \<Rightarrow> u64 list \<Rightarrow> (u64 list \<times> bool) option" where
  "scan_go [] n s vs = Some (vs, False)"
| "scan_go (SLit c # ds) n s vs =
     (case s of [] \<Rightarrow> Some (vs, True)
      | x # xs \<Rightarrow> if x = c then scan_go ds n xs vs else Some (vs, False))"
| "scan_go (SNum w sg b # ds) n s vs =
     (case dropWhile isspace s of
        [] \<Rightarrow> Some (vs, True)
      | t \<Rightarrow> (case num_field w t of (fld, rest) \<Rightarrow>
               if fld = [] then Some (vs, False)
               else if n \<le> length vs then None
               else scan_go ds n rest (vs @ [num_assign sg b fld])))"
| "scan_go (SBad # ds) n s vs = None"

definition sscanf :: "string \<Rightarrow> nat \<Rightarrow> string \<Rightarrow> (int \<times> u64 list) option" where
  "sscanf fmt n s = map_option
     (\<lambda>(vs, eof). (if eof \<and> vs = [] then - 1 else int (length vs), vs))
     (scan_go (scan_fmt fmt) n s [])"

lemma num_field_dec:
  assumes "rest = [] \<or> \<not> isdigit (hd rest)"
  shows "num_field 0 (dec n @ rest) = (dec n, rest)"
proof -
  have "takeWhile isdigit (dec n @ rest) = dec n"
    using assms dec_isdigit [of _ n]
    by (cases rest) (auto simp: takeWhile_all takeWhile_append_stop)
  then show ?thesis by (simp add: num_field_def Let_def)
qed

lemma num_assign_dec: "num_assign False 64 (dec (unat (w :: u64))) = w"
  using dec_no_prefix(2) [of "unat w" "[]"] by (simp add: num_assign_def Let_def)

lemma ucast32_64_32 [simp]: "(ucast (ucast (w :: u32) :: u64) :: u32) = w"
  by (rule bit_eqI) (auto simp: bit_simps dest: bit_imp_le_length)

lemma num_assign_dec32: "num_assign False 32 (dec (unat (w :: u32))) = ucast w"
proof -
  have "uint w < 2 ^ 64"
    using uint_bounded [of w] by simp
  then have "sat64 False (unat w) = ucast w"
    by (simp add: sat64_def)
  then show ?thesis
    using dec_no_prefix(2) [of "unat w" "[]"] by (simp add: num_assign_def Let_def)
qed

text \<open>\<open>atoi\<close>: the value of \<open>strtol\<close> in base 10, which saturates, cut to an int.\<close>

definition atoi :: "string \<Rightarrow> u32" where
  "atoi s = (let (neg, t) = split_sign (dropWhile isspace s);
                 ds = takeWhile isdigit t
             in if ds = [] then 0 else ucast (sat_signed neg (digits_val 10 0 ds)))"

lemma atoi_dec32: "atoi (dec (unat (w :: u32))) = w"
proof -
  have digits: "takeWhile isdigit (dec n) = dec n" for n
    using dec_isdigit by (blast intro: takeWhile_all)
  have "uint w < 2 ^ 63"
    using uint_bounded [of w] by simp
  then have "sat_signed False (unat w) = of_nat (unat w)"
    by (simp add: sat_signed_def)
  then have "atoi (dec (unat w)) = ucast (of_nat (unat w) :: u64)"
    using dec_no_prefix [of "unat w" "[]"] by (simp add: atoi_def digits Let_def)
  then show ?thesis by simp
qed

section \<open>fgets\<close>

text \<open>One call with room for \<open>n\<close> characters: up to and including the next newline.\<close>

fun fgets1 :: "nat \<Rightarrow> string \<Rightarrow> string \<times> string" where
  "fgets1 n [] = ([], [])"
| "fgets1 n (c # cs) =
     (if n = 0 then ([], c # cs)
      else if c = NL then ([c], cs)
      else (case fgets1 (n - 1) cs of (a, b) \<Rightarrow> (c # a, b)))"

lemma fgets1_append: "fgets1 n s = (a, b) \<Longrightarrow> a @ b = s"
  by (induction n s arbitrary: a b rule: fgets1.induct) (auto split: if_splits prod.splits)

lemma fgets1_length: "fgets1 n s = (a, b) \<Longrightarrow> length a \<le> n"
  by (induction n s arbitrary: a b rule: fgets1.induct) (force split: if_splits prod.splits)+

lemma fgets1_nonempty: "fgets1 n s = (a, b) \<Longrightarrow> 0 < n \<Longrightarrow> s \<noteq> [] \<Longrightarrow> a \<noteq> []"
  by (cases s) (auto split: if_splits prod.splits)

lemma fgets1_shorter: "0 < n \<Longrightarrow> s \<noteq> [] \<Longrightarrow> length (snd (fgets1 n s)) < length s"
proof -
  assume "0 < n" "s \<noteq> []"
  moreover obtain a b where f: "fgets1 n s = (a, b)" by fastforce
  ultimately have "a \<noteq> []" and "length s = length a + length b"
    using fgets1_nonempty fgets1_append by (blast, metis length_append)
  with f show ?thesis by simp
qed

function fgets_raw :: "nat \<Rightarrow> string \<Rightarrow> string list" where
  "fgets_raw n s = (if n = 0 \<or> s = [] then []
                    else fst (fgets1 n s) # fgets_raw n (snd (fgets1 n s)))"
  by pat_completeness auto
termination
  by (relation "measure (\<lambda>(n, s). length s)") (auto intro: fgets1_shorter)

declare fgets_raw.simps [simp del]

lemma fgets_raw_Nil [simp]: "fgets_raw n [] = []"
  by (simp add: fgets_raw.simps)

text \<open>
  \<open>fgets_lines sz s\<close>: the strings a loop \<open>while (fgets(buf, sz, fp))\<close> sees in
  \<open>buf\<close>, each cut at a NUL as the string functions do.
\<close>

definition fgets_lines :: "nat \<Rightarrow> string \<Rightarrow> string list" where
  "fgets_lines sz s = map cstr (fgets_raw (sz - 1) s)"

lemma concat_fgets_raw: "0 < n \<Longrightarrow> concat (fgets_raw n s) = s"
proof (induction n s rule: fgets_raw.induct)
  case (1 n s)
  show ?case
  proof (cases "s = []")
    case True
    then show ?thesis by simp
  next
    case False
    with 1 have "concat (fgets_raw n (snd (fgets1 n s))) = snd (fgets1 n s)"
      by simp
    moreover have "fst (fgets1 n s) @ snd (fgets1 n s) = s"
      by (rule fgets1_append) simp
    ultimately show ?thesis
      using 1 False by (simp add: fgets_raw.simps [of n s])
  qed
qed

lemma fgets_raw_bounds: "l \<in> set (fgets_raw n s) \<Longrightarrow> l \<noteq> [] \<and> length l \<le> n"
proof (induction n s rule: fgets_raw.induct)
  case (1 n s)
  show ?case
  proof (cases "n = 0 \<or> s = []")
    case True
    with "1.prems" show ?thesis by (auto simp: fgets_raw.simps [of n s])
  next
    case False
    then have "fst (fgets1 n s) \<noteq> []" "length (fst (fgets1 n s)) \<le> n"
      by (metis fgets1_nonempty prod.collapse neq0_conv) (metis fgets1_length prod.collapse)
    with 1 False show ?thesis by (auto simp: fgets_raw.simps [of n s])
  qed
qed

lemma fgets_lines_length: "l \<in> set (fgets_lines sz s) \<Longrightarrow> length l \<le> sz - 1"
proof -
  assume "l \<in> set (fgets_lines sz s)"
  then obtain r where "r \<in> set (fgets_raw (sz - 1) s)" "l = cstr r"
    by (auto simp: fgets_lines_def)
  moreover from this have "length (cstr r) \<le> length r"
    by (simp add: cstr_def length_takeWhile_le)
  ultimately show ?thesis
    using fgets_raw_bounds le_trans by blast
qed

text \<open>A complete line that fits is read as it is.\<close>

lemma fgets1_line:
  "NL \<notin> set l \<Longrightarrow> length l < n \<Longrightarrow> fgets1 n (l @ NL # rest) = (l @ [NL], rest)"
  by (induction l arbitrary: n) auto

lemma fgets_raw_line:
  "NL \<notin> set l \<Longrightarrow> length l < n \<Longrightarrow>
     fgets_raw n (l @ NL # rest) = (l @ [NL]) # fgets_raw n rest"
  by (subst fgets_raw.simps) (auto simp: fgets1_line)

lemma fgets_raw_lines:
  "(\<forall>l\<in>set ls. NL \<notin> set l \<and> length l < n) \<Longrightarrow>
     fgets_raw n (concat (map (\<lambda>l. l @ [NL]) ls)) = map (\<lambda>l. l @ [NL]) ls"
  by (induction ls) (auto simp: fgets_raw_line)

end
