(* ===== verification/Hpssix_World.thy ===== *)
theory Hpssix_World
  imports C_Stdio
begin

text \<open>
  The outside of the program.  Everything the sources call but do not contain
  (the operating system, SQLite, the PostgreSQL client library, libconfig,
  libxml2, libcurl, Sun RPC) is a parameter: a value \<open>E\<close> of the record \<open>env\<close> that
  is an argument of every definition that needs it.  Each field gives the answer
  to one kind of call as a function of the history of calls so far, so an
  environment is any behaviour at all, failures included; what a theorem needs of
  a library is a named hypothesis on \<open>E\<close>.

  The world a program runs in is that history, newest call first.  Each primitive
  asks \<open>E\<close> for the answer and records call and answer.  Diagnostics written to
  standard error and the log functions (\<open>hpssixd_log\<close>, \<open>perror\<close>) are not recorded;
  standard output is.
\<close>

section \<open>Data exchanged with the outside\<close>

record stat_t =
  st_dev :: u64
  st_ino :: u64
  st_mode :: u32
  st_nlink :: u64
  st_uid :: u32
  st_gid :: u32
  st_rdev :: u64
  st_size :: u64
  st_blksize :: u64
  st_blocks :: u64
  st_atime :: u64
  st_mtime :: u64
  st_ctime :: u64

record tm =
  tm_sec :: int
  tm_min :: int
  tm_hour :: int
  tm_mday :: int
  tm_mon :: int
  tm_year :: int

definition tm_zero :: tm where
  "tm_zero = \<lparr>tm_sec = 0, tm_min = 0, tm_hour = 0, tm_mday = 0, tm_mon = 0, tm_year = 0\<rparr>"

text \<open>A prepared SQLite statement is known by its connection and its SQL text.\<close>

record sqlite3_stmt =
  st_conn :: nat
  st_sql :: string

datatype sqlval = SInt u64 | SText string | SNull

abbreviation (input) SQLITE_OK :: int where "SQLITE_OK \<equiv> 0"
abbreviation (input) SQLITE_BUSY :: int where "SQLITE_BUSY \<equiv> 5"
abbreviation (input) SQLITE_ROW :: int where "SQLITE_ROW \<equiv> 100"
abbreviation (input) SQLITE_DONE :: int where "SQLITE_DONE \<equiv> 101"

datatype pg_status = PGRES_EMPTY_QUERY | PGRES_COMMAND_OK | PGRES_TUPLES_OK
  | PGRES_COPY_OUT | PGRES_COPY_IN | PGRES_BAD_RESPONSE | PGRES_NONFATAL_ERROR
  | PGRES_FATAL_ERROR

record pgresult =
  res_status :: pg_status
  res_rows :: "string list list"

text \<open>An XML element: its name, its children, and the text \<open>xmlNodeListGetString\<close> gives.\<close>

datatype xnode = XNode (xname: string) (xkids: "xnode list") (xtext: "string option")

datatype cfgval = CInt int | CString string

type_synonym cfg = "string \<Rightarrow> (string \<Rightarrow> cfgval option) option"

section \<open>Calls\<close>

datatype event =
    EvTime u64
  | EvStat string "int + stat_t"
  | EvMkdir string int
  | EvFopen string
  | EvPopen string
  | EvPclose int
  | EvAlarm u64
  | EvConfig string
  | EvMounts
  | EvOut string
  | EvSqOpen string int nat
  | EvSqExec nat string int
  | EvSqPrepare nat string int
  | EvSqBindInt "sqlite3_stmt option" nat u64 int
  | EvSqBindText "sqlite3_stmt option" nat string int
  | EvSqStep "sqlite3_stmt option" int
  | EvSqReset "sqlite3_stmt option"
  | EvSqClose nat
  | EvPqConnect string "nat option"
  | EvPqExec "nat option" string pgresult
  | EvPqPut "nat option" string int
  | EvPqPutEnd "nat option" "string option"
  | EvPqGetResult "nat option" pg_status
  | EvPqFinish nat
  | EvCurl string string string int string
  | EvClntCreate "string option" u32 "int option"
  | EvClntCall u32 nat u64 "int option"
  | EvClntDestroy u32
  | EvSigwait int
  | EvSys string int
  | EvRealpath string
  | EvSetxattr bool string string string int
  | EvGetxattr bool string string nat
  | EvRemovexattr bool string string int
  | EvListxattr bool string nat

type_synonym trace = "event list"
type_synonym 'a io = "(trace, 'a) prog"

record env =
  env_fuel :: nat
  env_alloc :: "trace \<Rightarrow> nat \<Rightarrow> bool"
  env_time :: "trace \<Rightarrow> u64"
  env_localtime :: "u64 \<Rightarrow> tm option"
  env_mktime :: "tm \<Rightarrow> u64"
  env_stat :: "trace \<Rightarrow> string \<Rightarrow> int + stat_t"
  env_mkdir :: "trace \<Rightarrow> string \<Rightarrow> int"
  env_fopen :: "trace \<Rightarrow> string \<Rightarrow> int + (string \<times> int)"
  env_popen :: "trace \<Rightarrow> string \<Rightarrow> int + (string \<times> int \<times> int)"
  env_config :: "trace \<Rightarrow> string \<Rightarrow> cfg option"
  env_mounts :: "trace \<Rightarrow> (string \<times> string) list option"
  env_sqlite3_open :: "trace \<Rightarrow> string \<Rightarrow> int \<times> nat"
  env_sqlite3_exec :: "trace \<Rightarrow> nat \<Rightarrow> string \<Rightarrow> int"
  env_sqlite3_prepare :: "trace \<Rightarrow> nat \<Rightarrow> string \<Rightarrow> int"
  env_sqlite3_bind :: "trace \<Rightarrow> sqlite3_stmt option \<Rightarrow> nat \<Rightarrow> int"
  env_sqlite3_step :: "trace \<Rightarrow> sqlite3_stmt option \<Rightarrow> int"
  env_sqlite3_column :: "trace \<Rightarrow> sqlite3_stmt option \<Rightarrow> nat \<Rightarrow> sqlval"
  env_pq_connect :: "trace \<Rightarrow> string \<Rightarrow> nat option"
  env_pq_exec :: "trace \<Rightarrow> nat option \<Rightarrow> string \<Rightarrow> pgresult"
  env_pq_put :: "trace \<Rightarrow> nat option \<Rightarrow> string \<Rightarrow> int"
  env_pq_result :: "trace \<Rightarrow> nat option \<Rightarrow> pg_status"
  env_pq_escape :: "nat option \<Rightarrow> string \<Rightarrow> string option"
  env_xml :: "string \<Rightarrow> xnode option"
  env_curl :: "trace \<Rightarrow> string \<Rightarrow> string \<Rightarrow> string \<Rightarrow> int \<times> string"
  env_clnt_create :: "trace \<Rightarrow> string option \<Rightarrow> u32 \<Rightarrow> int option"
  env_clnt_call :: "trace \<Rightarrow> u32 \<Rightarrow> nat \<Rightarrow> u64 \<Rightarrow> int option"
  env_sigwait :: "trace \<Rightarrow> int \<times> int"
  env_sys :: "trace \<Rightarrow> string \<Rightarrow> int"
  env_errno :: "trace \<Rightarrow> int"
  env_strerror :: "int \<Rightarrow> string"
  env_realpath :: "trace \<Rightarrow> string \<Rightarrow> string option"
  env_setxattr :: "trace \<Rightarrow> bool \<Rightarrow> string \<Rightarrow> string \<Rightarrow> string \<Rightarrow> int"
  env_getxattr :: "trace \<Rightarrow> bool \<Rightarrow> string \<Rightarrow> string \<Rightarrow> int + string"
  env_removexattr :: "trace \<Rightarrow> bool \<Rightarrow> string \<Rightarrow> string \<Rightarrow> int"
  env_listxattr :: "trace \<Rightarrow> bool \<Rightarrow> string \<Rightarrow> int + string"
  env_lf :: "string \<Rightarrow> string"
  env_elapsed :: "trace \<Rightarrow> string"
  env_localstatedir :: string
  env_confdir :: string
  env_libexecdir :: string

text \<open>
  Reading notes.  \<open>env_fopen\<close> and \<open>env_popen\<close> give the whole text that reading the
  stream will deliver, with the error number of a read error after it (0: none)
  and, for \<open>env_popen\<close>, the status \<open>pclose\<close> returns.  An \<open>int\<close> that stands alone
  is an error number, 0 for success.  \<open>env_clnt_create\<close> is \<open>None\<close> when a handle is
  made and the error number otherwise; \<open>env_clnt_call\<close> is \<open>None\<close> when the call
  fails.  \<open>env_sys\<close> answers the calls, known by their names, of which the sources
  only use the result (0, or the error number); \<open>env_errno\<close> is what \<open>errno\<close> holds
  where the sources read it after a call that did not set it.  The calls on extended
  attributes take as their first argument whether links are followed; their
  answers are the whole value or the whole list, or an error number.  \<open>env_lf\<close> is the
  text \<open>%lf\<close> prints for the double that is read from a text, \<open>env_elapsed\<close> the one for the
  seconds between two readings of the clock.  The last three fields are the directories
  the build configures.
\<close>

section \<open>Primitives\<close>

definition ext :: "(trace \<Rightarrow> 'r) \<Rightarrow> ('r \<Rightarrow> event) \<Rightarrow> 'r io" where
  "ext f ev = (\<lambda>tr. (Ret (f tr), ev (f tr) # tr))"

lemma ext_apply [simp, io_simps]: "ext f ev tr = (Ret (f tr), ev (f tr) # tr)"
  by (simp add: ext_def)

definition alloc :: "env \<Rightarrow> nat \<Rightarrow> bool io" where
  "alloc E n = (\<lambda>tr. (Ret (env_alloc E tr n), tr))"

definition c_time :: "env \<Rightarrow> u64 io" where
  "c_time E = ext (env_time E) EvTime"

definition c_stat :: "env \<Rightarrow> string \<Rightarrow> (int + stat_t) io" where
  "c_stat E path = ext (\<lambda>tr. env_stat E tr path) (EvStat path)"

definition c_mkdir :: "env \<Rightarrow> string \<Rightarrow> int io" where
  "c_mkdir E path = ext (\<lambda>tr. env_mkdir E tr path) (EvMkdir path)"

definition c_fopen :: "env \<Rightarrow> string \<Rightarrow> (int + (string \<times> int)) io" where
  "c_fopen E path = ext (\<lambda>tr. env_fopen E tr path) (\<lambda>_. EvFopen path)"

definition c_popen :: "env \<Rightarrow> string \<Rightarrow> (int + (string \<times> int \<times> int)) io" where
  "c_popen E cmd = ext (\<lambda>tr. env_popen E tr cmd) (\<lambda>_. EvPopen cmd)"

definition c_pclose :: "int \<Rightarrow> unit io" where
  "c_pclose st = ext (\<lambda>_. ()) (\<lambda>_. EvPclose st)"

definition c_alarm :: "u64 \<Rightarrow> unit io" where
  "c_alarm n = ext (\<lambda>_. ()) (\<lambda>_. EvAlarm n)"

definition c_puts :: "string \<Rightarrow> unit io" where
  "c_puts s = ext (\<lambda>_. ()) (\<lambda>_. EvOut s)"

definition c_printf :: "string \<Rightarrow> parg list \<Rightarrow> unit io" where
  "c_printf fmt args = bind_io (lift_io (printf fmt args)) c_puts"

definition config_read_file :: "env \<Rightarrow> string \<Rightarrow> cfg option io" where
  "config_read_file E path = ext (\<lambda>tr. env_config E tr path) (\<lambda>_. EvConfig path)"

definition c_mounts :: "env \<Rightarrow> (string \<times> string) list option io" where
  "c_mounts E = ext (env_mounts E) (\<lambda>_. EvMounts)"

definition sqlite3_open :: "env \<Rightarrow> string \<Rightarrow> (int \<times> nat) io" where
  "sqlite3_open E path =
     ext (\<lambda>tr. env_sqlite3_open E tr path) (\<lambda>(r, c). EvSqOpen path r c)"

definition sqlite3_exec :: "env \<Rightarrow> nat \<Rightarrow> string \<Rightarrow> int io" where
  "sqlite3_exec E c sql = ext (\<lambda>tr. env_sqlite3_exec E tr c sql) (EvSqExec c sql)"

definition sqlite3_prepare :: "env \<Rightarrow> nat \<Rightarrow> string \<Rightarrow> int io" where
  "sqlite3_prepare E c sql = ext (\<lambda>tr. env_sqlite3_prepare E tr c sql) (EvSqPrepare c sql)"

definition sqlite3_bind_int64 :: "env \<Rightarrow> sqlite3_stmt option \<Rightarrow> nat \<Rightarrow> u64 \<Rightarrow> int io" where
  "sqlite3_bind_int64 E st i v = ext (\<lambda>tr. env_sqlite3_bind E tr st i) (EvSqBindInt st i v)"

definition sqlite3_bind_text :: "env \<Rightarrow> sqlite3_stmt option \<Rightarrow> nat \<Rightarrow> string \<Rightarrow> int io" where
  "sqlite3_bind_text E st i v = ext (\<lambda>tr. env_sqlite3_bind E tr st i) (EvSqBindText st i v)"

definition sqlite3_step :: "env \<Rightarrow> sqlite3_stmt option \<Rightarrow> int io" where
  "sqlite3_step E st = ext (\<lambda>tr. env_sqlite3_step E tr st) (EvSqStep st)"

definition sqlite3_reset :: "sqlite3_stmt option \<Rightarrow> unit io" where
  "sqlite3_reset st = ext (\<lambda>_. ()) (\<lambda>_. EvSqReset st)"

definition sqlite3_close :: "nat \<Rightarrow> unit io" where
  "sqlite3_close c = ext (\<lambda>_. ()) (\<lambda>_. EvSqClose c)"

text \<open>Column access: SQLite converts a NULL to 0 and, for text, to a null pointer.\<close>

definition sqlite3_column_int64 :: "env \<Rightarrow> sqlite3_stmt option \<Rightarrow> nat \<Rightarrow> u64 io" where
  "sqlite3_column_int64 E st i = (\<lambda>tr. (Ret (case env_sqlite3_column E tr st i of
      SInt v \<Rightarrow> v | SText s \<Rightarrow> fst (strtoull10 s) | SNull \<Rightarrow> 0), tr))"

definition sqlite3_column_text :: "env \<Rightarrow> sqlite3_stmt option \<Rightarrow> nat \<Rightarrow> string option io" where
  "sqlite3_column_text E st i = (\<lambda>tr. (Ret (case env_sqlite3_column E tr st i of
      SInt v \<Rightarrow> Some (sdec (sint v)) | SText s \<Rightarrow> Some s | SNull \<Rightarrow> None), tr))"

definition PQconnectdb :: "env \<Rightarrow> string \<Rightarrow> nat option io" where
  "PQconnectdb E uri = ext (\<lambda>tr. env_pq_connect E tr uri) (EvPqConnect uri)"

definition PQexec :: "env \<Rightarrow> nat option \<Rightarrow> string \<Rightarrow> pgresult io" where
  "PQexec E c cmd = ext (\<lambda>tr. env_pq_exec E tr c cmd) (EvPqExec c cmd)"

definition PQputCopyData :: "env \<Rightarrow> nat option \<Rightarrow> string \<Rightarrow> int io" where
  "PQputCopyData E c s = ext (\<lambda>tr. env_pq_put E tr c s) (EvPqPut c s)"

definition PQputCopyEnd :: "nat option \<Rightarrow> string option \<Rightarrow> unit io" where
  "PQputCopyEnd c msg = ext (\<lambda>_. ()) (\<lambda>_. EvPqPutEnd c msg)"

definition PQgetResult :: "env \<Rightarrow> nat option \<Rightarrow> pg_status io" where
  "PQgetResult E c = ext (\<lambda>tr. env_pq_result E tr c) (EvPqGetResult c)"

definition PQfinish :: "nat \<Rightarrow> unit io" where
  "PQfinish c = ext (\<lambda>_. ()) (\<lambda>_. EvPqFinish c)"

definition clnt_create :: "env \<Rightarrow> string option \<Rightarrow> u32 \<Rightarrow> int option io" where
  "clnt_create E host prg = ext (\<lambda>tr. env_clnt_create E tr host prg) (EvClntCreate host prg)"

definition clnt_call :: "env \<Rightarrow> u32 \<Rightarrow> nat \<Rightarrow> u64 \<Rightarrow> int option io" where
  "clnt_call E prg pc arg = ext (\<lambda>tr. env_clnt_call E tr prg pc arg) (EvClntCall prg pc arg)"

definition clnt_destroy :: "u32 \<Rightarrow> unit io" where
  "clnt_destroy prg = ext (\<lambda>_. ()) (\<lambda>_. EvClntDestroy prg)"

definition c_sigwait :: "env \<Rightarrow> (int \<times> int) io" where
  "c_sigwait E = ext (env_sigwait E) (\<lambda>(_, sig). EvSigwait sig)"

definition c_sys :: "env \<Rightarrow> string \<Rightarrow> int io" where
  "c_sys E name = ext (\<lambda>tr. env_sys E tr name) (EvSys name)"

definition c_errno :: "env \<Rightarrow> int io" where
  "c_errno E = (\<lambda>tr. (Ret (env_errno E tr), tr))"

definition curl_put :: "env \<Rightarrow> string \<Rightarrow> string \<Rightarrow> string \<Rightarrow> (int \<times> string) io" where
  "curl_put E url accept path =
     ext (\<lambda>tr. env_curl E tr url accept path) (\<lambda>(cc, body). EvCurl url accept path cc body)"

definition c_realpath :: "env \<Rightarrow> string \<Rightarrow> string option io" where
  "c_realpath E path = ext (\<lambda>tr. env_realpath E tr path) (\<lambda>_. EvRealpath path)"

definition c_setxattr :: "env \<Rightarrow> bool \<Rightarrow> string \<Rightarrow> string \<Rightarrow> string \<Rightarrow> int io" where
  "c_setxattr E follow path name val =
     ext (\<lambda>tr. env_setxattr E tr follow path name val) (EvSetxattr follow path name val)"

text \<open>
  \<open>getxattr\<close> and \<open>listxattr\<close> with a buffer of \<open>n\<close> bytes: for \<open>n = 0\<close> only the length of the
  answer is meant; an answer that does not fit is the error ERANGE.
\<close>

definition xattr_fit :: "nat \<Rightarrow> int + string \<Rightarrow> int + string" where
  "xattr_fit n r = (case r of
     Inl e \<Rightarrow> Inl e | Inr v \<Rightarrow> if 0 < n \<and> n < length v then Inl ERANGE else Inr v)"

definition c_getxattr :: "env \<Rightarrow> bool \<Rightarrow> string \<Rightarrow> string \<Rightarrow> nat \<Rightarrow> (int + string) io" where
  "c_getxattr E follow path name n =
     ext (\<lambda>tr. xattr_fit n (env_getxattr E tr follow path name)) (\<lambda>_. EvGetxattr follow path name n)"

definition c_removexattr :: "env \<Rightarrow> bool \<Rightarrow> string \<Rightarrow> string \<Rightarrow> int io" where
  "c_removexattr E follow path name =
     ext (\<lambda>tr. env_removexattr E tr follow path name) (EvRemovexattr follow path name)"

definition c_listxattr :: "env \<Rightarrow> bool \<Rightarrow> string \<Rightarrow> nat \<Rightarrow> (int + string) io" where
  "c_listxattr E follow path n =
     ext (\<lambda>tr. xattr_fit n (env_listxattr E tr follow path)) (\<lambda>_. EvListxattr follow path n)"

lemmas prim_defs = alloc_def c_time_def c_stat_def c_mkdir_def c_fopen_def c_popen_def
  c_pclose_def c_alarm_def c_puts_def config_read_file_def c_mounts_def
  sqlite3_open_def sqlite3_exec_def sqlite3_prepare_def sqlite3_bind_int64_def
  sqlite3_bind_text_def sqlite3_step_def sqlite3_reset_def sqlite3_close_def
  sqlite3_column_int64_def sqlite3_column_text_def PQconnectdb_def PQexec_def
  PQputCopyData_def PQputCopyEnd_def PQgetResult_def PQfinish_def clnt_create_def
  clnt_call_def clnt_destroy_def c_sigwait_def c_sys_def c_errno_def curl_put_def
  c_realpath_def c_setxattr_def c_getxattr_def c_removexattr_def c_listxattr_def

text \<open>Asking for an allocation or a column leaves the history as it is.\<close>

lemma preserves_pure_prims [simp, intro]:
  "preserves I (alloc E n)"
  "preserves I (c_errno E)"
  "preserves I (sqlite3_column_int64 E st i)"
  "preserves I (sqlite3_column_text E st i)"
  by (simp_all add: preserves_def prim_defs)

lemma preserves_ext: "(\<And>tr. I tr \<Longrightarrow> I (ev (f tr) # tr)) \<Longrightarrow> preserves I (ext f ev)"
  by (simp add: preserves_def)

section \<open>A quiet environment\<close>

text \<open>
  Every call succeeds and every stream is empty.  Closed examples update the
  fields they are about.
\<close>

definition quiet_env :: env where
  "quiet_env = \<lparr>
     env_fuel = 1, env_alloc = (\<lambda>_ _. True), env_time = (\<lambda>_. 0),
     env_localtime = (\<lambda>_. Some tm_zero), env_mktime = (\<lambda>_. 0),
     env_stat = (\<lambda>_ _. Inl ENOENT), env_mkdir = (\<lambda>_ _. 0),
     env_fopen = (\<lambda>_ _. Inr ([], 0)), env_popen = (\<lambda>_ _. Inr ([], 0, 0)),
     env_config = (\<lambda>_ _. Some (\<lambda>_. None)), env_mounts = (\<lambda>_. Some []),
     env_sqlite3_open = (\<lambda>_ _. (SQLITE_OK, 1)), env_sqlite3_exec = (\<lambda>_ _ _. SQLITE_OK),
     env_sqlite3_prepare = (\<lambda>_ _ _. SQLITE_OK), env_sqlite3_bind = (\<lambda>_ _ _. SQLITE_OK),
     env_sqlite3_step = (\<lambda>_ _. SQLITE_DONE), env_sqlite3_column = (\<lambda>_ _ _. SNull),
     env_pq_connect = (\<lambda>_ _. Some 1),
     env_pq_exec = (\<lambda>_ _ _. \<lparr>res_status = PGRES_COMMAND_OK, res_rows = []\<rparr>),
     env_pq_put = (\<lambda>_ _ _. 1), env_pq_result = (\<lambda>_ _. PGRES_COMMAND_OK),
     env_pq_escape = (\<lambda>_ s. Some (SQUOTE # s @ [SQUOTE])),
     env_xml = (\<lambda>_. None), env_curl = (\<lambda>_ _ _ _. (0, [])),
     env_clnt_create = (\<lambda>_ _ _. None), env_clnt_call = (\<lambda>_ _ _ _. Some 0),
     env_sigwait = (\<lambda>_. (0, 15)), env_sys = (\<lambda>_ _. 0), env_errno = (\<lambda>_. 0),
     env_strerror = (\<lambda>_. ''error''), env_realpath = (\<lambda>_ p. Some p),
     env_setxattr = (\<lambda>_ _ _ _ _. 0), env_getxattr = (\<lambda>_ _ _ _. Inl ENODATA),
     env_removexattr = (\<lambda>_ _ _ _. 0), env_listxattr = (\<lambda>_ _ _. Inr []), env_lf = (\<lambda>s. s), env_elapsed = (\<lambda>_. ''0.000000''),
     env_localstatedir = ''/var/hpssix'', env_confdir = ''/etc/hpssix'',
     env_libexecdir = ''/usr/libexec''\<rparr>"

end
