(* ===== verification/Hpssix_Config.thy ===== *)
theory Hpssix_Config
  imports Hpssix_World
begin

text \<open>
  The configuration of libhpssix (hpssix-config.h, hpssix-config.c): the record
  \<open>hpssix_config\<close>, reading it from the libconfig file, dumping it, and the list of
  file extensions to extract text from.  The second part shows that reading the
  extension filter stays within its allocation and yields trimmed lower-case
  extensions.
\<close>

section \<open>Configuration\<close>

record hpssix_config =
  db_host :: "string option"
  db_user :: "string option"
  db_password :: "string option"
  db_database :: "string option"
  db_port :: u16
  tag_prefix :: "string option"
  workdir :: "string option"
  hpss_mountpoint :: "string option"
  db2path :: "string option"
  db2user :: "string option"
  db2password :: "string option"
  tika_host :: "string option"
  tika_port :: u16
  extractor_nthreads :: u32
  extractor_maxfilesize :: u64
  scanner_host :: "string option"
  builder_host :: "string option"
  extractor_host :: "string option"
  rpc_timeout :: u64
  first_oid :: u64
  schedule :: tm

definition config_zero :: hpssix_config where
  "config_zero = \<lparr>
     db_host = None, db_user = None, db_password = None, db_database = None, db_port = 0,
     tag_prefix = None, workdir = None, hpss_mountpoint = None, db2path = None,
     db2user = None, db2password = None, tika_host = None, tika_port = 0,
     extractor_nthreads = 0, extractor_maxfilesize = 0, scanner_host = None,
     builder_host = None, extractor_host = None, rpc_timeout = 0, first_oid = 0,
     schedule = tm_zero\<rparr>"

definition hpssix_sysconf_file :: "env \<Rightarrow> string" where
  "hpssix_sysconf_file E = env_confdir E @ ''/hpssix.conf''"

definition hpssix_extfilter_file :: "env \<Rightarrow> string" where
  "hpssix_extfilter_file E = env_confdir E @ ''/extfilter.conf''"

definition read_hpssix_schedule :: "hpssix_config \<Rightarrow> string \<Rightarrow> hpssix_config" where
  "read_hpssix_schedule config str =
     (case sscanf ''%2d:%2d:%2d'' 3 str of
        None \<Rightarrow> config
      | Some (_, vs) \<Rightarrow>
          let t0 = schedule config;
              t1 = (if 0 < length vs then t0\<lparr>tm_hour := int32 (vs ! 0)\<rparr> else t0);
              t2 = (if 1 < length vs then t1\<lparr>tm_min := int32 (vs ! 1)\<rparr> else t1);
              t3 = (if 2 < length vs then t2\<lparr>tm_sec := int32 (vs ! 2)\<rparr> else t2)
          in config\<lparr>schedule := t3\<rparr>)"

definition strdup :: "env \<Rightarrow> string \<Rightarrow> string option io" where
  "strdup E s = bind_io (alloc E (length s + 1))
     (\<lambda>ok. return_io (if ok then Some s else None))"

text \<open>
  One lookup and store of \<open>hpssix_config_read_sysconf\<close>: \<open>set_string\<close> is
  \<open>config_setting_lookup_string\<close> followed by \<open>strdup\<close> into a field,
  \<open>set_int\<close> is \<open>config_setting_lookup_int\<close> followed by the assignment, which
  converts the int to the width of the field.
\<close>

definition set_string ::
  "env \<Rightarrow> (string \<Rightarrow> cfgval option) \<Rightarrow> string \<Rightarrow>
   ((string option \<Rightarrow> string option) \<Rightarrow> hpssix_config \<Rightarrow> hpssix_config) \<Rightarrow>
   hpssix_config \<Rightarrow> hpssix_config io" where
  "set_string E setting key upd c = (case setting key of
     Some (CString s) \<Rightarrow> bind_io (strdup E s) (\<lambda>p. return_io (upd (\<lambda>_. p) c))
   | _ \<Rightarrow> return_io c)"

definition set_int ::
  "(string \<Rightarrow> cfgval option) \<Rightarrow> string \<Rightarrow> (int \<Rightarrow> hpssix_config \<Rightarrow> hpssix_config) \<Rightarrow>
   hpssix_config \<Rightarrow> hpssix_config io" where
  "set_int setting key upd c = (case setting key of
     Some (CInt i) \<Rightarrow> return_io (upd i c)
   | _ \<Rightarrow> return_io c)"

definition in_section ::
  "cfg \<Rightarrow> string \<Rightarrow> ((string \<Rightarrow> cfgval option) \<Rightarrow> hpssix_config \<Rightarrow> hpssix_config io) \<Rightarrow>
   hpssix_config \<Rightarrow> hpssix_config io" where
  "in_section f name body c =
     (case f name of None \<Rightarrow> return_io c | Some setting \<Rightarrow> body setting c)"

definition read_global :: "env \<Rightarrow> (string \<Rightarrow> cfgval option) \<Rightarrow> hpssix_config \<Rightarrow> hpssix_config io" where
  "read_global E s c0 =
     bind_io (set_string E s ''workdir'' workdir_update c0) (\<lambda>c1.
     bind_io (case s ''schedule'' of
                Some (CString v) \<Rightarrow> return_io (read_hpssix_schedule c1 v)
              | _ \<Rightarrow> return_io c1) (\<lambda>c2.
     bind_io (set_int s ''rpctimeout'' (\<lambda>i c. c\<lparr>rpc_timeout := of_int i\<rparr>) c2) (\<lambda>c3.
     set_int s ''firstoid'' (\<lambda>i c. c\<lparr>first_oid := of_int i\<rparr>) c3)))"

definition read_hpss :: "env \<Rightarrow> (string \<Rightarrow> cfgval option) \<Rightarrow> hpssix_config \<Rightarrow> hpssix_config io" where
  "read_hpss E s c0 =
     bind_io (set_string E s ''mountpoint'' hpss_mountpoint_update c0) (\<lambda>c1.
     bind_io (set_string E s ''db2path'' db2path_update c1) (\<lambda>c2.
     bind_io (set_string E s ''db2user'' db2user_update c2) (\<lambda>c3.
     set_string E s ''db2password'' db2password_update c3)))"

definition read_database ::
  "env \<Rightarrow> (string \<Rightarrow> cfgval option) \<Rightarrow> hpssix_config \<Rightarrow> hpssix_config io" where
  "read_database E s c0 =
     bind_io (set_string E s ''host'' db_host_update c0) (\<lambda>c1.
     bind_io (set_int s ''port'' (\<lambda>i c. c\<lparr>db_port := of_int i\<rparr>) c1) (\<lambda>c2.
     bind_io (set_string E s ''user'' db_user_update c2) (\<lambda>c3.
     bind_io (set_string E s ''password'' db_password_update c3) (\<lambda>c4.
     set_string E s ''database'' db_database_update c4))))"

definition read_extractor ::
  "env \<Rightarrow> (string \<Rightarrow> cfgval option) \<Rightarrow> hpssix_config \<Rightarrow> hpssix_config io" where
  "read_extractor E s c0 =
     bind_io (set_string E s ''host'' extractor_host_update c0) (\<lambda>c1.
     bind_io (set_int s ''maxfilesize'' (\<lambda>i c. c\<lparr>extractor_maxfilesize := of_int i\<rparr>) c1) (\<lambda>c2.
     set_int s ''nthreads'' (\<lambda>i c. c\<lparr>extractor_nthreads := of_int i\<rparr>) c2))"

text \<open>The sections of the file in the order the code reads them.\<close>

definition read_sections :: "env \<Rightarrow> cfg \<Rightarrow> hpssix_config io" where
  "read_sections E f =
     bind_io (in_section f ''hpssix'' (read_global E) config_zero) (\<lambda>c1.
     bind_io (in_section f ''tagging'' (\<lambda>s. set_string E s ''prefix'' tag_prefix_update) c1) (\<lambda>c2.
     bind_io (in_section f ''hpss'' (read_hpss E) c2) (\<lambda>c3.
     bind_io (in_section f ''database'' (read_database E) c3) (\<lambda>c4.
     bind_io (in_section f ''tika'' (\<lambda>s c.
                bind_io (set_string E s ''host'' tika_host_update c)
                  (set_int s ''port'' (\<lambda>i c. c\<lparr>tika_port := of_int i\<rparr>))) c4) (\<lambda>c5.
     bind_io (in_section f ''scanner'' (\<lambda>s. set_string E s ''host'' scanner_host_update) c5) (\<lambda>c6.
     bind_io (in_section f ''builder'' (\<lambda>s. set_string E s ''host'' builder_host_update) c6) (\<lambda>c7.
     in_section f ''extractor'' (read_extractor E) c7)))))))"

text \<open>
  The pointer argument is \<open>None\<close> for NULL.  Whatever the file holds, and also when
  it cannot be read, a non-null call returns 0.
\<close>

definition hpssix_config_read_sysconf ::
  "env \<Rightarrow> hpssix_config option \<Rightarrow> (int \<times> hpssix_config option) io" where
  "hpssix_config_read_sysconf E config = (case config of
     None \<Rightarrow> return_io (- 1, None)
   | Some _ \<Rightarrow>
       bind_io (config_read_file E (hpssix_sysconf_file E)) (\<lambda>r.
       case r of
         None \<Rightarrow> return_io (0, Some config_zero)
       | Some f \<Rightarrow> bind_io (read_sections E f) (\<lambda>c. return_io (0, Some c))))"

definition hpssix_config_dump :: "hpssix_config option \<Rightarrow> int io" where
  "hpssix_config_dump config = (case config of
     None \<Rightarrow> return_io (- 1)
   | Some c \<Rightarrow>
       bind_io (lift_io (printf
          (''hpssix configuration:'' @ [NL] @ ''* db_host = %s'' @ [NL] @ ''* db_port = %d'' @ [NL] @
           ''* db_user = %s'' @ [NL] @ ''* db_password = %d'' @ [NL] @ ''* db_database = %s'' @ [NL])
          [PStr (db_host c), PInt (ucast (db_port c)), PStr (db_user c), PStr (db_password c),
           PStr (db_database c)])) (\<lambda>s.
       then_io (c_puts s) (return_io 0)))"

section \<open>Extension filter\<close>

record hpssix_extfilter =
  n_exts :: nat
  exts :: "string list"

text \<open>
  The trimming loop of \<open>trim_extension\<close> walks back over white space and has no
  lower bound: on the reversed string, running out of characters means reading
  before the start of the buffer.
\<close>

fun rtrim_loop :: "string \<Rightarrow> string option" where
  "rtrim_loop [] = None"
| "rtrim_loop (c # cs) = (if isspace c then rtrim_loop cs else Some (c # cs))"

definition trim_extension :: "string \<Rightarrow> string option" where
  "trim_extension str = map_option (\<lambda>r. map tolower (rev r)) (rtrim_loop (rev str))"

text \<open>The guard \<open>isspace(linebuf[0]) || linebuf[0] == '#'\<close> of both passes.\<close>

definition skip_line :: "string \<Rightarrow> bool" where
  "skip_line l = (case l of [] \<Rightarrow> False | c # _ \<Rightarrow> isspace c \<or> c = CHR ''#'')"

abbreviation (input) LINE_MAX :: nat where "LINE_MAX \<equiv> 2048"
abbreviation (input) PATH_MAX :: nat where "PATH_MAX \<equiv> 4096"
abbreviation (input) NAME_MAX :: nat where "NAME_MAX \<equiv> 255"

fun count_exts :: "string list \<Rightarrow> nat \<Rightarrow> nat" where
  "count_exts [] n = n"
| "count_exts (l # ls) n = count_exts ls (if skip_line l then n else n + 1)"

text \<open>
  The second pass; \<open>cap\<close> is the number of pointers the first pass made room for.
  The flag of the result says whether the whole file was read.
\<close>

fun store_exts :: "env \<Rightarrow> nat \<Rightarrow> string list \<Rightarrow> string list \<Rightarrow> (string list \<times> bool) io" where
  "store_exts E cap [] acc = return_io (acc, True)"
| "store_exts E cap (l # ls) acc =
     (if skip_line l then store_exts E cap ls acc
      else bind_io (lift_io (trim_extension l)) (\<lambda>s.
           bind_io (strdup E s) (\<lambda>p. case p of
             None \<Rightarrow> return_io (acc, False)
           | Some current \<Rightarrow>
               if length acc < cap then store_exts E cap ls (acc @ [current])
               else undef_io)))"

definition hpssix_extfilter_get :: "env \<Rightarrow> hpssix_extfilter option io" where
  "hpssix_extfilter_get E =
     bind_io (c_fopen E (hpssix_extfilter_file E)) (\<lambda>r. case r of
       Inl _ \<Rightarrow> return_io None
     | Inr (content, err) \<Rightarrow>
         let ls = fgets_lines (LINE_MAX - 1) content; lines = count_exts ls 0 in
         if err \<noteq> 0 then return_io None
         else bind_io (alloc E (8 + 8 * lines + 1)) (\<lambda>ok.
           if \<not> ok then return_io None
           else bind_io (store_exts E lines ls []) (\<lambda>(es, done).
             return_io (Some \<lparr>n_exts = (if done then length es else 0), exts = es\<rparr>))))"

section \<open>Lemmas\<close>

lemma strdup_cases:
  "strdup E s tr = (Ret (Some s), tr) \<or> strdup E s tr = (Ret None, tr)"
  by (simp add: strdup_def bind_io_apply alloc_def)

lemma rtrim_loop_append:
  "rtrim_loop (rev (c # s)) \<noteq> None" if "\<not> isspace c"
proof -
  have "rtrim_loop (xs @ [c]) \<noteq> None" for xs
    using that by (induction xs) auto
  then show ?thesis by simp
qed

lemma rtrim_loop_eq: "rtrim_loop s = Some r \<Longrightarrow> r = dropWhile isspace s \<and> r \<noteq> []"
  by (induction s) (auto split: if_splits)

text \<open>What the filter entry of a line should be: the line without trailing space, in lower case.\<close>

definition ext_of_line :: "string \<Rightarrow> string" where
  "ext_of_line l = map tolower (rev (dropWhile isspace (rev l)))"

lemma trim_extension_eq:
  assumes "\<not> skip_line l" and "l \<noteq> []"
  shows "trim_extension l = Some (ext_of_line l)"
proof -
  obtain c cs where l: "l = c # cs" using assms(2) by (cases l) auto
  with assms(1) have "\<not> isspace c" by (simp add: skip_line_def)
  then obtain r where "rtrim_loop (rev l) = Some r"
    using rtrim_loop_append [of c cs] l by auto
  with rtrim_loop_eq [OF this] show ?thesis
    by (simp add: trim_extension_def ext_of_line_def)
qed

lemma count_exts_eq: "count_exts ls n = n + length (filter (\<lambda>l. \<not> skip_line l) ls)"
  by (induction ls arbitrary: n) auto

lemma store_exts_eq:
  assumes "\<forall>l\<in>set ls. l \<noteq> []"
    and "length acc + length (filter (\<lambda>l. \<not> skip_line l) ls) \<le> cap"
  shows "\<exists>es b. store_exts E cap ls acc tr = (Ret (es, b), tr) \<and>
           (b \<longrightarrow> es = acc @ map ext_of_line (filter (\<lambda>l. \<not> skip_line l) ls)) \<and>
           ((\<forall>n. env_alloc E tr n) \<longrightarrow> b)"
  using assms
proof (induction ls arbitrary: acc)
  case Nil
  then show ?case by auto
next
  case (Cons l ls)
  show ?case
  proof (cases "skip_line l")
    case True
    with Cons show ?thesis by simp
  next
    case False
    then have t: "trim_extension l = Some (ext_of_line l)"
      using Cons.prems by (simp add: trim_extension_eq)
    from strdup_cases [of E "ext_of_line l" tr] show ?thesis
    proof
      assume "strdup E (ext_of_line l) tr = (Ret (Some (ext_of_line l)), tr)"
      moreover have "\<exists>es b. store_exts E cap ls (acc @ [ext_of_line l]) tr = (Ret (es, b), tr) \<and>
          (b \<longrightarrow> es = (acc @ [ext_of_line l]) @ map ext_of_line (filter (\<lambda>l. \<not> skip_line l) ls)) \<and>
          ((\<forall>n. env_alloc E tr n) \<longrightarrow> b)"
        using Cons.prems False by (intro Cons.IH) auto
      ultimately show ?thesis
        using Cons.prems False t by (simp add: bind_io_Ret)
    next
      assume "strdup E (ext_of_line l) tr = (Ret None, tr)"
      then show ?thesis
        using False t
        by (auto simp: bind_io_Ret strdup_def alloc_def split: if_splits)
    qed
  qed
qed

lemma fgets_lines_nonempty:
  assumes "NUL \<notin> set s" and "l \<in> set (fgets_lines sz s)"
  shows "l \<noteq> []"
proof -
  from assms(2) obtain r where r: "r \<in> set (fgets_raw (sz - 1) s)" "l = cstr r"
    by (auto simp: fgets_lines_def)
  then have "0 < sz - 1"
    by (metis fgets_raw_bounds bot_nat_0.not_eq_extremum le_zero_eq length_0_conv)
  with r(1) have "set r \<subseteq> set s"
    using concat_fgets_raw [of "sz - 1" s] by (metis UN_upper set_concat)
  with assms(1) have "cstr r = r"
    by (auto simp: cstr_def intro!: takeWhile_all)
  with r show ?thesis using fgets_raw_bounds by simp
qed

lemma skip_line_ext_nonempty:
  assumes "\<not> skip_line l" and "l \<noteq> []"
  shows "ext_of_line l \<noteq> []"
proof -
  have "rtrim_loop (rev l) \<noteq> None"
    using assms trim_extension_eq [OF assms] by (auto simp: trim_extension_def)
  then show ?thesis by (auto simp: ext_of_line_def dest: rtrim_loop_eq)
qed

lemma isspace_tolower: "isspace (tolower c) = isspace c"
  by (auto simp: isspace_def tolower_def code_def)

lemma last_ext_of_line:
  assumes "ext_of_line l \<noteq> []"
  shows "\<not> isspace (last (ext_of_line l))"
proof -
  from assms have "dropWhile isspace (rev l) \<noteq> []"
    by (simp add: ext_of_line_def)
  then have "\<not> isspace (hd (dropWhile isspace (rev l)))"
    by (rule hd_dropWhile)
  then show ?thesis
    using assms by (simp add: ext_of_line_def last_map last_rev isspace_tolower)
qed

section \<open>What the configuration should be\<close>

text \<open>
  The configuration a parsed file denotes, field by field: the value of the
  setting if it is there with the right type, and zero or NULL otherwise.
\<close>

definition lookup :: "cfg \<Rightarrow> string \<Rightarrow> string \<Rightarrow> cfgval option" where
  "lookup f sec key = (case f sec of None \<Rightarrow> None | Some s \<Rightarrow> s key)"

definition str_or :: "string option \<Rightarrow> cfgval option \<Rightarrow> string option" where
  "str_or old v = (case v of Some (CString s) \<Rightarrow> Some s | _ \<Rightarrow> old)"

definition int_or :: "'a::len word \<Rightarrow> cfgval option \<Rightarrow> 'a word" where
  "int_or old v = (case v of Some (CInt i) \<Rightarrow> of_int i | _ \<Rightarrow> old)"

definition schedule_or :: "tm \<Rightarrow> cfgval option \<Rightarrow> tm" where
  "schedule_or old v = (case v of
     Some (CString s) \<Rightarrow> schedule (read_hpssix_schedule (config_zero\<lparr>schedule := old\<rparr>) s)
   | _ \<Rightarrow> old)"

definition config_of :: "cfg \<Rightarrow> hpssix_config" where
  "config_of f = \<lparr>
     db_host = str_or None (lookup f ''database'' ''host''),
     db_user = str_or None (lookup f ''database'' ''user''),
     db_password = str_or None (lookup f ''database'' ''password''),
     db_database = str_or None (lookup f ''database'' ''database''),
     db_port = int_or 0 (lookup f ''database'' ''port''),
     tag_prefix = str_or None (lookup f ''tagging'' ''prefix''),
     workdir = str_or None (lookup f ''hpssix'' ''workdir''),
     hpss_mountpoint = str_or None (lookup f ''hpss'' ''mountpoint''),
     db2path = str_or None (lookup f ''hpss'' ''db2path''),
     db2user = str_or None (lookup f ''hpss'' ''db2user''),
     db2password = str_or None (lookup f ''hpss'' ''db2password''),
     tika_host = str_or None (lookup f ''tika'' ''host''),
     tika_port = int_or 0 (lookup f ''tika'' ''port''),
     extractor_nthreads = int_or 0 (lookup f ''extractor'' ''nthreads''),
     extractor_maxfilesize = int_or 0 (lookup f ''extractor'' ''maxfilesize''),
     scanner_host = str_or None (lookup f ''scanner'' ''host''),
     builder_host = str_or None (lookup f ''builder'' ''host''),
     extractor_host = str_or None (lookup f ''extractor'' ''host''),
     rpc_timeout = int_or 0 (lookup f ''hpssix'' ''rpctimeout''),
     first_oid = int_or 0 (lookup f ''hpssix'' ''firstoid''),
     schedule = schedule_or tm_zero (lookup f ''hpssix'' ''schedule'')\<rparr>"

lemma set_string_eq:
  assumes "\<And>tr n. env_alloc E tr n" and "upd (\<lambda>x. x) c = c"
  shows "set_string E s key upd c tr = (Ret (upd (\<lambda>old. str_or old (s key)) c), tr)"
  using assms
  by (auto simp: set_string_def strdup_def alloc_def bind_io_apply str_or_def
      split: option.splits cfgval.splits)

lemma set_int_eq:
  assumes "\<And>i c. upd i c = fld (\<lambda>_. of_int i) c" and "fld (\<lambda>x. x) c = c"
  shows "set_int s key upd c tr = (Ret (fld (\<lambda>old. int_or old (s key)) c), tr)"
  using assms by (auto simp: set_int_def int_or_def split: option.splits cfgval.splits)

lemma set_schedule_eq:
  "(case v of Some (CString x) \<Rightarrow> return_io (read_hpssix_schedule c x) | _ \<Rightarrow> return_io c) tr
     = (Ret (schedule_update (\<lambda>old. schedule_or old v) c), tr)"
  by (cases c) (simp add: schedule_or_def read_hpssix_schedule_def Let_def config_zero_def
      split: option.splits cfgval.splits prod.splits)

text \<open>
  Each section, when memory suffices, is one update per field, in the order of
  the code.
\<close>

lemmas set_field_simps = str_or_def int_or_def schedule_or_def

lemma section_global:
  assumes "\<And>tr n. env_alloc E tr n"
  shows "in_section f ''hpssix'' (read_global E) c tr
       = (Ret (first_oid_update (\<lambda>old. int_or old (lookup f ''hpssix'' ''firstoid''))
          (rpc_timeout_update (\<lambda>old. int_or old (lookup f ''hpssix'' ''rpctimeout''))
          (schedule_update (\<lambda>old. schedule_or old (lookup f ''hpssix'' ''schedule''))
          (workdir_update (\<lambda>old. str_or old (lookup f ''hpssix'' ''workdir''))
          c)))), tr)"
  by (cases "f ''hpssix''")
    (simp_all add: in_section_def lookup_def set_string_eq [OF assms] bind_io_apply
      read_global_def set_int_eq [of "\<lambda>i c. c\<lparr>rpc_timeout := of_int i\<rparr>" rpc_timeout_update] set_int_eq [of "\<lambda>i c. c\<lparr>first_oid := of_int i\<rparr>" first_oid_update] set_schedule_eq,
     simp_all add: set_field_simps)

lemma section_tagging:
  assumes "\<And>tr n. env_alloc E tr n"
  shows "in_section f ''tagging'' (\<lambda>s. set_string E s ''prefix'' tag_prefix_update) c tr
       = (Ret (tag_prefix_update (\<lambda>old. str_or old (lookup f ''tagging'' ''prefix''))
          c), tr)"
  by (cases "f ''tagging''")
    (simp_all add: in_section_def lookup_def set_string_eq [OF assms] bind_io_apply
        ,
     simp_all add: set_field_simps)

lemma section_hpss:
  assumes "\<And>tr n. env_alloc E tr n"
  shows "in_section f ''hpss'' (read_hpss E) c tr
       = (Ret (db2password_update (\<lambda>old. str_or old (lookup f ''hpss'' ''db2password''))
          (db2user_update (\<lambda>old. str_or old (lookup f ''hpss'' ''db2user''))
          (db2path_update (\<lambda>old. str_or old (lookup f ''hpss'' ''db2path''))
          (hpss_mountpoint_update (\<lambda>old. str_or old (lookup f ''hpss'' ''mountpoint''))
          c)))), tr)"
  by (cases "f ''hpss''")
    (simp_all add: in_section_def lookup_def set_string_eq [OF assms] bind_io_apply
      read_hpss_def  ,
     simp_all add: set_field_simps)

lemma section_database:
  assumes "\<And>tr n. env_alloc E tr n"
  shows "in_section f ''database'' (read_database E) c tr
       = (Ret (db_database_update (\<lambda>old. str_or old (lookup f ''database'' ''database''))
          (db_password_update (\<lambda>old. str_or old (lookup f ''database'' ''password''))
          (db_user_update (\<lambda>old. str_or old (lookup f ''database'' ''user''))
          (db_port_update (\<lambda>old. int_or old (lookup f ''database'' ''port''))
          (db_host_update (\<lambda>old. str_or old (lookup f ''database'' ''host''))
          c))))), tr)"
  by (cases "f ''database''")
    (simp_all add: in_section_def lookup_def set_string_eq [OF assms] bind_io_apply
      read_database_def set_int_eq [of "\<lambda>i c. c\<lparr>db_port := of_int i\<rparr>" db_port_update] ,
     simp_all add: set_field_simps)

lemma section_tika:
  assumes "\<And>tr n. env_alloc E tr n"
  shows "in_section f ''tika'' (\<lambda>s c. bind_io (set_string E s ''host'' tika_host_update c)
              (set_int s ''port'' (\<lambda>i c. c\<lparr>tika_port := of_int i\<rparr>))) c tr
       = (Ret (tika_port_update (\<lambda>old. int_or old (lookup f ''tika'' ''port''))
          (tika_host_update (\<lambda>old. str_or old (lookup f ''tika'' ''host''))
          c)), tr)"
  by (cases "f ''tika''")
    (simp_all add: in_section_def lookup_def set_string_eq [OF assms] bind_io_apply
       set_int_eq [of "\<lambda>i c. c\<lparr>tika_port := of_int i\<rparr>" tika_port_update] ,
     simp_all add: set_field_simps)

lemma section_scanner:
  assumes "\<And>tr n. env_alloc E tr n"
  shows "in_section f ''scanner'' (\<lambda>s. set_string E s ''host'' scanner_host_update) c tr
       = (Ret (scanner_host_update (\<lambda>old. str_or old (lookup f ''scanner'' ''host''))
          c), tr)"
  by (cases "f ''scanner''")
    (simp_all add: in_section_def lookup_def set_string_eq [OF assms] bind_io_apply
        ,
     simp_all add: set_field_simps)

lemma section_builder:
  assumes "\<And>tr n. env_alloc E tr n"
  shows "in_section f ''builder'' (\<lambda>s. set_string E s ''host'' builder_host_update) c tr
       = (Ret (builder_host_update (\<lambda>old. str_or old (lookup f ''builder'' ''host''))
          c), tr)"
  by (cases "f ''builder''")
    (simp_all add: in_section_def lookup_def set_string_eq [OF assms] bind_io_apply
        ,
     simp_all add: set_field_simps)

lemma section_extractor:
  assumes "\<And>tr n. env_alloc E tr n"
  shows "in_section f ''extractor'' (read_extractor E) c tr
       = (Ret (extractor_nthreads_update (\<lambda>old. int_or old (lookup f ''extractor'' ''nthreads''))
          (extractor_maxfilesize_update (\<lambda>old. int_or old (lookup f ''extractor'' ''maxfilesize''))
          (extractor_host_update (\<lambda>old. str_or old (lookup f ''extractor'' ''host''))
          c))), tr)"
  by (cases "f ''extractor''")
    (simp_all add: in_section_def lookup_def set_string_eq [OF assms] bind_io_apply
      read_extractor_def set_int_eq [of "\<lambda>i c. c\<lparr>extractor_maxfilesize := of_int i\<rparr>" extractor_maxfilesize_update] set_int_eq [of "\<lambda>i c. c\<lparr>extractor_nthreads := of_int i\<rparr>" extractor_nthreads_update] ,
     simp_all add: set_field_simps)

lemmas sections = section_global section_tagging section_hpss section_database section_tika
  section_scanner section_builder section_extractor

text \<open>Whatever the file holds, a non-null call returns 0 and only reads the file.\<close>

lemma silent_strdup [simp, intro]: "silent (strdup E s)"
  unfolding strdup_def by (auto simp: alloc_def silent_def bind_io_apply)

lemma silent_setters [simp, intro]:
  "silent (set_string E s k upd c)" "silent (set_int s k iupd c)"
  by (auto simp: set_string_def set_int_def split: option.splits cfgval.splits)

lemma silent_in_section [intro]: "(\<And>s. silent (body s c)) \<Longrightarrow> silent (in_section f n body c)"
  by (auto simp: in_section_def split: option.splits)

lemma silent_schedule [simp, intro]:
  "silent (case v of Some (CString t) \<Rightarrow> return_io (f t) | _ \<Rightarrow> return_io c)"
  by (auto split: option.splits cfgval.splits)

lemma silent_sections [simp, intro]:
  "silent (read_global E s c)" "silent (read_hpss E s c)" "silent (read_database E s c)"
  "silent (read_extractor E s c)"
  unfolding read_global_def read_hpss_def read_database_def read_extractor_def
  by (intro silent_bind silent_setters silent_schedule)+

lemma silent_read_sections: "silent (read_sections E f)"
  unfolding read_sections_def by (intro silent_bind silent_in_section) auto

lemma config_read_sysconf_returns:
  "\<exists>c. hpssix_config_read_sysconf E (Some c0) tr
     = (Ret (0, Some c), EvConfig (hpssix_sysconf_file E) # tr)"
proof (cases "env_config E tr (hpssix_sysconf_file E)")
  case None
  then show ?thesis
    by (simp add: hpssix_config_read_sysconf_def bind_io_apply config_read_file_def)
next
  case (Some f)
  then show ?thesis
    by (rule_tac silentE [OF silent_read_sections, of E f "EvConfig (hpssix_sysconf_file E) # tr"])
      (simp add: hpssix_config_read_sysconf_def bind_io_apply config_read_file_def)
qed

section \<open>Properties\<close>

text \<open>
  C6: reading the configuration.  When the file parses and memory suffices,
  \<open>hpssix_config_read_sysconf\<close> returns 0 and every field holds exactly the value
  its setting denotes (\<open>config_of\<close>), converted to the width of the field.
\<close>

theorem config_read_sysconf_spec:
  assumes "env_config E tr (hpssix_sysconf_file E) = Some f"
    and "\<And>tr n. env_alloc E tr n"
  shows "hpssix_config_read_sysconf E (Some c0) tr
         = (Ret (0, Some (config_of f)), EvConfig (hpssix_sysconf_file E) # tr)"
  using assms(1)
  by (simp add: hpssix_config_read_sysconf_def read_sections_def config_read_file_def bind_io_apply
      sections [OF assms(2)] config_of_def config_zero_def)

theorem config_read_sysconf_spec_witness:
  "let f = (\<lambda>sec. if sec = ''database''
                  then Some (\<lambda>k. if k = ''port'' then Some (CInt 70000)
                                 else if k = ''host'' then Some (CString ''db1'') else None)
                  else None);
       E = quiet_env\<lparr>env_config := \<lambda>_ _. Some f\<rparr>
   in hpssix_config_read_sysconf E (Some config_zero) []
        = (Ret (0, Some (config_of f)), [EvConfig ''/etc/hpssix/hpssix.conf''])
      \<and> db_port (config_of f) = 4464 \<and> db_host (config_of f) = Some ''db1''"
proof -
  let ?f = "\<lambda>sec. if sec = ''database''
                  then Some (\<lambda>k. if k = ''port'' then Some (CInt 70000)
                                 else if k = ''host'' then Some (CString ''db1'') else None)
                  else None"
  let ?E = "quiet_env\<lparr>env_config := \<lambda>_ _. Some ?f\<rparr>"
  have "env_config ?E [] (hpssix_sysconf_file ?E) = Some ?f" "\<And>tr n. env_alloc ?E tr n"
    by (simp_all add: quiet_env_def)
  from config_read_sysconf_spec [OF this, of config_zero] show ?thesis
    by (simp add: Let_def hpssix_sysconf_file_def quiet_env_def config_of_def lookup_def
        set_field_simps)
qed

text \<open>
  C7: the extension filter.  When the filter file can be read, holds no NUL and
  memory suffices, \<open>hpssix_extfilter_get\<close> returns without leaving its buffers: the
  array allocated from the first pass holds exactly the entries of the second
  pass, the entries are the non-comment lines in file order, and each is
  non-empty, lower case and has no trailing white space.
\<close>

theorem extfilter_get_spec:
  assumes "env_fopen E tr (hpssix_extfilter_file E) = Inr (content, 0)"
    and "NUL \<notin> set content"
    and "\<And>tr n. env_alloc E tr n"
  shows "\<exists>f tr'. hpssix_extfilter_get E tr = (Ret (Some f), tr') \<and>
           exts f = map ext_of_line
             (filter (\<lambda>l. \<not> skip_line l) (fgets_lines (LINE_MAX - 1) content)) \<and>
           n_exts f = length (exts f) \<and>
           (\<forall>e\<in>set (exts f). e \<noteq> [] \<and> map tolower e = e \<and> \<not> isspace (last e))"
proof -
  let ?ls = "fgets_lines (LINE_MAX - 1) content"
  let ?es = "map ext_of_line (filter (\<lambda>l. \<not> skip_line l) ?ls)"
  let ?tr = "EvFopen (hpssix_extfilter_file E) # tr"
  have ne: "\<forall>l\<in>set ?ls. l \<noteq> []"
    using assms(2) fgets_lines_nonempty by blast
  obtain es b where st: "store_exts E (count_exts ?ls 0) ?ls [] ?tr = (Ret (es, b), ?tr)"
    and "b \<longrightarrow> es = [] @ ?es" and "(\<forall>n. env_alloc E ?tr n) \<longrightarrow> b"
    using store_exts_eq [of ?ls "[]" "count_exts ?ls 0" E ?tr] ne
    by (auto simp: count_exts_eq)
  then have "b" and "es = ?es"
    using assms(3) by auto
  then have run: "hpssix_extfilter_get E tr = (Ret (Some \<lparr>n_exts = length ?es, exts = ?es\<rparr>), ?tr)"
    using st assms(1,3)
    by (simp add: hpssix_extfilter_get_def bind_io_apply c_fopen_def alloc_def Let_def)
  have "\<forall>e\<in>set ?es. e \<noteq> [] \<and> map tolower e = e \<and> \<not> isspace (last e)"
    using ne skip_line_ext_nonempty last_ext_of_line
    by (auto simp: ext_of_line_def [of l for l] comp_def)
  with run show ?thesis by fastforce
qed

theorem extfilter_get_spec_witness:
  "\<exists>f tr'. hpssix_extfilter_get
       (quiet_env\<lparr>env_fopen := \<lambda>_ _. Inr (''# office'' @ [NL] @ ''PDF '' @ [NL] @ ''docx'' @ [NL], 0)\<rparr>) []
       = (Ret (Some f), tr') \<and> exts f = [''pdf'', ''docx'']"
proof -
  let ?c = "''# office'' @ [NL] @ ''PDF '' @ [NL] @ ''docx'' @ [NL]"
  let ?E = "quiet_env\<lparr>env_fopen := \<lambda>_ _. Inr (?c, 0)\<rparr>"
  have "map ext_of_line (filter (\<lambda>l. \<not> skip_line l) (fgets_lines (LINE_MAX - 1) ?c))
        = [''pdf'', ''docx'']"
    by code_simp
  moreover have "env_fopen ?E [] (hpssix_extfilter_file ?E) = Inr (?c, 0)" "NUL \<notin> set ?c"
    "\<And>tr n. env_alloc ?E tr n"
    by (simp_all add: quiet_env_def)
  ultimately show ?thesis
    using extfilter_get_spec [of ?E "[]" ?c] by metis
qed

end
