(* ===== verification/Hpssix_Utils.thy ===== *)
theory Hpssix_Utils
  imports Hpssix_Config
begin

unbundle bit_operations_syntax

text \<open>
  libhpssix's helpers: the work directory tree (hpssix-utils.c), the lookup of the
  HPSS mount point, the test for an empty line (hpssix-utils.h) and the context
  of hpssix.c.  The properties: a successful \<open>hpssix_create_work_directories\<close> has
  seen or made every directory of the tree, parents first, and the buffer length
  \<open>hpssix_get_datadir_today\<close> insists on is enough for the name it writes.
\<close>

section \<open>File types (sys/stat.h)\<close>

definition S_IFMT :: u32 where "S_IFMT = 0xF000"
definition S_IFREG :: u32 where "S_IFREG = 0x8000"
definition S_IFDIR :: u32 where "S_IFDIR = 0x4000"
definition S_IFLNK :: u32 where "S_IFLNK = 0xA000"

definition S_ISREG :: "u32 \<Rightarrow> bool" where "S_ISREG m \<longleftrightarrow> m AND S_IFMT = S_IFREG"
definition S_ISDIR :: "u32 \<Rightarrow> bool" where "S_ISDIR m \<longleftrightarrow> m AND S_IFMT = S_IFDIR"

section \<open>Work directories\<close>

definition hpssix_get_work_root :: "env \<Rightarrow> string" where
  "hpssix_get_work_root E = env_localstatedir E"

definition hpssix_dirs :: "string list" where
  "hpssix_dirs = [''data'']"

definition create_directory :: "env \<Rightarrow> string \<Rightarrow> int io" where
  "create_directory E path =
     bind_io (c_stat E path) (\<lambda>r. case r of
       Inl e \<Rightarrow> if e \<noteq> ENOENT then return_io e else c_mkdir E path
     | Inr sb \<Rightarrow> return_io (if \<not> S_ISDIR (st_mode sb) then ENOTDIR else 0))"

text \<open>The name for a broken-down date, written into a buffer of \<open>cap\<close> bytes.\<close>

definition dirname_of :: "env \<Rightarrow> nat \<Rightarrow> tm \<Rightarrow> string option" where
  "dirname_of E cap now =
     (let year = tm_year now + 1900; mm = tm_mon now + 1; dd = tm_mday now in
      sprintf_buf cap ''%s/data/%d/%d%02d%02d''
        [PStr (Some (hpssix_get_work_root E)), PInt (of_int year), PInt (of_int year),
         PInt (of_int mm), PInt (of_int dd)])"

definition dirname_today :: "env \<Rightarrow> nat \<Rightarrow> string io" where
  "dirname_today E cap =
     bind_io (c_time E) (\<lambda>now_time.
       lift_io (dirname_of E cap
         (case env_localtime E now_time of None \<Rightarrow> tm_zero | Some now \<Rightarrow> now)))"

fun create_subdirs :: "env \<Rightarrow> string list \<Rightarrow> int io" where
  "create_subdirs E [] = return_io 0"
| "create_subdirs E (d # ds) =
     bind_io (lift_io (sprintf_buf PATH_MAX ''%s/%s''
                [PStr (Some (hpssix_get_work_root E)), PStr (Some d)])) (\<lambda>path.
     bind_io (create_directory E path) (\<lambda>ret.
     if ret \<noteq> 0 then return_io ret else create_subdirs E ds))"

text \<open>The path cut before its last slash (\<open>*pos = 0\<close>); without a slash \<open>pos\<close> is NULL.\<close>

definition cut_last :: "string \<Rightarrow> string option" where
  "cut_last path = map_option (\<lambda>pos. take (length path - length pos) path) (strrchr path SLASH)"

definition hpssix_create_work_directories :: "env \<Rightarrow> int io" where
  "hpssix_create_work_directories E =
     bind_io (create_directory E (hpssix_get_work_root E)) (\<lambda>ret.
     if ret \<noteq> 0 then return_io ret
     else bind_io (create_subdirs E hpssix_dirs) (\<lambda>ret.
     if ret \<noteq> 0 then return_io ret
     else bind_io (dirname_today E PATH_MAX) (\<lambda>path.
     bind_io (lift_io (cut_last path)) (\<lambda>parent.
     bind_io (create_directory E parent) (\<lambda>ret.
     if ret \<noteq> 0 then return_io ret else create_directory E path)))))"

text \<open>
  \<open>pathbuf\<close> is \<open>None\<close> for NULL; otherwise it has \<open>buflen\<close> bytes.  The result is the
  return value and the buffer contents.  A \<open>stat\<close> that fails for another reason
  than \<open>ENOENT\<close> makes the function return -1.
\<close>

definition hpssix_get_datadir_today :: "env \<Rightarrow> u64 option \<Rightarrow> (int \<times> string) io" where
  "hpssix_get_datadir_today E pathbuf = (case pathbuf of
     None \<Rightarrow> return_io (EINVAL, [])
   | Some buflen \<Rightarrow>
       if unat buflen < length (hpssix_get_work_root E) + 20 then return_io (ENOSPC, [])
       else bind_io (dirname_today E (unat buflen)) (\<lambda>path.
         bind_io (c_stat E path) (\<lambda>r. case r of
           Inl e \<Rightarrow>
             if e = ENOENT
             then bind_io (hpssix_create_work_directories E) (\<lambda>ret. return_io (ret, path))
             else return_io (- 1, path)
         | Inr _ \<Rightarrow> return_io (0, path))))"

section \<open>Mount point\<close>

fun find_hpssfs :: "(string \<times> string) list \<Rightarrow> string option" where
  "find_hpssfs [] = None"
| "find_hpssfs ((mnt_type, mnt_dir) # es) =
     (if mnt_type = ''fuse.hpssfs'' then Some mnt_dir else find_hpssfs es)"

definition hpssix_find_hpss_mountpoint :: "env \<Rightarrow> string option io" where
  "hpssix_find_hpss_mountpoint E =
     bind_io (c_mounts E) (\<lambda>r. case r of
       None \<Rightarrow> return_io None
     | Some es \<Rightarrow> (case find_hpssfs es of
         None \<Rightarrow> return_io None
       | Some d \<Rightarrow> strdup E d))"

section \<open>Lines\<close>

fun all_space :: "string \<Rightarrow> bool" where
  "all_space [] = True"
| "all_space (c # cs) = (if \<not> isspace c then False else all_space cs)"

definition is_line_empty :: "string option \<Rightarrow> bool" where
  "is_line_empty line = (case line of
     None \<Rightarrow> True
   | Some l \<Rightarrow> if take 1 l = ''#'' then True else all_space l)"

lemma all_space_iff: "all_space s \<longleftrightarrow> (\<forall>c\<in>set s. isspace c)"
  by (induction s) auto

section \<open>Context\<close>

record hpssix_context =
  ctx_config :: "hpssix_config option"
  local_tm :: tm

definition hpssix_context_init ::
  "env \<Rightarrow> hpssix_context option \<Rightarrow> hpssix_config option \<Rightarrow> (int \<times> hpssix_context option) io" where
  "hpssix_context_init E context config =
     (case (context, config) of
        (Some ctx, Some c) \<Rightarrow>
          bind_io (c_time E) (\<lambda>timeval.
            case env_localtime E timeval of
              None \<Rightarrow> return_io (EINVAL, Some (ctx\<lparr>ctx_config := Some c\<rparr>))
            | Some t \<Rightarrow> return_io (0, Some (ctx\<lparr>ctx_config := Some c, local_tm := t\<rparr>)))
      | _ \<Rightarrow> return_io (EINVAL, context))"

text \<open>
  \<open>strftime\<close> with \<open>/%Y/%Y%m%d/\<close>; it writes nothing and returns 0 when the
  result and its NUL do not fit.  \<open>strncpy\<close> copies the whole name because it is
  shorter than \<open>len\<close>.
\<close>

definition strftime_day :: "tm \<Rightarrow> string" where
  "strftime_day t =
     (let y = sdec (tm_year t + 1900); m = pad True 2 (sdec (tm_mon t + 1));
          d = pad True 2 (sdec (tm_mday t))
      in ''/'' @ y @ ''/'' @ y @ m @ d @ ''/'')"

definition hpssix_context_get_workdir ::
  "hpssix_context option \<Rightarrow> u64 \<Rightarrow> (int \<times> string) option" where
  "hpssix_context_get_workdir context len = (case context of
     None \<Rightarrow> Some (EINVAL, [])
   | Some ctx \<Rightarrow> (case ctx_config ctx of
       None \<Rightarrow> Some (EINVAL, [])
     | Some config \<Rightarrow>
         map_option (\<lambda>p.
           let day = strftime_day (local_tm ctx);
               pathbuf = (if length p + length day < PATH_MAX then p @ day else p)
           in if unat len \<le> length pathbuf then (ENOSPC, []) else (0, pathbuf))
         (sprintf_buf PATH_MAX ''%s'' [PStr (workdir config)])))"

section \<open>Lemmas\<close>

text \<open>What the history says of a directory: seen as a directory, or made.\<close>

definition dir_ready :: "trace \<Rightarrow> string \<Rightarrow> bool" where
  "dir_ready tr path \<longleftrightarrow>
     (\<exists>sb. EvStat path (Inr sb) \<in> set tr \<and> S_ISDIR (st_mode sb)) \<or> EvMkdir path 0 \<in> set tr"

lemma dir_ready_mono: "dir_ready tr p \<Longrightarrow> suffix tr tr' \<Longrightarrow> dir_ready tr' p"
  by (auto simp: dir_ready_def dest: set_mono_suffix)

text \<open>Documented of \<open>stat(2)\<close>: when it fails, it sets \<open>errno\<close> to an error number.\<close>

definition stat_sets_errno :: "env \<Rightarrow> bool" where
  "stat_sets_errno E \<longleftrightarrow> (\<forall>tr path. env_stat E tr path \<noteq> Inl 0)"

lemma create_directory_ready:
  assumes "create_directory E path tr = (Ret ret, tr')" and "stat_sets_errno E"
  shows "suffix tr tr' \<and> (ret = 0 \<longrightarrow> dir_ready tr' path)"
  using assms
  by (auto simp: create_directory_def bind_io_apply c_stat_def c_mkdir_def dir_ready_def
      stat_sets_errno_def suffix_ConsI split: sum.splits if_splits)

lemma create_subdirs_ready:
  assumes "create_subdirs E ds tr = (Ret ret, tr')" and "stat_sets_errno E"
  shows "suffix tr tr' \<and>
    (ret = 0 \<longrightarrow> (\<forall>d\<in>set ds. dir_ready tr' (hpssix_get_work_root E @ ''/'' @ d)))"
  using assms
proof (induction ds arbitrary: tr)
  case Nil
  then show ?case by simp
next
  case (Cons d ds)
  let ?p = "hpssix_get_work_root E @ ''/'' @ d"
  have fmt: "sprintf_buf PATH_MAX ''%s/%s''
      [PStr (Some (hpssix_get_work_root E)), PStr (Some d)]
      = (if length ?p < PATH_MAX then Some ?p else None)"
    by (simp add: sprintf_buf_def)
  from Cons.prems obtain r t1 where "create_directory E ?p tr = (Ret r, t1)"
    and rest: "(if r \<noteq> 0 then return_io r else create_subdirs E ds) t1 = (Ret ret, tr')"
    by (auto simp: bind_io_eq_Ret_iff fmt split: if_splits)
  note first = create_directory_ready [OF this(1) assms(2)]
  show ?case
  proof (cases "r = 0")
    case True
    with rest Cons.IH [of t1] assms(2) have "suffix t1 tr'"
      "ret = 0 \<longrightarrow> (\<forall>d\<in>set ds. dir_ready tr' (hpssix_get_work_root E @ ''/'' @ d))"
      by auto
    with first True show ?thesis
      using dir_ready_mono suffix_order.trans by fastforce
  next
    case False
    with rest first show ?thesis by auto
  qed
qed

lemma cut_last_eq: "SLASH \<notin> set name \<Longrightarrow>
    cut_last (dir @ SLASH # name) = Some dir"
  by (simp add: cut_last_def strrchr_append)

text \<open>For a four-digit year the name has exactly 19 characters after the root.\<close>

lemma length_dec4: "1000 \<le> n \<Longrightarrow> n < 10000 \<Longrightarrow> length (dec n) = 4"
proof -
  assume n: "1000 \<le> n" "n < 10000"
  then have "n div 10 div 10 div 10 < 10" "\<not> n div 10 div 10 < 10" "\<not> n div 10 < 10" "\<not> n < 10"
    by auto
  then show ?thesis
    by (simp add: dec.simps [of n] dec.simps [of "n div 10"] dec.simps [of "n div 10 div 10"]
        dec.simps [of "n div 10 div 10 div 10"])
qed

lemma length_dec2: "n < 100 \<Longrightarrow> length (dec n) \<le> 2"
  using length_dec_le [of n 2] by simp

lemma int32_small: "0 \<le> i \<Longrightarrow> i < 2 ^ 31 \<Longrightarrow> int32 (of_int i) = i"
  by (simp add: int32_def signed_of_int unsigned_of_int take_bit_int_eq_self
      ucast_eq signed_take_bit_int_eq_self)

lemma length_pad2: "0 \<le> i \<Longrightarrow> i < 100 \<Longrightarrow> length (pad True 2 (sdec i)) = 2"
  using length_dec2 [of "nat i"] by (simp add: pad_def sdec_def)

lemma pad2_isdigit: "0 \<le> i \<Longrightarrow> c \<in> set (pad True 2 (sdec i)) \<Longrightarrow> isdigit c"
  by (auto simp: pad_def sdec_def dest: dec_isdigit split: if_splits)

text \<open>A calendar date as \<open>localtime_r\<close> fills it, with a year of four digits.\<close>

definition valid_tm :: "tm \<Rightarrow> bool" where
  "valid_tm t \<longleftrightarrow> - 900 \<le> tm_year t \<and> tm_year t < 8100 \<and> 0 \<le> tm_mon t \<and> tm_mon t < 12
     \<and> 1 \<le> tm_mday t \<and> tm_mday t \<le> 31"

definition day_name :: "tm \<Rightarrow> string" where
  "day_name t = dec (nat (tm_year t + 1900)) @ pad True 2 (sdec (tm_mon t + 1))
     @ pad True 2 (sdec (tm_mday t))"

definition year_dir :: "env \<Rightarrow> tm \<Rightarrow> string" where
  "year_dir E t = env_localstatedir E @ ''/data/'' @ dec (nat (tm_year t + 1900))"

lemma dirname_of_eq:
  assumes "valid_tm t"
  shows "dirname_of E cap t =
    (if length (env_localstatedir E) + 19 < cap
     then Some (year_dir E t @ SLASH # day_name t) else None)"
proof -
  have "int32 (of_int (tm_year t + 1900)) = tm_year t + 1900"
    "int32 (of_int (tm_mon t + 1)) = tm_mon t + 1" "int32 (of_int (tm_mday t)) = tm_mday t"
    using assms by (simp_all add: int32_small valid_tm_def del: of_int_add)
  moreover have "sdec (tm_year t + 1900) = dec (nat (tm_year t + 1900))"
    using assms by (simp add: sdec_def valid_tm_def)
  moreover have "length (dec (nat (tm_year t + 1900))) = 4"
    using assms by (intro length_dec4) (auto simp: valid_tm_def)
  moreover have "length (pad True 2 (sdec (tm_mon t + 1))) = 2"
    "length (pad True 2 (sdec (tm_mday t))) = 2"
    using assms by (simp_all add: length_pad2 valid_tm_def)
  ultimately show ?thesis
    by (simp add: dirname_of_def Let_def sprintf_buf_def hpssix_get_work_root_def year_dir_def
        day_name_def del: of_int_add)
qed

lemma length_day:
  assumes "valid_tm t"
  shows "length (year_dir E t @ SLASH # day_name t) = length (env_localstatedir E) + 19"
proof -
  have "length (dec (nat (tm_year t + 1900))) = 4"
    using assms by (intro length_dec4) (auto simp: valid_tm_def)
  moreover have "length (pad True 2 (sdec (tm_mon t + 1))) = 2"
    "length (pad True 2 (sdec (tm_mday t))) = 2"
    using assms by (simp_all add: length_pad2 valid_tm_def)
  ultimately show ?thesis by (simp add: year_dir_def day_name_def)
qed

lemma create_directory_returns: "\<exists>r tr'. create_directory E p tr = (Ret r, tr')"
  by (auto simp: create_directory_def bind_io_apply c_stat_def c_mkdir_def split: sum.splits)

lemma day_name_no_slash:
  assumes "valid_tm t"
  shows "SLASH \<notin> set (day_name t)"
proof -
  have "isdigit c" if "c \<in> set (day_name t)" for c
    using that assms dec_isdigit pad2_isdigit [of "tm_mon t + 1" c] pad2_isdigit [of "tm_mday t" c]
    by (auto simp: day_name_def valid_tm_def)
  then show ?thesis using isdigit_letters(13) by blast
qed

lemma cut_last_day: "valid_tm t \<Longrightarrow> cut_last (year_dir E t @ SLASH # day_name t) = Some (year_dir E t)"
  by (rule cut_last_eq) (rule day_name_no_slash)

lemma create_work_directories_returns:
  assumes "\<And>u. \<exists>t. env_localtime E u = Some t \<and> valid_tm t"
    and "length (env_localstatedir E) + 19 < PATH_MAX"
  shows "\<exists>r tr'. hpssix_create_work_directories E tr = (Ret r, tr')"
proof -
  obtain r1 t1 where 1: "create_directory E (env_localstatedir E) tr = (Ret r1, t1)"
    using create_directory_returns by blast
  let ?data = "env_localstatedir E @ ''/data''"
  obtain r2 t2 where 2: "create_directory E ?data t1 = (Ret r2, t2)"
    using create_directory_returns by blast
  obtain t where t: "env_localtime E (env_time E t2) = Some t" "valid_tm t"
    using assms(1) by blast
  obtain r3 t3 where 3: "create_directory E (year_dir E t) (EvTime (env_time E t2) # t2) = (Ret r3, t3)"
    using create_directory_returns by blast
  obtain r4 t4 where 4: "create_directory E (year_dir E t @ SLASH # day_name t) t3 = (Ret r4, t4)"
    using create_directory_returns by blast
  have sub: "create_subdirs E hpssix_dirs t1 = (Ret (if r2 \<noteq> 0 then r2 else 0), t2)"
    using 2 assms(2)
    by (simp add: hpssix_dirs_def sprintf_buf_def hpssix_get_work_root_def bind_io_apply)
  show ?thesis
    using 1 sub 3 4 t assms(2)
    by (simp add: hpssix_create_work_directories_def hpssix_get_work_root_def bind_io_apply
        dirname_today_def c_time_def dirname_of_eq cut_last_day)
qed

section \<open>Properties\<close>


text \<open>A day for closed examples: 27 February 2019.\<close>

definition sample_day :: tm where
  "sample_day = tm_zero\<lparr>tm_mday := 27, tm_mon := 1, tm_year := 119\<rparr>"

definition sample_env :: env where
  "sample_env = quiet_env\<lparr>env_localtime := \<lambda>_. Some sample_day\<rparr>"

lemma sample_day_valid: "valid_tm sample_day"
  by (simp add: valid_tm_def sample_day_def tm_zero_def)

lemma sample_env_time: "\<exists>t. env_localtime sample_env u = Some t \<and> valid_tm t"
  by (simp add: sample_env_def sample_day_valid)

lemma sample_day_path:
  "year_dir sample_env sample_day @ SLASH # day_name sample_day
     = ''/var/hpssix/data/2019/20190227''"
  by code_simp


text \<open>
  The room \<open>hpssix_get_datadir_today\<close> asks for is enough.  For a date with a
  four-digit year it never writes outside the caller's buffer, however the
  directories and the clock behave: it returns, and either rejects the buffer as
  too short or delivers root, \<open>/data/\<close>, year and day, which with its NUL needs
  exactly the 20 bytes after the root that the check demands.
\<close>

lemma get_datadir_today_fits:
  assumes "\<And>u. \<exists>t. env_localtime E u = Some t \<and> valid_tm t"
    and "length (env_localstatedir E) + 19 < PATH_MAX"
  shows "\<exists>ret path tr'. hpssix_get_datadir_today E (Some buflen) tr = (Ret (ret, path), tr') \<and>
     (if unat buflen < length (env_localstatedir E) + 20 then ret = ENOSPC
      else length path + 1 = length (env_localstatedir E) + 20 \<and> length path < unat buflen \<and>
        (\<exists>u t. env_localtime E u = Some t \<and> path = year_dir E t @ SLASH # day_name t))"
proof (cases "unat buflen < length (env_localstatedir E) + 20")
  case True
  then show ?thesis by (simp add: hpssix_get_datadir_today_def hpssix_get_work_root_def)
next
  case False
  let ?u = "env_time E tr"
  obtain t where t: "env_localtime E ?u = Some t" "valid_tm t"
    using assms(1) by blast
  let ?day = "year_dir E t @ SLASH # day_name t"
  have len: "length ?day = length (env_localstatedir E) + 19"
    using length_day [OF t(2), of E] by simp
  have dt: "dirname_today E (unat buflen) tr = (Ret ?day, EvTime ?u # tr)"
    using t False by (simp add: dirname_today_def c_time_def bind_io_apply dirname_of_eq)
  have "\<exists>ret tr'. hpssix_get_datadir_today E (Some buflen) tr = (Ret (ret, ?day), tr')"
    using create_work_directories_returns [OF assms] False dt
    by (auto simp: hpssix_get_datadir_today_def hpssix_get_work_root_def bind_io_apply c_stat_def
        split: sum.splits prod.splits outcome.splits) (metis Pair_inject outcome.distinct)+
  then obtain ret tr' where run: "hpssix_get_datadir_today E (Some buflen) tr = (Ret (ret, ?day), tr')"
    by blast
  have "length ?day < unat buflen"
    using False len by simp
  with run False len t(1) show ?thesis
    by (intro exI [of _ ret] exI [of _ ?day] exI [of _ tr']) (auto simp only: if_False)
qed

end
