(* ===== verification/Hpssix_Tmpdb.thy ===== *)
theory Hpssix_Tmpdb
  imports Hpssix_Utils
begin

text \<open>
  The SQLite wrapper of libhpssix (hpssix-tmpdb.h, hpssix-tmpdb.c): a database with
  its prepared statements.  The work list and the master database are built on it.

  The second part says what the sources rely on in SQLite.  The meaning of an SQL
  text is given by a function \<open>sem\<close> that the clients define for the statements they
  contain; \<open>sq_replay\<close> computes from the history which rows each database file
  holds, which values are bound and where each query stands.  \<open>sqlite_sound\<close> states
  that SQLite answers queries accordingly (a row if there is one left, the columns
  of that row, done otherwise), \<open>sqlite_live\<close> that calls succeed and that a busy
  database becomes free within the loop bound.  Inserts and queries may otherwise
  fail or be busy in any way.
\<close>

section \<open>The handle\<close>

record hpssix_tmpdb =
  dbpath :: string
  schema :: "string option"
  tmpdb_conn :: "nat option"
  n_sql :: nat
  sqlstr :: "string list"
  tmpdb_stmt :: "sqlite3_stmt list option"

definition tmpdb_zero :: hpssix_tmpdb where
  "tmpdb_zero = \<lparr>dbpath = [], schema = None, tmpdb_conn = None, n_sql = 0, sqlstr = [],
     tmpdb_stmt = None\<rparr>"

text \<open>Preparing the \<open>k\<close> statements left; reading past \<open>sqlstr\<close> is undefined.\<close>

fun prepare_loop ::
  "env \<Rightarrow> nat \<Rightarrow> nat \<Rightarrow> string list \<Rightarrow> sqlite3_stmt list \<Rightarrow> sqlite3_stmt list option io" where
  "prepare_loop E c 0 sqls acc = return_io (Some acc)"
| "prepare_loop E c (Suc k) [] acc = undef_io"
| "prepare_loop E c (Suc k) (sql # sqls) acc =
     bind_io (sqlite3_prepare E c sql) (\<lambda>ret.
     if ret \<noteq> SQLITE_OK then return_io None
     else prepare_loop E c k sqls (acc @ [\<lparr>st_conn = c, st_sql = sql\<rparr>]))"

definition tmpdb_prepare_stmt :: "env \<Rightarrow> hpssix_tmpdb \<Rightarrow> nat \<Rightarrow> (int \<times> hpssix_tmpdb) io" where
  "tmpdb_prepare_stmt E self c =
     bind_io (alloc E (8 * n_sql self)) (\<lambda>ok.
     if \<not> ok then return_io (ENOMEM, self)
     else bind_io (prepare_loop E c (n_sql self) (sqlstr self) []) (\<lambda>r. case r of
       None \<Rightarrow> return_io (EIO, self)
     | Some stmts \<Rightarrow> return_io (0, self\<lparr>tmpdb_stmt := Some stmts\<rparr>)))"

definition hpssix_tmpdb_stmt_get ::
  "hpssix_tmpdb option \<Rightarrow> nat \<Rightarrow> sqlite3_stmt option" where
  "hpssix_tmpdb_stmt_get self index = (case self of
     None \<Rightarrow> None
   | Some db \<Rightarrow> (case (tmpdb_conn db, tmpdb_stmt db) of
       (Some _, Some stmts) \<Rightarrow> if n_sql db \<le> index then None else Some (stmts ! index)
     | _ \<Rightarrow> None))"

definition hpssix_tmpdb_exec_simple_sql :: "env \<Rightarrow> hpssix_tmpdb option \<Rightarrow> string \<Rightarrow> int io" where
  "hpssix_tmpdb_exec_simple_sql E self sql = (case self of
     None \<Rightarrow> return_io (- EINVAL)
   | Some db \<Rightarrow> (case tmpdb_conn db of
       None \<Rightarrow> return_io (- EINVAL)
     | Some c \<Rightarrow> bind_io (sqlite3_exec E c sql) (\<lambda>ret.
         return_io (if ret = SQLITE_OK then 0 else ret))))"

definition sql_begin :: string where "sql_begin = ''begin transaction;''"
definition sql_end :: string where "sql_end = ''end transaction;''"
definition sql_rollback :: string where "sql_rollback = ''rollback transaction;''"

definition hpssix_tmpdb_begin_transaction :: "env \<Rightarrow> hpssix_tmpdb option \<Rightarrow> int io" where
  "hpssix_tmpdb_begin_transaction E self = hpssix_tmpdb_exec_simple_sql E self sql_begin"

definition hpssix_tmpdb_end_transaction :: "env \<Rightarrow> hpssix_tmpdb option \<Rightarrow> int io" where
  "hpssix_tmpdb_end_transaction E self = hpssix_tmpdb_exec_simple_sql E self sql_end"

definition hpssix_tmpdb_rollback_transaction :: "env \<Rightarrow> hpssix_tmpdb option \<Rightarrow> int io" where
  "hpssix_tmpdb_rollback_transaction E self = hpssix_tmpdb_exec_simple_sql E self sql_rollback"

definition hpssix_tmpdb_open ::
  "env \<Rightarrow> hpssix_tmpdb option \<Rightarrow> bool \<Rightarrow> (int \<times> hpssix_tmpdb option) io" where
  "hpssix_tmpdb_open E self initdb = (case self of
     None \<Rightarrow> return_io (EINVAL, None)
   | Some db \<Rightarrow>
       if initdb \<and> schema db = None then return_io (EINVAL, Some db)
       else bind_io (sqlite3_open E (dbpath db)) (\<lambda>(ret, c).
         if ret \<noteq> 0 then return_io (EIO, Some db)
         else let db1 = db\<lparr>tmpdb_conn := Some c\<rparr> in
           bind_io (case (initdb, schema db1) of
                      (True, Some sch) \<Rightarrow> hpssix_tmpdb_exec_simple_sql E (Some db1) sch
                    | _ \<Rightarrow> return_io 0) (\<lambda>ret.
           if ret \<noteq> 0 then then_io (sqlite3_close c) (return_io (ret, Some db1))
           else bind_io (tmpdb_prepare_stmt E db1 c) (\<lambda>(ret, db2).
             if ret \<noteq> 0 then then_io (sqlite3_close c) (return_io (ret, Some db2))
             else return_io (0, Some db2)))))"

definition hpssix_tmpdb_close :: "hpssix_tmpdb option \<Rightarrow> int io" where
  "hpssix_tmpdb_close self = (case self of
     None \<Rightarrow> return_io 0
   | Some db \<Rightarrow> (case tmpdb_conn db of
       None \<Rightarrow> return_io 0
     | Some c \<Rightarrow> then_io (sqlite3_close c) (return_io 0)))"

text \<open>The loop \<open>do ret = sqlite3_step(stmt); while (ret == SQLITE_BUSY);\<close>\<close>

fun step_retry :: "nat \<Rightarrow> env \<Rightarrow> sqlite3_stmt option \<Rightarrow> int io" where
  "step_retry 0 E st = spin_io"
| "step_retry (Suc n) E st =
     bind_io (sqlite3_step E st) (\<lambda>ret.
     if ret = SQLITE_BUSY then step_retry n E st else return_io ret)"

section \<open>Opening gives every statement its handle\<close>

definition prepared :: "hpssix_tmpdb \<Rightarrow> nat \<Rightarrow> string list \<Rightarrow> bool" where
  "prepared db c sqls \<longleftrightarrow> tmpdb_conn db = Some c \<and> n_sql db = length sqls \<and>
     tmpdb_stmt db = Some (map (\<lambda>sql. \<lparr>st_conn = c, st_sql = sql\<rparr>) sqls)"

lemma prepare_loop_Some:
  assumes "prepare_loop E c k sqls acc tr = (Ret (Some stmts), tr')"
  shows "k \<le> length sqls \<and> stmts = acc @ map (\<lambda>sql. \<lparr>st_conn = c, st_sql = sql\<rparr>) (take k sqls)"
  using assms
  by (induction E c k sqls acc arbitrary: tr rule: prepare_loop.induct)
    (auto simp: bind_io_apply sqlite3_prepare_def split: if_splits)

lemma tmpdb_prepare_stmt_ok:
  assumes "tmpdb_prepare_stmt E db c tr = (Ret (0, db'), tr')"
    and "n_sql db = length (sqlstr db)" and "tmpdb_conn db = Some c"
  shows "prepared db' c (sqlstr db)"
  using assms
  by (auto simp: tmpdb_prepare_stmt_def bind_io_eq_Ret_iff prepared_def
      split: if_splits option.splits dest!: prepare_loop_Some)

lemma tmpdb_open_prepared:
  assumes run: "hpssix_tmpdb_open E (Some db) initdb tr = (Ret (0, Some db'), tr')"
    and n: "n_sql db = length (sqlstr db)"
  shows "\<exists>c. prepared db' c (sqlstr db)"
proof -
  have "\<not> (initdb \<and> schema db = None)"
    using run by (auto simp: hpssix_tmpdb_open_def split: if_splits)
  then obtain c db1 tr1 where "db1 = db\<lparr>tmpdb_conn := Some c\<rparr>"
    "tmpdb_prepare_stmt E db1 c tr1 = (Ret (0, db'), tr')"
    using run
    by (fastforce simp: hpssix_tmpdb_open_def bind_io_eq_Ret_iff then_io_def Let_def
        split: prod.splits if_splits)
  then show ?thesis
    using tmpdb_prepare_stmt_ok [of E db1 c tr1 db' tr'] n by auto
qed

lemma tmpdb_open_Some:
  "hpssix_tmpdb_open E (Some db) initdb tr = (Ret (ret, d), tr') \<Longrightarrow> d \<noteq> None"
  by (auto simp: hpssix_tmpdb_open_def Let_def bind_io_eq_Ret_iff then_io_def
      split: if_splits prod.splits)

text \<open>
  The interface the clients of a prepared database see: an opener for a fixed list
  of SQL texts.
\<close>

locale prepared_store =
  fixes sqls :: "string list"
    and opener :: "env \<Rightarrow> 'arg \<Rightarrow> (int \<times> hpssix_tmpdb option) io"
  assumes opener_prepares:
    "opener E a tr = (Ret (0, Some db), tr') \<Longrightarrow> \<exists>c. prepared db c sqls"
begin

lemma stmt_get_opened:
  assumes "opener E a tr = (Ret (0, Some db), tr')" and "i < length sqls"
  shows "\<exists>c. tmpdb_conn db = Some c \<and>
     hpssix_tmpdb_stmt_get (Some db) i = Some \<lparr>st_conn = c, st_sql = sqls ! i\<rparr>"
  using opener_prepares [OF assms(1)] assms(2)
  by (auto simp: prepared_def hpssix_tmpdb_stmt_get_def)

lemma stmt_get_out_of_range:
  assumes "opener E a tr = (Ret (0, Some db), tr')" and "length sqls \<le> i"
  shows "hpssix_tmpdb_stmt_get (Some db) i = None"
  using opener_prepares [OF assms(1)] assms(2)
  by (auto simp: prepared_def hpssix_tmpdb_stmt_get_def)

end

lemma prepared_stmt_get:
  "prepared db c sqls \<Longrightarrow> i < length sqls \<Longrightarrow>
     hpssix_tmpdb_stmt_get (Some db) i = Some \<lparr>st_conn = c, st_sql = sqls ! i\<rparr>"
  by (simp add: prepared_def hpssix_tmpdb_stmt_get_def)

lemma prepared_exec:
  "prepared db c sqls \<Longrightarrow> hpssix_tmpdb_exec_simple_sql E (Some db) sql tr
     = (Ret (env_sqlite3_exec E tr c sql), EvSqExec c sql (env_sqlite3_exec E tr c sql) # tr)"
  by (simp add: prepared_def hpssix_tmpdb_exec_simple_sql_def bind_io_apply sqlite3_exec_def)

section \<open>What SQLite does\<close>

type_synonym row = "sqlval list"

datatype sql_sem =
    SemCreate
  | SemBegin
  | SemEnd
  | SemRollback
  | SemInsert nat
  | SemSelect "row list \<Rightarrow> (nat \<Rightarrow> sqlval) \<Rightarrow> row list"
  | SemNone

record sqstate =
  sq_file :: "string \<Rightarrow> row list"
  sq_path :: "nat \<Rightarrow> string"
  sq_txn :: "nat \<Rightarrow> row list option"
  sq_bind :: "sqlite3_stmt \<Rightarrow> nat \<Rightarrow> sqlval"
  sq_cur :: "sqlite3_stmt \<Rightarrow> row list option"
  sq_row :: "sqlite3_stmt \<Rightarrow> row"

definition sq_view :: "sqstate \<Rightarrow> nat \<Rightarrow> row list" where
  "sq_view s c = (case sq_txn s c of Some rows \<Rightarrow> rows | None \<Rightarrow> sq_file s (sq_path s c))"

definition sq_write :: "nat \<Rightarrow> row list \<Rightarrow> sqstate \<Rightarrow> sqstate" where
  "sq_write c rows s = (case sq_txn s c of
     Some _ \<Rightarrow> s\<lparr>sq_txn := (sq_txn s)(c := Some rows)\<rparr>
   | None \<Rightarrow> s\<lparr>sq_file := (sq_file s)(sq_path s c := rows)\<rparr>)"

text \<open>The id of a new row: one more than the last, which is the largest.\<close>

definition next_id :: "row list \<Rightarrow> u64" where
  "next_id rows = (if rows = [] then 1
     else (case last rows of SInt k # _ \<Rightarrow> k + 1 | _ \<Rightarrow> 1))"

definition sq_new_row :: "row list \<Rightarrow> (nat \<Rightarrow> sqlval) \<Rightarrow> nat \<Rightarrow> row" where
  "sq_new_row rows b n = SInt (next_id rows) # map b [1..<Suc n]"

definition sq_left :: "(string \<Rightarrow> sql_sem) \<Rightarrow> sqstate \<Rightarrow> sqlite3_stmt \<Rightarrow> row list" where
  "sq_left sem s st = (case sq_cur s st of
     Some rs \<Rightarrow> rs
   | None \<Rightarrow> (case sem (st_sql st) of
       SemSelect f \<Rightarrow> f (sq_view s (st_conn st)) (sq_bind s st)
     | _ \<Rightarrow> []))"

fun sq_event :: "(string \<Rightarrow> sql_sem) \<Rightarrow> event \<Rightarrow> sqstate \<Rightarrow> sqstate" where
  "sq_event sem (EvSqOpen p r c) s =
     (if r = SQLITE_OK then s\<lparr>sq_path := (sq_path s)(c := p), sq_txn := (sq_txn s)(c := None)\<rparr> else s)"
| "sq_event sem (EvSqExec c sql r) s =
     (if r \<noteq> SQLITE_OK then s else (case sem sql of
        SemCreate \<Rightarrow> sq_write c [] s
      | SemBegin \<Rightarrow> s\<lparr>sq_txn := (sq_txn s)(c := Some (sq_view s c))\<rparr>
      | SemEnd \<Rightarrow> s\<lparr>sq_file := (sq_file s)(sq_path s c := sq_view s c),
                   sq_txn := (sq_txn s)(c := None)\<rparr>
      | SemRollback \<Rightarrow> s\<lparr>sq_txn := (sq_txn s)(c := None)\<rparr>
      | _ \<Rightarrow> s))"
| "sq_event sem (EvSqPrepare c sql r) s =
     (let st = \<lparr>st_conn = c, st_sql = sql\<rparr> in
      if r = SQLITE_OK
      then s\<lparr>sq_cur := (sq_cur s)(st := None), sq_bind := (sq_bind s)(st := (\<lambda>_. SNull))\<rparr> else s)"
| "sq_event sem (EvSqBindInt (Some st) i v r) s =
     (if r = SQLITE_OK then s\<lparr>sq_bind := (sq_bind s)(st := (sq_bind s st)(i := SInt v))\<rparr> else s)"
| "sq_event sem (EvSqBindText (Some st) i v r) s =
     (if r = SQLITE_OK then s\<lparr>sq_bind := (sq_bind s)(st := (sq_bind s st)(i := SText v))\<rparr> else s)"
| "sq_event sem (EvSqStep (Some st) r) s = (case sem (st_sql st) of
     SemInsert n \<Rightarrow>
       if r = SQLITE_DONE
       then sq_write (st_conn st)
              (sq_view s (st_conn st) @ [sq_new_row (sq_view s (st_conn st)) (sq_bind s st) n]) s
       else s
   | SemSelect f \<Rightarrow>
       if r = SQLITE_ROW
       then s\<lparr>sq_cur := (sq_cur s)(st := Some (tl (sq_left sem s st))),
              sq_row := (sq_row s)(st := hd (sq_left sem s st))\<rparr>
       else if r = SQLITE_DONE then s\<lparr>sq_cur := (sq_cur s)(st := None)\<rparr> else s
   | _ \<Rightarrow> s)"
| "sq_event sem (EvSqReset (Some st)) s = s\<lparr>sq_cur := (sq_cur s)(st := None)\<rparr>"
| "sq_event sem (EvSqClose c) s = s\<lparr>sq_txn := (sq_txn s)(c := None)\<rparr>"
| "sq_event sem _ s = s"

definition sq_replay :: "(string \<Rightarrow> sql_sem) \<Rightarrow> sqstate \<Rightarrow> trace \<Rightarrow> sqstate" where
  "sq_replay sem s0 tr = foldr (sq_event sem) tr s0"

lemma sq_replay_Nil [simp]: "sq_replay sem s0 [] = s0"
  by (simp add: sq_replay_def)

lemma sq_replay_Cons [simp]: "sq_replay sem s0 (ev # tr) = sq_event sem ev (sq_replay sem s0 tr)"
  by (simp add: sq_replay_def)

definition sqlite_sound :: "(string \<Rightarrow> sql_sem) \<Rightarrow> sqstate \<Rightarrow> env \<Rightarrow> bool" where
  "sqlite_sound sem s0 E \<longleftrightarrow> (\<forall>tr st.
     (\<forall>f. sem (st_sql st) = SemSelect f \<longrightarrow>
        (env_sqlite3_step E tr (Some st) = SQLITE_ROW \<longrightarrow> sq_left sem (sq_replay sem s0 tr) st \<noteq> []) \<and>
        (env_sqlite3_step E tr (Some st) = SQLITE_DONE \<longrightarrow> sq_left sem (sq_replay sem s0 tr) st = [])) \<and>
     (\<forall>n. sem (st_sql st) = SemInsert n \<longrightarrow> env_sqlite3_step E tr (Some st) \<noteq> SQLITE_ROW) \<and>
     (\<forall>i < length (sq_row (sq_replay sem s0 tr) st).
        env_sqlite3_column E tr (Some st) i = sq_row (sq_replay sem s0 tr) st ! i))"

definition busy_for :: "env \<Rightarrow> sqlite3_stmt \<Rightarrow> nat \<Rightarrow> trace \<Rightarrow> bool" where
  "busy_for E st k tr \<longleftrightarrow> (\<forall>j < k.
     env_sqlite3_step E (replicate j (EvSqStep (Some st) SQLITE_BUSY) @ tr) (Some st) = SQLITE_BUSY)"

definition sqlite_live :: "(string \<Rightarrow> sql_sem) \<Rightarrow> sqstate \<Rightarrow> env \<Rightarrow> bool" where
  "sqlite_live sem s0 E \<longleftrightarrow>
     (\<forall>tr p. fst (env_sqlite3_open E tr p) = SQLITE_OK) \<and>
     (\<forall>tr c sql. env_sqlite3_exec E tr c sql = SQLITE_OK) \<and>
     (\<forall>tr c sql. env_sqlite3_prepare E tr c sql = SQLITE_OK) \<and>
     (\<forall>tr st i. env_sqlite3_bind E tr st i = SQLITE_OK) \<and>
     (\<forall>tr n. env_alloc E tr n) \<and>
     (\<forall>tr st. \<exists>k < env_fuel E. busy_for E st k tr \<and>
        env_sqlite3_step E (replicate k (EvSqStep (Some st) SQLITE_BUSY) @ tr) (Some st)
          \<in> {SQLITE_ROW, SQLITE_DONE}) \<and>
     (\<forall>tr st. sq_cur (sq_replay sem s0 tr) st \<noteq> None \<longrightarrow>
        env_sqlite3_step E tr (Some st) \<in> {SQLITE_ROW, SQLITE_DONE})"

section \<open>The retry loop\<close>

lemma step_retry_eq:
  assumes "busy_for E st k tr" and "k < n"
    and "env_sqlite3_step E (replicate k (EvSqStep (Some st) SQLITE_BUSY) @ tr) (Some st) = r"
    and "r \<noteq> SQLITE_BUSY"
  shows "step_retry n E (Some st) tr
    = (Ret r, EvSqStep (Some st) r # replicate k (EvSqStep (Some st) SQLITE_BUSY) @ tr)"
  using assms
proof (induction k arbitrary: n tr)
  case 0
  then show ?case by (cases n) (auto simp: bind_io_apply sqlite3_step_def)
next
  case (Suc k)
  let ?ev = "EvSqStep (Some st) SQLITE_BUSY"
  obtain m where n: "n = Suc m" using Suc.prems(2) by (cases n) auto
  have first: "env_sqlite3_step E tr (Some st) = SQLITE_BUSY"
    using Suc.prems(1) by (auto simp: busy_for_def dest: spec [of _ 0])
  have shift: "replicate j ?ev @ ?ev # tr = replicate (Suc j) ?ev @ tr" for j
    by (simp add: replicate_app_Cons_same)
  have "busy_for E st k (?ev # tr)"
    using Suc.prems(1) unfolding busy_for_def shift by auto
  then have "step_retry m E (Some st) (?ev # tr)
      = (Ret r, EvSqStep (Some st) r # replicate k ?ev @ ?ev # tr)"
    using Suc.prems(2-4) n Suc.IH [of "?ev # tr" m] unfolding shift by simp
  then show ?case
    using n first unfolding shift by (simp add: bind_io_apply sqlite3_step_def)
qed

lemma replay_busy [simp]:
  "sq_replay sem s0 (replicate k (EvSqStep (Some st) SQLITE_BUSY) @ tr) = sq_replay sem s0 tr"
  by (induction k) (auto split: sql_sem.splits)

text \<open>Waiting for a busy database leaves it as it was and ends in a row or in done.\<close>

lemma step_retry_live:
  assumes "sqlite_live sem s0 E"
  shows "\<exists>r tr1. r \<in> {SQLITE_ROW, SQLITE_DONE} \<and> env_sqlite3_step E tr1 (Some st) = r \<and>
     sq_replay sem s0 tr1 = sq_replay sem s0 tr \<and> suffix tr tr1 \<and>
     step_retry (env_fuel E) E (Some st) tr = (Ret r, EvSqStep (Some st) r # tr1)"
proof -
  obtain k where k: "k < env_fuel E" "busy_for E st k tr"
    and r: "env_sqlite3_step E (replicate k (EvSqStep (Some st) SQLITE_BUSY) @ tr) (Some st)
       \<in> {SQLITE_ROW, SQLITE_DONE}"
    using assms unfolding sqlite_live_def by blast
  let ?tr1 = "replicate k (EvSqStep (Some st) SQLITE_BUSY) @ tr"
  have "step_retry (env_fuel E) E (Some st) tr
      = (Ret (env_sqlite3_step E ?tr1 (Some st)),
         EvSqStep (Some st) (env_sqlite3_step E ?tr1 (Some st)) # ?tr1)"
    using r by (intro step_retry_eq k refl) auto
  with r show ?thesis by (metis replay_busy suffixI)
qed

lemma live_calls:
  assumes "sqlite_live sem s0 E"
  shows "fst (env_sqlite3_open E tr p) = SQLITE_OK" "env_sqlite3_exec E tr c sql = SQLITE_OK"
    "env_sqlite3_prepare E tr c sql = SQLITE_OK" "env_sqlite3_bind E tr st i = SQLITE_OK"
    "env_alloc E tr n"
  using assms unfolding sqlite_live_def by blast+

text \<open>Running an insert under a live, sound SQLite appends the row of the bound values.\<close>

lemma step_retry_insert:
  assumes "sqlite_live sem s0 E" and "sqlite_sound sem s0 E" and "sem (st_sql st) = SemInsert n"
  shows "\<exists>tr1. step_retry (env_fuel E) E (Some st) tr
       = (Ret SQLITE_DONE, EvSqStep (Some st) SQLITE_DONE # tr1) \<and>
     sq_replay sem s0 tr1 = sq_replay sem s0 tr \<and> suffix tr tr1"
  using step_retry_live [OF assms(1), of st tr] assms(2,3)
  unfolding sqlite_sound_def by (metis empty_iff insert_iff)

text \<open>Starting a query delivers its first row, or is done when it has none.\<close>

lemma step_retry_select:
  assumes "sqlite_live sem s0 E" and "sqlite_sound sem s0 E" and "sem (st_sql st) = SemSelect f"
  shows "\<exists>r tr1. step_retry (env_fuel E) E (Some st) tr = (Ret r, EvSqStep (Some st) r # tr1) \<and>
     r = (if sq_left sem (sq_replay sem s0 tr) st = [] then SQLITE_DONE else SQLITE_ROW) \<and>
     sq_replay sem s0 tr1 = sq_replay sem s0 tr \<and> suffix tr tr1"
proof -
  obtain r tr1 where r: "r \<in> {SQLITE_ROW, SQLITE_DONE}" "env_sqlite3_step E tr1 (Some st) = r"
    "sq_replay sem s0 tr1 = sq_replay sem s0 tr" "suffix tr tr1"
    "step_retry (env_fuel E) E (Some st) tr = (Ret r, EvSqStep (Some st) r # tr1)"
    using step_retry_live [OF assms(1)] by blast
  have "r = SQLITE_ROW \<longrightarrow> sq_left sem (sq_replay sem s0 tr1) st \<noteq> []"
    "r = SQLITE_DONE \<longrightarrow> sq_left sem (sq_replay sem s0 tr1) st = []"
    using assms(2,3) r(2) unfolding sqlite_sound_def by blast+
  with r show ?thesis by auto
qed

text \<open>A query under way answers at once.\<close>

lemma step_select_running:
  assumes "sqlite_live sem s0 E" and "sqlite_sound sem s0 E" and "sem (st_sql st) = SemSelect f"
    and "sq_cur (sq_replay sem s0 tr) st = Some rs"
  shows "env_sqlite3_step E tr (Some st) = (if rs = [] then SQLITE_DONE else SQLITE_ROW)"
proof -
  have "env_sqlite3_step E tr (Some st) \<in> {SQLITE_ROW, SQLITE_DONE}"
    using assms(1,4) unfolding sqlite_live_def by auto
  moreover have "sq_left sem (sq_replay sem s0 tr) st = rs"
    using assms(4) by (simp add: sq_left_def)
  ultimately show ?thesis
    using assms(2,3) unfolding sqlite_sound_def by (metis empty_iff insert_iff)
qed

lemma sound_column:
  "sqlite_sound sem s0 E \<Longrightarrow> i < length (sq_row (sq_replay sem s0 tr) st) \<Longrightarrow>
     env_sqlite3_column E tr (Some st) i = sq_row (sq_replay sem s0 tr) st ! i"
  unfolding sqlite_sound_def by blast

lemma sq_view_write [simp]: "sq_view (sq_write c rows s) c = rows"
  by (simp add: sq_view_def sq_write_def split: option.splits)

lemma sq_view_updates [simp]:
  "sq_view (s\<lparr>sq_cur := x\<rparr>) c = sq_view s c" "sq_view (s\<lparr>sq_bind := y\<rparr>) c = sq_view s c"
  "sq_view (s\<lparr>sq_row := z\<rparr>) c = sq_view s c"
  by (simp_all add: sq_view_def split: option.splits)

lemma sq_write_keeps [simp]:
  "sq_cur (sq_write c rows s) = sq_cur s" "sq_bind (sq_write c rows s) = sq_bind s"
  "sq_path (sq_write c rows s) = sq_path s" "sq_row (sq_write c rows s) = sq_row s"
  by (simp_all add: sq_write_def split: option.splits)

text \<open>The database content apart from cursors and bindings.\<close>

definition sq_db :: "sqstate \<Rightarrow> (string \<Rightarrow> row list) \<times> (nat \<Rightarrow> string) \<times> (nat \<Rightarrow> row list option)" where
  "sq_db s = (sq_file s, sq_path s, sq_txn s)"

lemma sq_view_cong: "sq_db s = sq_db s' \<Longrightarrow> sq_view s c = sq_view s' c"
  by (auto simp: sq_db_def sq_view_def split: option.splits)

lemma sound_row:
  "sqlite_sound sem s0 E \<Longrightarrow> sem (st_sql st) = SemSelect f \<Longrightarrow>
     env_sqlite3_step E tr (Some st) = SQLITE_ROW \<Longrightarrow> sq_left sem (sq_replay sem s0 tr) st \<noteq> []"
  unfolding sqlite_sound_def by blast

text \<open>The retry loop when nothing is known of SQLite: it may also retry for ever.\<close>

lemma step_retry_any:
  "\<exists>tr1. sq_replay sem s0 tr1 = sq_replay sem s0 tr \<and>
     (step_retry n E (Some st) tr = (Spin, tr1) \<or>
      (\<exists>r. r \<noteq> SQLITE_BUSY \<and> env_sqlite3_step E tr1 (Some st) = r \<and>
         step_retry n E (Some st) tr = (Ret r, EvSqStep (Some st) r # tr1)))"
proof (induction n arbitrary: tr)
  case 0
  then show ?case by auto
next
  case (Suc n)
  let ?ev = "EvSqStep (Some st) SQLITE_BUSY"
  have "sq_replay sem s0 (?ev # tr) = sq_replay sem s0 tr"
    by (simp split: sql_sem.splits)
  with Suc [of "?ev # tr"] show ?case
    by (cases "env_sqlite3_step E tr (Some st) = SQLITE_BUSY")
      (auto simp: bind_io_apply sqlite3_step_def)
qed

text \<open>SQLite's \<open>limit o,n\<close>: a negative offset counts as 0, a negative limit as none.\<close>

definition limit_rows :: "sqlval \<Rightarrow> sqlval \<Rightarrow> 'a list \<Rightarrow> 'a list" where
  "limit_rows off lim rows = (case (off, lim) of
     (SInt i, SInt n) \<Rightarrow>
       (let rest = drop (nat (sint i)) rows in
        if sint n < 0 then rest else take (nat (sint n)) rest)
   | _ \<Rightarrow> [])"

lemma limit_rows_eq:
  assumes "unat i < 2 ^ 63" and "unat n < 2 ^ 63"
  shows "limit_rows (SInt i) (SInt n) rows = slice (unat i) (unat n) rows"
proof -
  have "sint w = int (unat w)" if "unat w < 2 ^ 63" for w :: u64
  proof -
    have "int (unat w) < int (2 ^ 63)"
      using that by (rule of_nat_less_iff [THEN iffD2])
    then have "uint w < 2 ^ 63" by simp
    moreover have "- (2 ^ 63) \<le> uint w"
      by (rule order_trans [OF _ uint_nonnegative]) simp
    ultimately have "signed_take_bit 63 (uint w) = uint w"
      by (intro signed_take_bit_int_eq_self) simp_all
    then show ?thesis by (simp add: sint_uint)
  qed
  with assms show ?thesis
    by (simp add: limit_rows_def slice_def Let_def)
qed

section \<open>A reference engine\<close>

text \<open>
  An SQLite that never fails and answers from the replayed history: the
  hypotheses above can hold together.
\<close>

definition ref_step :: "(string \<Rightarrow> sql_sem) \<Rightarrow> sqstate \<Rightarrow> trace \<Rightarrow> sqlite3_stmt option \<Rightarrow> int" where
  "ref_step sem s0 tr st = (case st of
     None \<Rightarrow> 21
   | Some st \<Rightarrow> (case sem (st_sql st) of
       SemSelect _ \<Rightarrow> if sq_left sem (sq_replay sem s0 tr) st = [] then SQLITE_DONE else SQLITE_ROW
     | _ \<Rightarrow> SQLITE_DONE))"

definition ref_column ::
  "(string \<Rightarrow> sql_sem) \<Rightarrow> sqstate \<Rightarrow> trace \<Rightarrow> sqlite3_stmt option \<Rightarrow> nat \<Rightarrow> sqlval" where
  "ref_column sem s0 tr st i = (case st of
     None \<Rightarrow> SNull
   | Some st \<Rightarrow> let r = sq_row (sq_replay sem s0 tr) st in if i < length r then r ! i else SNull)"

definition ref_sqlite :: "(string \<Rightarrow> sql_sem) \<Rightarrow> sqstate \<Rightarrow> env \<Rightarrow> env" where
  "ref_sqlite sem s0 E = E\<lparr>
     env_fuel := 1, env_alloc := (\<lambda>_ _. True),
     env_sqlite3_open := (\<lambda>_ _. (SQLITE_OK, 1)), env_sqlite3_exec := (\<lambda>_ _ _. SQLITE_OK),
     env_sqlite3_prepare := (\<lambda>_ _ _. SQLITE_OK), env_sqlite3_bind := (\<lambda>_ _ _. SQLITE_OK),
     env_sqlite3_step := ref_step sem s0, env_sqlite3_column := ref_column sem s0\<rparr>"

definition sq_empty :: sqstate where
  "sq_empty = \<lparr>sq_file = (\<lambda>_. []), sq_path = (\<lambda>_. []), sq_txn = (\<lambda>_. None),
     sq_bind = (\<lambda>_ _. SNull), sq_cur = (\<lambda>_. None), sq_row = (\<lambda>_. [])\<rparr>"

lemma ref_sqlite_sound: "sqlite_sound sem s0 (ref_sqlite sem s0 E)"
  by (auto simp: sqlite_sound_def ref_sqlite_def ref_step_def ref_column_def Let_def)

lemma ref_sqlite_live: "sqlite_live sem s0 (ref_sqlite sem s0 E)"
  by (auto simp: sqlite_live_def ref_sqlite_def ref_step_def busy_for_def
      split: sql_sem.splits intro!: exI [of _ 0])

end
