(* ===== verification/Hpssix_Workdata.thy ===== *)
theory Hpssix_Workdata
  imports Hpssix_Tmpdb
begin

text \<open>
  The work list (hpssix-workdata.h, hpssix-workdata.c): the table through which the
  builder hands the extractor the objects to process.  \<open>wd_sem\<close> is the meaning of the
  SQL texts of the file.  The properties: an append adds one row at the end, the
  total count is the number of rows, and a dispatch of \<open>count\<close> rows from \<open>offset\<close>
  delivers that slice of the list without leaving its array.
\<close>

section \<open>SQL texts\<close>

definition workdata_schema :: string where
  "workdata_schema = ''begin transaction;'' @ [NL, NL] @
     ''drop table if exists hpssix_workdata;'' @ [NL, NL] @
     ''create table hpssix_workdata ('' @ [NL] @
     ''    id integer primary key,'' @ [NL] @
     ''    pid integer not null,'' @ [NL] @
     ''    path text not null'' @ [NL] @
     '');'' @ [NL, NL] @
     ''end transaction;'' @ [NL]"

definition workdata_sql_append :: string where
  "workdata_sql_append = ''insert into hpssix_workdata (pid,path) values (?,?)''"

definition workdata_sql_totalcount :: string where
  "workdata_sql_totalcount = ''select count(id) from hpssix_workdata''"

definition workdata_sql_fetch :: string where
  "workdata_sql_fetch = ''select pid,path from hpssix_workdata order by id asc limit ?,?''"

definition workdata_sqls :: "string list" where
  "workdata_sqls = [workdata_sql_append, workdata_sql_totalcount, workdata_sql_fetch]"

abbreviation (input) HPSSIX_WORKDATA_SQL_APPEND :: nat where "HPSSIX_WORKDATA_SQL_APPEND \<equiv> 0"
abbreviation (input) HPSSIX_WORKDATA_SQL_TOTALCOUNT :: nat where
  "HPSSIX_WORKDATA_SQL_TOTALCOUNT \<equiv> 1"
abbreviation (input) HPSSIX_WORKDATA_SQL_FETCH :: nat where "HPSSIX_WORKDATA_SQL_FETCH \<equiv> 2"

section \<open>Data\<close>

record hpssix_workdata =
  wd_config :: hpssix_config
  wd_tmpdb :: hpssix_tmpdb

record hpssix_workdata_object =
  object_id :: u64
  obj_path :: string

record hpssix_workdata_worklist =
  wl_offset :: u64
  wl_count :: u64
  wl_objects :: "hpssix_workdata_object list option"

definition workdata_zero :: hpssix_workdata where
  "workdata_zero = \<lparr>wd_config = config_zero, wd_tmpdb = tmpdb_zero\<rparr>"

section \<open>Operations\<close>

definition hpssix_workdata_open_mode ::
  "env \<Rightarrow> hpssix_workdata option \<Rightarrow> string option \<Rightarrow> bool \<Rightarrow> (int \<times> hpssix_workdata option) io" where
  "hpssix_workdata_open_mode E self name mode = (case (self, name) of
     (Some wd, Some nm) \<Rightarrow>
       bind_io (hpssix_config_read_sysconf E (Some (wd_config wd))) (\<lambda>(ret, config).
       let wd1 = wd\<lparr>wd_config := case config of Some c \<Rightarrow> c | None \<Rightarrow> wd_config wd\<rparr> in
       if ret \<noteq> 0 then return_io (ret, Some wd1)
       else bind_io (hpssix_tmpdb_open E
              (Some (tmpdb_zero\<lparr>dbpath := nm, schema := Some workdata_schema,
                 n_sql := 3, sqlstr := workdata_sqls\<rparr>)) mode) (\<lambda>(ret, db).
         return_io (ret, Some (wd1\<lparr>wd_tmpdb := case db of Some d \<Rightarrow> d | None \<Rightarrow> wd_tmpdb wd1\<rparr>))))
   | _ \<Rightarrow> return_io (EINVAL, self))"

definition hpssix_workdata_create ::
  "env \<Rightarrow> hpssix_workdata option \<Rightarrow> string option \<Rightarrow> (int \<times> hpssix_workdata option) io" where
  "hpssix_workdata_create E self name = hpssix_workdata_open_mode E self name True"

definition hpssix_workdata_open ::
  "env \<Rightarrow> hpssix_workdata option \<Rightarrow> string option \<Rightarrow> (int \<times> hpssix_workdata option) io" where
  "hpssix_workdata_open E self name = hpssix_workdata_open_mode E self name False"

definition hpssix_workdata_close :: "hpssix_workdata option \<Rightarrow> int io" where
  "hpssix_workdata_close self = (case self of
     None \<Rightarrow> return_io 0
   | Some wd \<Rightarrow> then_io (hpssix_tmpdb_close (Some (wd_tmpdb wd))) (return_io 0))"

definition hpssix_workdata_append ::
  "env \<Rightarrow> hpssix_workdata option \<Rightarrow> u64 \<Rightarrow> string option \<Rightarrow> int io" where
  "hpssix_workdata_append E self pid path = (case (self, path) of
     (Some wd, Some p) \<Rightarrow>
       (let stmt = hpssix_tmpdb_stmt_get (Some (wd_tmpdb wd)) HPSSIX_WORKDATA_SQL_APPEND in
        bind_io (sqlite3_bind_int64 E stmt 1 pid) (\<lambda>ret1.
        bind_io (sqlite3_bind_text E stmt 2 p) (\<lambda>ret2.
        if ret1 \<noteq> 0 \<or> ret2 \<noteq> 0 then then_io (sqlite3_reset stmt) (return_io EIO)
        else bind_io (step_retry (env_fuel E) E stmt) (\<lambda>ret.
          then_io (sqlite3_reset stmt) (return_io (if ret = SQLITE_DONE then 0 else EIO))))))
   | _ \<Rightarrow> return_io EINVAL)"

text \<open>The second component is \<open>*count\<close>: \<open>None\<close> when it was not written.\<close>

definition hpssix_workdata_get_total_count ::
  "env \<Rightarrow> hpssix_workdata option \<Rightarrow> (int \<times> u64 option) io" where
  "hpssix_workdata_get_total_count E self = (case self of
     None \<Rightarrow> return_io (EINVAL, None)
   | Some wd \<Rightarrow>
       (let stmt = hpssix_tmpdb_stmt_get (Some (wd_tmpdb wd)) HPSSIX_WORKDATA_SQL_TOTALCOUNT in
        bind_io (step_retry (env_fuel E) E stmt) (\<lambda>ret.
        if ret \<noteq> SQLITE_ROW then then_io (sqlite3_reset stmt) (return_io (EIO, None))
        else bind_io (sqlite3_column_int64 E stmt 0) (\<lambda>count.
          then_io (sqlite3_reset stmt) (return_io (0, Some count))))))"

text \<open>
  The row loop of dispatch with \<open>k\<close> array slots left: it writes a slot before it
  asks whether there is another row, and one more row than slots is a write past
  the array.  \<open>Inl\<close> is the error number.
\<close>

fun dispatch_loop ::
  "env \<Rightarrow> sqlite3_stmt option \<Rightarrow> nat \<Rightarrow> hpssix_workdata_object list \<Rightarrow>
   (int + hpssix_workdata_object list) io" where
  "dispatch_loop E stmt 0 acc = undef_io"
| "dispatch_loop E stmt (Suc k) acc =
     bind_io (sqlite3_column_int64 E stmt 0) (\<lambda>oid.
     bind_io (sqlite3_column_text E stmt 1) (\<lambda>text. case text of
       None \<Rightarrow> undef_io
     | Some p \<Rightarrow> bind_io (strdup E p) (\<lambda>dup. case dup of
         None \<Rightarrow> return_io (Inl ENOMEM)
       | Some q \<Rightarrow>
           (let acc' = acc @ [\<lparr>object_id = oid, obj_path = q\<rparr>] in
            bind_io (sqlite3_step E stmt) (\<lambda>ret.
            if ret = SQLITE_ROW then dispatch_loop E stmt k acc' else return_io (Inr acc'))))))"

definition hpssix_workdata_dispatch ::
  "env \<Rightarrow> hpssix_workdata option \<Rightarrow> hpssix_workdata_worklist option \<Rightarrow>
   (int \<times> hpssix_workdata_worklist option) io" where
  "hpssix_workdata_dispatch E self list = (case (self, list) of
     (Some wd, Some wl) \<Rightarrow>
       (let offset = wl_offset wl; count = wl_count wl;
            stmt = hpssix_tmpdb_stmt_get (Some (wd_tmpdb wd)) HPSSIX_WORKDATA_SQL_FETCH in
        bind_io (sqlite3_bind_int64 E stmt 1 offset) (\<lambda>ret1.
        bind_io (sqlite3_bind_int64 E stmt 2 count) (\<lambda>ret2.
        if ret1 \<noteq> 0 \<or> ret2 \<noteq> 0 then then_io (sqlite3_reset stmt) (return_io (EIO, list))
        else bind_io (step_retry (env_fuel E) E stmt) (\<lambda>ret.
        if ret \<noteq> SQLITE_ROW then then_io (sqlite3_reset stmt) (return_io (EIO, list))
        else bind_io (alloc E (16 * unat count)) (\<lambda>ok.
        if \<not> ok then then_io (sqlite3_reset stmt) (return_io (ENOMEM, list))
        else bind_io (dispatch_loop E stmt (unat count) []) (\<lambda>r. case r of
          Inl e \<Rightarrow> then_io (sqlite3_reset stmt) (return_io (e, list))
        | Inr objs \<Rightarrow> then_io (sqlite3_reset stmt)
            (return_io (0, Some (wl\<lparr>wl_count := of_nat (length objs),
                                   wl_objects := Some objs\<rparr>)))))))))
   | _ \<Rightarrow> return_io (EINVAL, list))"

definition hpssix_workdata_begin_transaction :: "env \<Rightarrow> hpssix_workdata \<Rightarrow> int io" where
  "hpssix_workdata_begin_transaction E self =
     hpssix_tmpdb_begin_transaction E (Some (wd_tmpdb self))"

definition hpssix_workdata_end_transaction :: "env \<Rightarrow> hpssix_workdata \<Rightarrow> int io" where
  "hpssix_workdata_end_transaction E self =
     hpssix_tmpdb_end_transaction E (Some (wd_tmpdb self))"

definition hpssix_workdata_rollback_transaction :: "env \<Rightarrow> hpssix_workdata \<Rightarrow> int io" where
  "hpssix_workdata_rollback_transaction E self =
     hpssix_tmpdb_rollback_transaction E (Some (wd_tmpdb self))"

section \<open>What the SQL texts mean\<close>

definition wd_sem :: "string \<Rightarrow> sql_sem" where
  "wd_sem sql =
     (if sql = workdata_schema then SemCreate
      else if sql = workdata_sql_append then SemInsert 2
      else if sql = workdata_sql_totalcount then
        SemSelect (\<lambda>rows b. [[SInt (of_nat (length rows))]])
      else if sql = workdata_sql_fetch then
        SemSelect (\<lambda>rows b. map (drop 1) (limit_rows (b 1) (b 2) rows))
      else if sql = sql_begin then SemBegin
      else if sql = sql_end then SemEnd
      else if sql = sql_rollback then SemRollback
      else SemNone)"

lemma wd_sem_simps [simp]:
  "wd_sem workdata_schema = SemCreate"
  "wd_sem workdata_sql_append = SemInsert 2"
  "wd_sem workdata_sql_totalcount = SemSelect (\<lambda>rows b. [[SInt (of_nat (length rows))]])"
  "wd_sem workdata_sql_fetch = SemSelect (\<lambda>rows b. map (drop 1) (limit_rows (b 1) (b 2) rows))"
  "wd_sem sql_begin = SemBegin" "wd_sem sql_end = SemEnd" "wd_sem sql_rollback = SemRollback"
  by (simp_all add: wd_sem_def workdata_schema_def workdata_sql_append_def
      workdata_sql_totalcount_def workdata_sql_fetch_def sql_begin_def sql_end_def
      sql_rollback_def)

text \<open>The rows of the table: an id, the object id and the path.\<close>

definition wd_row_ok :: "row \<Rightarrow> bool" where
  "wd_row_ok r \<longleftrightarrow> (case r of [SInt _, SInt _, SText _] \<Rightarrow> True | _ \<Rightarrow> False)"

definition wd_rows_ok :: "row list \<Rightarrow> bool" where
  "wd_rows_ok rows \<longleftrightarrow> (\<forall>r\<in>set rows. wd_row_ok r)"

text \<open>The object a fetched row (without the id) stands for.\<close>

definition fetched :: "row \<Rightarrow> hpssix_workdata_object" where
  "fetched r = (case r of
     [SInt p, SText q] \<Rightarrow> \<lparr>object_id = p, obj_path = q\<rparr>
   | _ \<Rightarrow> \<lparr>object_id = 0, obj_path = []\<rparr>)"

definition wd_items :: "row list \<Rightarrow> hpssix_workdata_object list" where
  "wd_items rows = map (\<lambda>r. fetched (drop 1 r)) rows"

definition fetch_stmt :: "nat \<Rightarrow> sqlite3_stmt" where
  "fetch_stmt c = \<lparr>st_conn = c, st_sql = workdata_sql_fetch\<rparr>"

definition append_stmt :: "nat \<Rightarrow> sqlite3_stmt" where
  "append_stmt c = \<lparr>st_conn = c, st_sql = workdata_sql_append\<rparr>"

definition count_stmt :: "nat \<Rightarrow> sqlite3_stmt" where
  "count_stmt c = \<lparr>st_conn = c, st_sql = workdata_sql_totalcount\<rparr>"

definition wd_ready :: "hpssix_workdata \<Rightarrow> nat \<Rightarrow> bool" where
  "wd_ready wd c \<longleftrightarrow> prepared (wd_tmpdb wd) c workdata_sqls"

lemma wd_stmts:
  assumes "wd_ready wd c"
  shows "hpssix_tmpdb_stmt_get (Some (wd_tmpdb wd)) 0 = Some (append_stmt c)"
    "hpssix_tmpdb_stmt_get (Some (wd_tmpdb wd)) (Suc 0) = Some (count_stmt c)"
    "hpssix_tmpdb_stmt_get (Some (wd_tmpdb wd)) 2 = Some (fetch_stmt c)"
  using assms
  by (simp_all add: wd_ready_def prepared_stmt_get workdata_sqls_def append_stmt_def
      count_stmt_def fetch_stmt_def)

lemma stmt_simps [simp]:
  "st_conn (append_stmt c) = c" "st_sql (append_stmt c) = workdata_sql_append"
  "st_conn (count_stmt c) = c" "st_sql (count_stmt c) = workdata_sql_totalcount"
  "st_conn (fetch_stmt c) = c" "st_sql (fetch_stmt c) = workdata_sql_fetch"
  by (simp_all add: append_stmt_def count_stmt_def fetch_stmt_def)

lemma stmt_neq [simp]:
  "append_stmt c \<noteq> fetch_stmt d" "append_stmt c \<noteq> count_stmt d" "fetch_stmt c \<noteq> count_stmt d"
  "fetch_stmt c \<noteq> append_stmt d" "count_stmt c \<noteq> append_stmt d" "count_stmt c \<noteq> fetch_stmt d"
  by (simp_all add: append_stmt_def count_stmt_def fetch_stmt_def workdata_sql_append_def
      workdata_sql_totalcount_def workdata_sql_fetch_def)

section \<open>The row loop\<close>

definition fetched_ok :: "row \<Rightarrow> bool" where
  "fetched_ok r \<longleftrightarrow> (case r of [SInt _, SText _] \<Rightarrow> True | _ \<Rightarrow> False)"

lemma fetched_okD: "fetched_ok r \<Longrightarrow> r = [SInt (object_id (fetched r)), SText (obj_path (fetched r))]"
  by (auto simp: fetched_ok_def fetched_def split: list.splits sqlval.splits)

lemma wd_row_ok_fetched: "wd_row_ok r \<Longrightarrow> fetched_ok (drop 1 r)"
  by (auto simp: wd_row_ok_def fetched_ok_def split: list.splits sqlval.splits)

text \<open>
  One turn of the loop: with a current row of the right shape and memory, the turn
  stores the object and asks for the next row.
\<close>

lemma dispatch_loop_Suc:
  assumes "sqlite_sound sem s0 E" and "sq_row (sq_replay sem s0 tr) st = r" and "fetched_ok r"
  shows "dispatch_loop E (Some st) (Suc k) acc tr =
    (if env_alloc E tr (length (obj_path (fetched r)) + 1)
     then let ret = env_sqlite3_step E tr (Some st); tr1 = EvSqStep (Some st) ret # tr in
       if ret = SQLITE_ROW then dispatch_loop E (Some st) k (acc @ [fetched r]) tr1
       else (Ret (Inr (acc @ [fetched r])), tr1)
     else (Ret (Inl ENOMEM), tr))"
proof -
  obtain p q where r: "r = [SInt p, SText q]" and f: "fetched r = \<lparr>object_id = p, obj_path = q\<rparr>"
    using fetched_okD [OF assms(3)] by (metis hpssix_workdata_object.surjective unit.exhaust)
  have "env_sqlite3_column E tr (Some st) 0 = SInt p" "env_sqlite3_column E tr (Some st) 1 = SText q"
    using sound_column [OF assms(1), of 0 tr st] sound_column [OF assms(1), of 1 tr st] assms(2) r
    by simp_all
  then show ?thesis
    unfolding f
    by (simp add: bind_io_apply sqlite3_column_int64_def sqlite3_column_text_def strdup_def
        alloc_def sqlite3_step_def Let_def)
qed

lemma dispatch_loop_ok:
  assumes "sqlite_sound sem s0 E" and "sem (st_sql st) = SemSelect f"
    and "sq_cur (sq_replay sem s0 tr) st = Some rs" and "sq_row (sq_replay sem s0 tr) st = r"
    and "\<forall>x\<in>set (r # rs). fetched_ok x" and "length rs < k"
  shows "\<exists>res tr'. dispatch_loop E (Some st) k acc tr = (Ret res, tr') \<and>
     (case res of Inl e \<Rightarrow> e = ENOMEM
      | Inr objs \<Rightarrow> \<exists>n. objs = acc @ map fetched (r # take n rs)) \<and>
     (sqlite_live sem s0 E \<longrightarrow> res = Inr (acc @ map fetched (r # rs))) \<and>
     sq_db (sq_replay sem s0 tr') = sq_db (sq_replay sem s0 tr) \<and>
     (\<forall>st'. st' \<noteq> st \<longrightarrow> sq_cur (sq_replay sem s0 tr') st' = sq_cur (sq_replay sem s0 tr) st')"
  using assms
proof (induction rs arbitrary: r tr acc k)
  case Nil
  then obtain k' where k: "k = Suc k'" by (cases k) auto
  let ?ret = "env_sqlite3_step E tr (Some st)"
  have "?ret \<noteq> SQLITE_ROW"
    using sound_row [OF Nil.prems(1,2), of tr] Nil.prems(3) by (auto simp: sq_left_def)
  then have run: "dispatch_loop E (Some st) k acc tr =
      (if env_alloc E tr (length (obj_path (fetched r)) + 1)
       then (Ret (Inr (acc @ [fetched r])), EvSqStep (Some st) ?ret # tr) else (Ret (Inl ENOMEM), tr))"
    using dispatch_loop_Suc [OF Nil.prems(1), of tr st r k' acc] Nil.prems(4,5) k
    by (auto simp: Let_def)
  show ?case
  proof (cases "env_alloc E tr (length (obj_path (fetched r)) + 1)")
    case True
    then show ?thesis
      using run Nil.prems(2) by (auto simp: sq_db_def)
  next
    case False
    then show ?thesis using run live_calls(5) by (auto split: sum.splits)
  qed
next
  case (Cons r' rs)
  then obtain k' where k: "k = Suc k'" by (cases k) auto
  let ?ret = "env_sqlite3_step E tr (Some st)" let ?tr1 = "EvSqStep (Some st) SQLITE_ROW # tr"
  note turn = dispatch_loop_Suc [OF Cons.prems(1), of tr st r k' acc]
  have live: "sqlite_live sem s0 E \<Longrightarrow> ?ret = SQLITE_ROW"
    using step_select_running [OF _ Cons.prems(1,2,3)] by auto
  consider "\<not> env_alloc E tr (length (obj_path (fetched r)) + 1)"
    | "env_alloc E tr (length (obj_path (fetched r)) + 1)" "?ret \<noteq> SQLITE_ROW"
    | "env_alloc E tr (length (obj_path (fetched r)) + 1)" "?ret = SQLITE_ROW"
    by blast
  then show ?case
  proof cases
    case 1
    then show ?thesis using turn k Cons.prems(4,5) live_calls(5) by (auto split: sum.splits)
  next
    case 2
    then have "dispatch_loop E (Some st) k acc tr
        = (Ret (Inr (acc @ map fetched (r # take 0 (r' # rs)))), EvSqStep (Some st) ?ret # tr)"
      using turn k Cons.prems(4,5) by (simp add: Let_def)
    then show ?thesis
      using 2 live Cons.prems(2) by (fastforce simp: sq_db_def intro!: exI [of _ 0])
  next
    case 3
    have "sq_cur (sq_replay sem s0 ?tr1) st = Some rs" "sq_row (sq_replay sem s0 ?tr1) st = r'"
      using Cons.prems(2,3) by (simp_all add: sq_left_def)
    with Cons.IH [OF Cons.prems(1,2), of ?tr1 r' k' "acc @ [fetched r]"] Cons.prems(5,6) k
    obtain res tr' where IH: "dispatch_loop E (Some st) k' (acc @ [fetched r]) ?tr1 = (Ret res, tr')"
      "case res of Inl e \<Rightarrow> e = ENOMEM
       | Inr objs \<Rightarrow> \<exists>n. objs = (acc @ [fetched r]) @ map fetched (r' # take n rs)"
      "sqlite_live sem s0 E \<longrightarrow> res = Inr ((acc @ [fetched r]) @ map fetched (r' # rs))"
      "sq_db (sq_replay sem s0 tr') = sq_db (sq_replay sem s0 ?tr1)"
      "\<forall>st'. st' \<noteq> st \<longrightarrow> sq_cur (sq_replay sem s0 tr') st' = sq_cur (sq_replay sem s0 ?tr1) st'"
      by auto
    have "case res of Inl e \<Rightarrow> e = ENOMEM
       | Inr objs \<Rightarrow> \<exists>n. objs = acc @ map fetched (r # take n (r' # rs))"
      using IH(2) by (auto split: sum.splits intro: exI [of _ "Suc n" for n])
    moreover have "dispatch_loop E (Some st) k acc tr = (Ret res, tr')"
      using turn k Cons.prems(4,5) 3 IH(1) by (simp add: Let_def)
    ultimately show ?thesis
      using IH(3-5) Cons.prems(2) by (intro exI [of _ res] exI [of _ tr']) (auto simp: sq_db_def)
  qed
qed

section \<open>The operations on a work list\<close>

text \<open>
  What a connection knows of its work list: SQLite serves the statements of an
  opened handle, the table holds \<open>items\<close> and no query is under way.
\<close>

definition wd_queue ::
  "env \<Rightarrow> sqstate \<Rightarrow> hpssix_workdata \<Rightarrow> nat \<Rightarrow> trace \<Rightarrow> hpssix_workdata_object list \<Rightarrow> bool" where
  "wd_queue E s0 wd c tr items \<longleftrightarrow>
     (let s = sq_replay wd_sem s0 tr in
      sqlite_live wd_sem s0 E \<and> sqlite_sound wd_sem s0 E \<and> wd_ready wd c \<and>
      wd_rows_ok (sq_view s c) \<and> wd_items (sq_view s c) = items \<and>
      sq_cur s (fetch_stmt c) = None \<and> sq_cur s (count_stmt c) = None)"

lemma sq_txn_write: "(sq_txn (sq_write c rows s) d = None) = (sq_txn s d = None)"
  by (auto simp: sq_write_def split: option.splits)

lemma workdata_append_run:
  assumes "sqlite_live wd_sem s0 E" and "sqlite_sound wd_sem s0 E" and "wd_ready wd c"
  shows "\<exists>tr'. hpssix_workdata_append E (Some wd) pid (Some path) tr = (Ret 0, tr') \<and>
     sq_view (sq_replay wd_sem s0 tr') c
       = sq_view (sq_replay wd_sem s0 tr) c
         @ [[SInt (next_id (sq_view (sq_replay wd_sem s0 tr) c)), SInt pid, SText path]] \<and>
     sq_cur (sq_replay wd_sem s0 tr') = (sq_cur (sq_replay wd_sem s0 tr))(append_stmt c := None) \<and>
     sq_path (sq_replay wd_sem s0 tr') = sq_path (sq_replay wd_sem s0 tr) \<and>
     (sq_txn (sq_replay wd_sem s0 tr') c = None) = (sq_txn (sq_replay wd_sem s0 tr) c = None)"
proof -
  let ?st = "append_stmt c"
  let ?tr2 = "EvSqBindText (Some ?st) 2 path 0 # EvSqBindInt (Some ?st) 1 pid 0 # tr"
  obtain tr1 where step: "step_retry (env_fuel E) E (Some ?st) ?tr2
       = (Ret SQLITE_DONE, EvSqStep (Some ?st) SQLITE_DONE # tr1)"
    and same: "sq_replay wd_sem s0 tr1 = sq_replay wd_sem s0 ?tr2"
    using step_retry_insert [OF assms(1,2), of ?st 2 ?tr2] by auto
  have "hpssix_workdata_append E (Some wd) pid (Some path) tr
      = (Ret 0, EvSqReset (Some ?st) # EvSqStep (Some ?st) SQLITE_DONE # tr1)"
    using step
    by (simp add: hpssix_workdata_append_def wd_stmts [OF assms(3)] Let_def bind_io_apply
        then_io_apply sqlite3_bind_int64_def sqlite3_bind_text_def live_calls [OF assms(1)]
        sqlite3_reset_def)
  then show ?thesis
    using same by (simp add: sq_new_row_def upt_rec numeral_2_eq_2 sq_txn_write)
qed

lemma wd_queue_append:
  assumes "wd_queue E s0 wd c tr items"
  shows "\<exists>tr'. hpssix_workdata_append E (Some wd) (object_id x) (Some (obj_path x)) tr = (Ret 0, tr') \<and>
     wd_queue E s0 wd c tr' (items @ [x]) \<and>
     sq_path (sq_replay wd_sem s0 tr') = sq_path (sq_replay wd_sem s0 tr) \<and>
     (sq_txn (sq_replay wd_sem s0 tr') c = None) = (sq_txn (sq_replay wd_sem s0 tr) c = None)"
proof -
  have q: "sqlite_live wd_sem s0 E" "sqlite_sound wd_sem s0 E" "wd_ready wd c"
    using assms by (simp_all add: wd_queue_def Let_def)
  obtain tr' where f: "hpssix_workdata_append E (Some wd) (object_id x) (Some (obj_path x)) tr = (Ret 0, tr')"
    "sq_view (sq_replay wd_sem s0 tr') c = sq_view (sq_replay wd_sem s0 tr) c
       @ [[SInt (next_id (sq_view (sq_replay wd_sem s0 tr) c)), SInt (object_id x), SText (obj_path x)]]"
    "sq_cur (sq_replay wd_sem s0 tr') = (sq_cur (sq_replay wd_sem s0 tr))(append_stmt c := None)"
    "sq_path (sq_replay wd_sem s0 tr') = sq_path (sq_replay wd_sem s0 tr)"
    "(sq_txn (sq_replay wd_sem s0 tr') c = None) = (sq_txn (sq_replay wd_sem s0 tr) c = None)"
    using workdata_append_run [OF q, of "object_id x" "obj_path x" tr]
    by (elim exE conjE) (rule that)
  have "wd_queue E s0 wd c tr' (items @ [x])"
    using assms f(2,3)
    by (simp add: wd_queue_def Let_def wd_rows_ok_def wd_row_ok_def wd_items_def fetched_def)
  then show ?thesis
    using f(1,4,5) by (intro exI [of _ tr'] conjI)
qed

lemma wd_queue_total_count:
  assumes "wd_queue E s0 wd c tr items"
  shows "\<exists>tr'. hpssix_workdata_get_total_count E (Some wd) tr
       = (Ret (0, Some (of_nat (length items))), tr') \<and> wd_queue E s0 wd c tr' items"
proof -
  let ?st = "count_stmt c" let ?s = "sq_replay wd_sem s0 tr"
  have q: "sqlite_live wd_sem s0 E" "sqlite_sound wd_sem s0 E" "wd_ready wd c"
    and cur: "sq_cur ?s ?st = None" and len: "length (sq_view ?s c) = length items"
    using assms by (auto simp: wd_queue_def Let_def wd_items_def)
  have left: "sq_left wd_sem ?s ?st = [[SInt (of_nat (length items))]]"
    using cur len by (simp add: sq_left_def)
  then obtain tr1 where step: "step_retry (env_fuel E) E (Some ?st) tr
       = (Ret SQLITE_ROW, EvSqStep (Some ?st) SQLITE_ROW # tr1)"
    and same: "sq_replay wd_sem s0 tr1 = ?s"
    using step_retry_select [OF q(1,2), of ?st _ tr] by auto
  let ?tr2 = "EvSqStep (Some ?st) SQLITE_ROW # tr1"
  have "sq_row (sq_replay wd_sem s0 ?tr2) ?st = [SInt (of_nat (length items))]"
    using same left by simp
  then have "env_sqlite3_column E ?tr2 (Some ?st) 0 = SInt (of_nat (length items))"
    using sound_column [OF q(2), of 0 ?tr2 ?st] by simp
  then have "hpssix_workdata_get_total_count E (Some wd) tr
      = (Ret (0, Some (of_nat (length items))), EvSqReset (Some ?st) # ?tr2)"
    using step
    by (simp add: hpssix_workdata_get_total_count_def wd_stmts [OF q(3)] Let_def bind_io_apply
        then_io_apply sqlite3_column_int64_def sqlite3_reset_def)
  moreover have "wd_queue E s0 wd c (EvSqReset (Some ?st) # ?tr2) items"
    using assms same by (simp add: wd_queue_def Let_def)
  ultimately show ?thesis by blast
qed

text \<open>
  Dispatch up to its first row, for any behaviour of SQLite: either an error is
  returned and the list is left as it was, or the row loop runs on the rows of
  the requested slice.
\<close>

definition wd_slice :: "hpssix_workdata_worklist \<Rightarrow> 'a list \<Rightarrow> 'a list" where
  "wd_slice wl xs = slice (unat (wl_offset wl)) (unat (wl_count wl)) xs"

lemma workdata_dispatch_first:
  assumes live: "sqlite_live wd_sem s0 E" and sound: "sqlite_sound wd_sem s0 E"
    and ready: "wd_ready wd c"
    and cur: "sq_cur (sq_replay wd_sem s0 tr) (fetch_stmt c) = None"
    and rows: "wd_slice wl (map (drop 1) (sq_view (sq_replay wd_sem s0 tr) c)) = rs"
    and bounds: "unat (wl_offset wl) < 2 ^ 63" "unat (wl_count wl) < 2 ^ 63"
  shows "\<exists>tr1. sq_db (sq_replay wd_sem s0 tr1) = sq_db (sq_replay wd_sem s0 tr) \<and>
     (\<forall>st. st \<noteq> fetch_stmt c \<longrightarrow> sq_cur (sq_replay wd_sem s0 tr1) st = sq_cur (sq_replay wd_sem s0 tr) st) \<and>
     (case rs of
        [] \<Rightarrow> hpssix_workdata_dispatch E (Some wd) (Some wl) tr
                = (Ret (EIO, Some wl), EvSqReset (Some (fetch_stmt c)) # tr1)
      | r # rs' \<Rightarrow> sq_cur (sq_replay wd_sem s0 tr1) (fetch_stmt c) = Some rs' \<and>
          sq_row (sq_replay wd_sem s0 tr1) (fetch_stmt c) = r \<and>
          hpssix_workdata_dispatch E (Some wd) (Some wl) tr =
            bind_io (dispatch_loop E (Some (fetch_stmt c)) (unat (wl_count wl)) []) (\<lambda>r. case r of
              Inl e \<Rightarrow> then_io (sqlite3_reset (Some (fetch_stmt c))) (return_io (e, Some wl))
            | Inr objs \<Rightarrow> then_io (sqlite3_reset (Some (fetch_stmt c)))
                (return_io (0, Some (wl\<lparr>wl_count := of_nat (length objs),
                                       wl_objects := Some objs\<rparr>)))) tr1)"
proof -
  let ?st = "fetch_stmt c" let ?s = "sq_replay wd_sem s0 tr"
  let ?tr2 = "EvSqBindInt (Some ?st) 2 (wl_count wl) 0 # EvSqBindInt (Some ?st) 1 (wl_offset wl) 0 # tr"
  have left: "sq_left wd_sem (sq_replay wd_sem s0 ?tr2) ?st = rs"
    using cur rows by (simp add: sq_left_def limit_rows_eq [OF bounds] wd_slice_def slice_map)
  obtain tr1 where step: "step_retry (env_fuel E) E (Some ?st) ?tr2
       = (Ret (if rs = [] then SQLITE_DONE else SQLITE_ROW),
          EvSqStep (Some ?st) (if rs = [] then SQLITE_DONE else SQLITE_ROW) # tr1)"
    and same: "sq_replay wd_sem s0 tr1 = sq_replay wd_sem s0 ?tr2"
    using step_retry_select [OF live sound, of ?st _ ?tr2] left by auto
  let ?tr3 = "EvSqStep (Some ?st) (if rs = [] then SQLITE_DONE else SQLITE_ROW) # tr1"
  have unch: "sq_db (sq_replay wd_sem s0 ?tr3) = sq_db ?s"
    "\<forall>st. st \<noteq> ?st \<longrightarrow> sq_cur (sq_replay wd_sem s0 ?tr3) st = sq_cur ?s st"
    using same by (simp_all add: sq_db_def)
  note run = hpssix_workdata_dispatch_def wd_stmts [OF ready] Let_def bind_io_apply then_io_apply
    sqlite3_bind_int64_def alloc_def live_calls [OF live] sqlite3_reset_def
  show ?thesis
  proof (cases rs)
    case Nil
    then show ?thesis
      using step unch by (intro exI [of _ ?tr3]) (simp add: run)
  next
    case (Cons r rs')
    then have "sq_cur (sq_replay wd_sem s0 ?tr3) ?st = Some rs'" "sq_row (sq_replay wd_sem s0 ?tr3) ?st = r"
      using same left by simp_all
    with Cons show ?thesis
      using step unch by (intro exI [of _ ?tr3]) (simp add: run)
  qed
qed

lemma wd_queue_dispatch:
  assumes q: "wd_queue E s0 wd c tr items"
    and bounds: "unat (wl_offset wl) < 2 ^ 63" "unat (wl_count wl) < 2 ^ 63"
  shows "\<exists>tr'. wd_queue E s0 wd c tr' items \<and>
     hpssix_workdata_dispatch E (Some wd) (Some wl) tr =
       (if wd_slice wl items = [] then (Ret (EIO, Some wl), tr')
        else (Ret (0, Some (wl\<lparr>wl_count := of_nat (length (wd_slice wl items)),
                              wl_objects := Some (wd_slice wl items)\<rparr>)), tr'))"
proof -
  let ?st = "fetch_stmt c" let ?s = "sq_replay wd_sem s0 tr"
  define rs where "rs = wd_slice wl (map (drop 1) (sq_view ?s c))"
  have a: "sqlite_live wd_sem s0 E" "sqlite_sound wd_sem s0 E" "wd_ready wd c"
    "sq_cur ?s ?st = None"
    using q by (simp_all add: wd_queue_def Let_def)
  have items: "map fetched rs = wd_slice wl items"
    using q by (auto simp: rs_def wd_queue_def Let_def wd_items_def wd_slice_def slice_map comp_def)
  have ok: "\<forall>r\<in>set rs. fetched_ok r"
    using q set_slice [of "unat (wl_offset wl)" "unat (wl_count wl)" "sq_view ?s c"]
    by (auto simp: rs_def wd_slice_def slice_map wd_queue_def Let_def wd_rows_ok_def
        intro!: wd_row_ok_fetched [unfolded One_nat_def])
  have keep: "wd_queue E s0 wd c (EvSqReset (Some ?st) # tr') items"
    if "sq_db (sq_replay wd_sem s0 tr') = sq_db ?s"
      "\<forall>st. st \<noteq> ?st \<longrightarrow> sq_cur (sq_replay wd_sem s0 tr') st = sq_cur ?s st" for tr'
    using q that sq_view_cong [OF that(1)] by (simp add: wd_queue_def Let_def)
  obtain tr1 where first: "sq_db (sq_replay wd_sem s0 tr1) = sq_db ?s"
    "\<forall>st. st \<noteq> ?st \<longrightarrow> sq_cur (sq_replay wd_sem s0 tr1) st = sq_cur ?s st"
    and run: "case rs of
        [] \<Rightarrow> hpssix_workdata_dispatch E (Some wd) (Some wl) tr
                = (Ret (EIO, Some wl), EvSqReset (Some ?st) # tr1)
      | r # rs' \<Rightarrow> sq_cur (sq_replay wd_sem s0 tr1) ?st = Some rs' \<and>
          sq_row (sq_replay wd_sem s0 tr1) ?st = r \<and>
          hpssix_workdata_dispatch E (Some wd) (Some wl) tr =
            bind_io (dispatch_loop E (Some ?st) (unat (wl_count wl)) []) (\<lambda>r. case r of
              Inl e \<Rightarrow> then_io (sqlite3_reset (Some ?st)) (return_io (e, Some wl))
            | Inr objs \<Rightarrow> then_io (sqlite3_reset (Some ?st))
                (return_io (0, Some (wl\<lparr>wl_count := of_nat (length objs),
                                       wl_objects := Some objs\<rparr>)))) tr1"
    using workdata_dispatch_first [OF a refl bounds] unfolding rs_def by blast
  show ?thesis
  proof (cases rs)
    case Nil
    then show ?thesis
      using run items keep [OF first] by auto
  next
    case (Cons r rs')
    have "length rs \<le> unat (wl_count wl)"
      by (simp add: rs_def wd_slice_def length_slice)
    with Cons ok run dispatch_loop_ok [OF a(2), of ?st _ tr1 rs' r "unat (wl_count wl)" "[]"] a(1)
    obtain tr2 where loop: "dispatch_loop E (Some ?st) (unat (wl_count wl)) [] tr1
          = (Ret (Inr (map fetched rs)), tr2)"
      and db: "sq_db (sq_replay wd_sem s0 tr2) = sq_db (sq_replay wd_sem s0 tr1)"
        "\<forall>st'. st' \<noteq> ?st \<longrightarrow> sq_cur (sq_replay wd_sem s0 tr2) st' = sq_cur (sq_replay wd_sem s0 tr1) st'"
      by auto
    have "wd_queue E s0 wd c (EvSqReset (Some ?st) # tr2) items"
      using first db by (intro keep) auto
    then show ?thesis
      using run [unfolded Cons list.case] loop [unfolded items] Cons items
      by (intro exI [of _ "EvSqReset (Some ?st) # tr2"] conjI)
        (auto simp: bind_io_Ret then_io_apply sqlite3_reset_def)
  qed
qed

section \<open>Opening\<close>

lemma workdata_open_mode_run:
  assumes "sqlite_live wd_sem s0 E"
  shows "\<exists>wd' c tr'. hpssix_workdata_open_mode E (Some wd) (Some name) mode tr
       = (Ret (0, Some wd'), tr') \<and> wd_ready wd' c \<and>
     sq_path (sq_replay wd_sem s0 tr') c = name \<and>
     sq_view (sq_replay wd_sem s0 tr') c = (if mode then [] else sq_file (sq_replay wd_sem s0 tr) name) \<and>
     sq_cur (sq_replay wd_sem s0 tr') (fetch_stmt c) = None \<and>
     sq_cur (sq_replay wd_sem s0 tr') (count_stmt c) = None"
proof -
  obtain cfg where cfg: "hpssix_config_read_sysconf E (Some (wd_config wd)) tr
      = (Ret (0, Some cfg), EvConfig (hpssix_sysconf_file E) # tr)"
    using config_read_sysconf_returns by blast
  let ?tr1 = "EvConfig (hpssix_sysconf_file E) # tr"
  define c where "c = snd (env_sqlite3_open E ?tr1 name)"
  have op: "env_sqlite3_open E ?tr1 name = (0, c)"
    using live_calls(1) [OF assms, of ?tr1 name] by (simp add: c_def prod_eq_iff)
  let ?tr2 = "(if mode then [EvSqExec c workdata_schema 0] else []) @ EvSqOpen name 0 c # ?tr1"
  let ?tr3 = "EvSqPrepare c workdata_sql_fetch 0 # EvSqPrepare c workdata_sql_totalcount 0 #
    EvSqPrepare c workdata_sql_append 0 # ?tr2"
  let ?db = "\<lparr>dbpath = name, schema = Some workdata_schema, tmpdb_conn = Some c, n_sql = 3,
     sqlstr = workdata_sqls, tmpdb_stmt = Some [append_stmt c, count_stmt c, fetch_stmt c]\<rparr>"
  have "hpssix_workdata_open_mode E (Some wd) (Some name) mode tr
      = (Ret (0, Some \<lparr>wd_config = cfg, wd_tmpdb = ?db\<rparr>), ?tr3)"
    using cfg op
    by (simp add: hpssix_workdata_open_mode_def bind_io_apply hpssix_tmpdb_open_def sqlite3_open_def
        Let_def hpssix_tmpdb_exec_simple_sql_def sqlite3_exec_def tmpdb_prepare_stmt_def alloc_def
        live_calls [OF assms] workdata_sqls_def numeral_3_eq_3 sqlite3_prepare_def tmpdb_zero_def
        append_stmt_def count_stmt_def fetch_stmt_def)
  moreover have "wd_ready \<lparr>wd_config = cfg, wd_tmpdb = ?db\<rparr> c"
    by (simp add: wd_ready_def prepared_def workdata_sqls_def append_stmt_def count_stmt_def
        fetch_stmt_def)
  moreover have "sq_path (sq_replay wd_sem s0 ?tr3) c = name"
    "sq_view (sq_replay wd_sem s0 ?tr3) c = (if mode then [] else sq_file (sq_replay wd_sem s0 tr) name)"
    "sq_cur (sq_replay wd_sem s0 ?tr3) (fetch_stmt c) = None"
    "sq_cur (sq_replay wd_sem s0 ?tr3) (count_stmt c) = None"
    by (simp_all add: Let_def fetch_stmt_def count_stmt_def) (simp add: sq_view_def)
  ultimately show ?thesis by blast
qed

lemma workdata_open_prepares:
  assumes "hpssix_workdata_open_mode E (Some wd) (Some name) mode tr = (Ret (0, Some wd'), tr')"
  shows "\<exists>c. wd_ready wd' c"
proof -
  let ?db = "tmpdb_zero\<lparr>dbpath := name, schema := Some workdata_schema, n_sql := 3,
    sqlstr := workdata_sqls\<rparr>"
  obtain cfg where "hpssix_config_read_sysconf E (Some (wd_config wd)) tr
      = (Ret (0, Some cfg), EvConfig (hpssix_sysconf_file E) # tr)"
    using config_read_sysconf_returns by blast
  with assms obtain d where d:
    "hpssix_tmpdb_open E (Some ?db) mode (EvConfig (hpssix_sysconf_file E) # tr) = (Ret (0, d), tr')"
    "\<forall>x. d = Some x \<longrightarrow> wd_tmpdb wd' = x"
    by (auto simp: hpssix_workdata_open_mode_def bind_io_Ret Let_def bind_io_eq_Ret_iff)
  moreover obtain d' where "d = Some d'" using tmpdb_open_Some [OF d(1)] by auto
  ultimately show ?thesis
    using tmpdb_open_prepared [of E ?db] by (auto simp: wd_ready_def workdata_sqls_def)
qed

section \<open>Any behaviour of SQLite\<close>

lemma dispatch_loop_defined:
  assumes "sqlite_sound wd_sem s0 E"
    and "env_sqlite3_step E tr1 (Some (fetch_stmt c)) = SQLITE_ROW"
    and "sq_left wd_sem (sq_replay wd_sem s0 tr1) (fetch_stmt c) = rs"
    and "\<forall>x\<in>set rs. fetched_ok x" and "length rs \<le> k"
  shows "\<exists>res tr'. dispatch_loop E (Some (fetch_stmt c)) k [] (EvSqStep (Some (fetch_stmt c)) SQLITE_ROW # tr1)
    = (Ret res, tr')"
proof -
  obtain r rs' where rs: "rs = r # rs'"
    using sound_row [OF assms(1) _ assms(2)] assms(3) by (cases rs) auto
  let ?tr2 = "EvSqStep (Some (fetch_stmt c)) SQLITE_ROW # tr1"
  have "sq_cur (sq_replay wd_sem s0 ?tr2) (fetch_stmt c) = Some rs'"
    "sq_row (sq_replay wd_sem s0 ?tr2) (fetch_stmt c) = r"
    using assms(3) rs by simp_all
  then show ?thesis
    using dispatch_loop_ok [OF assms(1), of "fetch_stmt c" _ ?tr2 rs' r k "[]"] assms(4,5) rs
    by auto
qed

text \<open>
  C2: a dispatch stays inside its array.  SQLite may fail, stay busy or refuse
  memory in any way; as long as the rows it delivers are those the query asks for,
  dispatching from a table of well-formed rows never writes past the array it
  allocated for \<open>count\<close> objects and never copies a null path.
\<close>

theorem workdata_dispatch_in_bounds:
  assumes sound: "sqlite_sound wd_sem s0 E" and ready: "wd_ready wd c"
    and ok: "wd_rows_ok (sq_view (sq_replay wd_sem s0 tr) c)"
    and cur: "sq_cur (sq_replay wd_sem s0 tr) (fetch_stmt c) = None"
    and bounds: "unat (wl_offset wl) < 2 ^ 63" "unat (wl_count wl) < 2 ^ 63"
  shows "fst (hpssix_workdata_dispatch E (Some wd) (Some wl) tr) \<noteq> UB"
proof -
  let ?st = "fetch_stmt c"
  let ?b1 = "env_sqlite3_bind E tr (Some ?st) 1"
  let ?tr1 = "EvSqBindInt (Some ?st) 1 (wl_offset wl) ?b1 # tr"
  let ?b2 = "env_sqlite3_bind E ?tr1 (Some ?st) 2"
  let ?tr2 = "EvSqBindInt (Some ?st) 2 (wl_count wl) ?b2 # ?tr1"
  let ?rs = "wd_slice wl (map (drop 1) (sq_view (sq_replay wd_sem s0 tr) c))"
  note run = hpssix_workdata_dispatch_def wd_stmts [OF ready] Let_def bind_io_apply then_io_apply
    sqlite3_bind_int64_def alloc_def sqlite3_reset_def if_distribR
  show ?thesis
  proof (cases "?b1 = 0 \<and> ?b2 = 0")
    case False
    then show ?thesis by (auto simp: run)
  next
    case True
    then have binds: "env_sqlite3_bind E tr (Some ?st) (Suc 0) = 0"
      "env_sqlite3_bind E (EvSqBindInt (Some ?st) (Suc 0) (wl_offset wl) 0 # tr) (Some ?st) 2 = 0"
      by (metis One_nat_def)+
    have left: "sq_left wd_sem (sq_replay wd_sem s0 ?tr2) ?st = ?rs"
      using cur binds by (simp add: sq_left_def limit_rows_eq [OF bounds] wd_slice_def slice_map)
    have rs: "\<forall>x\<in>set ?rs. fetched_ok x" "length ?rs \<le> unat (wl_count wl)"
      using ok set_slice [of "unat (wl_offset wl)" "unat (wl_count wl)"]
      by (fastforce simp: wd_slice_def slice_map wd_rows_ok_def length_slice
          intro!: wd_row_ok_fetched [unfolded One_nat_def])+
    obtain tr3 where same: "sq_replay wd_sem s0 tr3 = sq_replay wd_sem s0 ?tr2"
      and step: "step_retry (env_fuel E) E (Some ?st) ?tr2 = (Spin, tr3) \<or>
        (\<exists>r. r \<noteq> SQLITE_BUSY \<and> env_sqlite3_step E tr3 (Some ?st) = r \<and>
           step_retry (env_fuel E) E (Some ?st) ?tr2 = (Ret r, EvSqStep (Some ?st) r # tr3))"
      using step_retry_any [of wd_sem s0 ?tr2 "env_fuel E" E ?st] by blast
    have loop: "env_sqlite3_step E tr3 (Some ?st) = SQLITE_ROW \<Longrightarrow>
        \<exists>res tr'. dispatch_loop E (Some ?st) (unat (wl_count wl)) []
          (EvSqStep (Some ?st) SQLITE_ROW # tr3) = (Ret res, tr')"
      using dispatch_loop_defined [OF sound _ _ rs] left same by presburger
    show ?thesis
    proof (cases "env_sqlite3_step E tr3 (Some ?st) = SQLITE_ROW")
      case True
      then obtain res tr' where "dispatch_loop E (Some ?st) (unat (wl_count wl)) []
          (EvSqStep (Some ?st) SQLITE_ROW # tr3) = (Ret res, tr')"
        using loop by blast
      then show ?thesis
        using True step binds by (cases res) (auto simp: run split: if_splits)
    next
      case False
      then show ?thesis
        using step binds by (auto simp: run)
    qed
  qed
qed

theorem workdata_dispatch_in_bounds_witness:
  "fst (hpssix_workdata_dispatch (ref_sqlite wd_sem sq_empty quiet_env)
     (Some (workdata_zero\<lparr>wd_tmpdb := tmpdb_zero\<lparr>tmpdb_conn := Some 1, n_sql := 3,
        tmpdb_stmt := Some [append_stmt 1, count_stmt 1, fetch_stmt 1]\<rparr>\<rparr>))
     (Some \<lparr>wl_offset = 0, wl_count = 2, wl_objects = None\<rparr>) []) \<noteq> UB"
proof (rule workdata_dispatch_in_bounds [where c = 1])
  show "sqlite_sound wd_sem sq_empty (ref_sqlite wd_sem sq_empty quiet_env)"
    by (rule ref_sqlite_sound)
qed (simp_all add: wd_ready_def prepared_def workdata_sqls_def workdata_zero_def tmpdb_zero_def
      append_stmt_def count_stmt_def fetch_stmt_def sq_empty_def sq_view_def wd_rows_ok_def)

section \<open>A queue\<close>

text \<open>
  The contract of the work list towards its two clients, the builder that fills it
  and the extractor that reads it in parts: items are kept in the order of
  arrival, and a part is fetched by position.
\<close>

locale work_queue =
  fixes holds :: "'w \<Rightarrow> 'i list \<Rightarrow> bool"
    and enqueue :: "'i \<Rightarrow> ('w, int) prog"
    and total :: "('w, int \<times> u64 option) prog"
    and fetch :: "u64 \<Rightarrow> u64 \<Rightarrow> ('w, int \<times> 'i list option) prog"
  assumes enqueue_law: "holds w xs \<Longrightarrow> \<exists>w'. enqueue x w = (Ret 0, w') \<and> holds w' (xs @ [x])"
    and total_law: "holds w xs \<Longrightarrow> \<exists>w'. total w = (Ret (0, Some (of_nat (length xs))), w') \<and> holds w' xs"
    and fetch_law: "holds w xs \<Longrightarrow> unat off < 2 ^ 63 \<Longrightarrow> unat n < 2 ^ 63 \<Longrightarrow>
      slice (unat off) (unat n) xs \<noteq> [] \<Longrightarrow>
      \<exists>w'. fetch off n w = (Ret (0, Some (slice (unat off) (unat n) xs)), w') \<and> holds w' xs"
begin

lemma enqueue_all_law:
  "holds w ys \<Longrightarrow> \<exists>w'. for_each enqueue xs w = (Ret 0, w') \<and> holds w' (ys @ xs)"
proof (induction xs arbitrary: w ys)
  case Nil
  then show ?case by simp
next
  case (Cons x xs)
  obtain w1 where "enqueue x w = (Ret 0, w1)" "holds w1 (ys @ [x])"
    using enqueue_law [OF Cons.prems] by blast
  moreover obtain w2 where "for_each enqueue xs w1 = (Ret 0, w2)" "holds w2 ((ys @ [x]) @ xs)"
    using Cons.IH calculation(2) by blast
  ultimately show ?case by (simp add: bind_io_Ret)
qed

text \<open>Fetching parts one after the other.\<close>

lemma fetch_parts_law:
  assumes "holds w xs"
    and "\<forall>p\<in>set ps. unat (fst p) < 2 ^ 63 \<and> unat (snd p) < 2 ^ 63 \<and>
      slice (unat (fst p)) (unat (snd p)) xs \<noteq> []"
  shows "\<exists>w'. map_io (\<lambda>p. fetch (fst p) (snd p)) ps w
      = (Ret (map (\<lambda>p. (0, Some (slice (unat (fst p)) (unat (snd p)) xs))) ps), w') \<and> holds w' xs"
  using assms
proof (induction ps arbitrary: w)
  case Nil
  then show ?case by simp
next
  case (Cons p ps)
  obtain w1 where 1: "fetch (fst p) (snd p) w
      = (Ret (0, Some (slice (unat (fst p)) (unat (snd p)) xs)), w1)" "holds w1 xs"
    using fetch_law [OF Cons.prems(1), of "fst p" "snd p"] Cons.prems(2) by auto
  obtain w2 where "map_io (\<lambda>p. fetch (fst p) (snd p)) ps w1
      = (Ret (map (\<lambda>p. (0, Some (slice (unat (fst p)) (unat (snd p)) xs))) ps), w2)" "holds w2 xs"
    using Cons.IH [OF 1(2)] Cons.prems(2) by auto
  with 1 show ?case by (simp add: bind_io_Ret)
qed

end

definition wd_fetch ::
  "env \<Rightarrow> hpssix_workdata \<Rightarrow> u64 \<Rightarrow> u64 \<Rightarrow> (int \<times> hpssix_workdata_object list option) io" where
  "wd_fetch E wd off n =
     bind_io (hpssix_workdata_dispatch E (Some wd)
                (Some \<lparr>wl_offset = off, wl_count = n, wl_objects = None\<rparr>)) (\<lambda>(ret, l).
     return_io (ret, case l of Some wl \<Rightarrow> wl_objects wl | None \<Rightarrow> None))"

definition wd_append :: "env \<Rightarrow> hpssix_workdata \<Rightarrow> hpssix_workdata_object \<Rightarrow> int io" where
  "wd_append E wd x = hpssix_workdata_append E (Some wd) (object_id x) (Some (obj_path x))"

interpretation wdq: work_queue "wd_queue E s0 wd c" "wd_append E wd"
  "hpssix_workdata_get_total_count E (Some wd)" "wd_fetch E wd"
  for E s0 wd c
proof (unfold_locales, goal_cases)
  case (1 w xs x)
  then show ?case unfolding wd_append_def using wd_queue_append by blast
next
  case (2 w xs)
  then show ?case by (rule wd_queue_total_count)
next
  case (3 w xs off n)
  then show ?case
    using wd_queue_dispatch [OF 3(1), of "\<lparr>wl_offset = off, wl_count = n, wl_objects = None\<rparr>"]
    by (auto simp: wd_fetch_def wd_slice_def bind_io_apply)
qed

interpretation wd_open: prepared_store workdata_sqls
  "\<lambda>E (wd, name, mode). bind_io (hpssix_workdata_open_mode E (Some wd) (Some name) mode)
     (\<lambda>(r, w). return_io (r, map_option wd_tmpdb w))"
  using workdata_open_prepares
  by unfold_locales (auto simp: bind_io_eq_Ret_iff wd_ready_def)

section \<open>Properties\<close>

lemma workdata_create_queue:
  assumes "sqlite_live wd_sem s0 E" and "sqlite_sound wd_sem s0 E"
  shows "\<exists>wd' c tr'. hpssix_workdata_create E (Some wd) (Some name) tr = (Ret (0, Some wd'), tr') \<and>
     wd_queue E s0 wd' c tr' [] \<and> sq_path (sq_replay wd_sem s0 tr') c = name"
  using workdata_open_mode_run [OF assms(1), of wd name True tr] assms
  by (fastforce simp: hpssix_workdata_create_def wd_queue_def Let_def wd_rows_ok_def wd_items_def)

text \<open>A transaction around appends: its end makes the rows the content of the file.\<close>

lemma workdata_begin_queue:
  assumes "wd_queue E s0 wd c tr items"
  shows "\<exists>tr'. hpssix_workdata_begin_transaction E wd tr = (Ret 0, tr') \<and> wd_queue E s0 wd c tr' items \<and>
     sq_txn (sq_replay wd_sem s0 tr') c \<noteq> None \<and>
     sq_path (sq_replay wd_sem s0 tr') = sq_path (sq_replay wd_sem s0 tr)"
proof -
  have q: "sqlite_live wd_sem s0 E" "prepared (wd_tmpdb wd) c workdata_sqls"
    using assms by (simp_all add: wd_queue_def wd_ready_def Let_def)
  have "hpssix_workdata_begin_transaction E wd tr = (Ret 0, EvSqExec c sql_begin 0 # tr)"
    by (simp add: hpssix_workdata_begin_transaction_def hpssix_tmpdb_begin_transaction_def
        prepared_exec [OF q(2)] live_calls [OF q(1)])
  moreover have "wd_queue E s0 wd c (EvSqExec c sql_begin 0 # tr) items"
    using assms by (simp add: wd_queue_def Let_def sq_view_def)
  ultimately show ?thesis by auto
qed

lemma workdata_end_queue:
  assumes "wd_queue E s0 wd c tr items"
  shows "\<exists>tr'. hpssix_workdata_end_transaction E wd tr = (Ret 0, tr') \<and>
     wd_rows_ok (sq_file (sq_replay wd_sem s0 tr') (sq_path (sq_replay wd_sem s0 tr) c)) \<and>
     wd_items (sq_file (sq_replay wd_sem s0 tr') (sq_path (sq_replay wd_sem s0 tr) c)) = items"
proof -
  have q: "sqlite_live wd_sem s0 E" "prepared (wd_tmpdb wd) c workdata_sqls"
    using assms by (simp_all add: wd_queue_def wd_ready_def Let_def)
  have "hpssix_workdata_end_transaction E wd tr = (Ret 0, EvSqExec c sql_end 0 # tr)"
    by (simp add: hpssix_workdata_end_transaction_def hpssix_tmpdb_end_transaction_def
        prepared_exec [OF q(2)] live_calls [OF q(1)])
  then show ?thesis
    using assms by (auto simp: wd_queue_def Let_def)
qed

lemma workdata_open_queue:
  assumes "sqlite_live wd_sem s0 E" and "sqlite_sound wd_sem s0 E"
    and "wd_rows_ok (sq_file (sq_replay wd_sem s0 tr) name)"
  shows "\<exists>wd' c tr'. hpssix_workdata_open E (Some wd) (Some name) tr = (Ret (0, Some wd'), tr') \<and>
     wd_queue E s0 wd' c tr' (wd_items (sq_file (sq_replay wd_sem s0 tr) name))"
  using workdata_open_mode_run [OF assms(1), of wd name False tr] assms
  by (fastforce simp: hpssix_workdata_open_def wd_queue_def Let_def)

text \<open>
  C1: the work list is a queue.  With a working SQLite, creating a work list,
  appending any objects, asking for the count and dispatching a part gives back
  exactly the number appended and exactly that part, in the order of the appends;
  the list reports the number of objects it really holds.
\<close>

theorem workdata_roundtrip:
  assumes "sqlite_live wd_sem s0 E" and "sqlite_sound wd_sem s0 E"
    and "unat off < 2 ^ 63" and "unat n < 2 ^ 63" and "slice (unat off) (unat n) items \<noteq> []"
  shows "\<exists>wd tr1 tr2 tr3 tr4.
     hpssix_workdata_create E (Some workdata_zero) (Some name) tr = (Ret (0, Some wd), tr1) \<and>
     for_each (\<lambda>x. hpssix_workdata_append E (Some wd) (object_id x) (Some (obj_path x))) items tr1
       = (Ret 0, tr2) \<and>
     hpssix_workdata_get_total_count E (Some wd) tr2 = (Ret (0, Some (of_nat (length items))), tr3) \<and>
     hpssix_workdata_dispatch E (Some wd)
       (Some \<lparr>wl_offset = off, wl_count = n, wl_objects = None\<rparr>) tr3
       = (Ret (0, Some \<lparr>wl_offset = off,
                        wl_count = of_nat (length (slice (unat off) (unat n) items)),
                        wl_objects = Some (slice (unat off) (unat n) items)\<rparr>), tr4)"
proof -
  obtain wd c tr1 where 1: "hpssix_workdata_create E (Some workdata_zero) (Some name) tr
      = (Ret (0, Some wd), tr1)" "wd_queue E s0 wd c tr1 []"
    using workdata_create_queue [OF assms(1,2)] by blast
  obtain tr2 where 2: "for_each (wd_append E wd) items tr1 = (Ret 0, tr2)"
    "wd_queue E s0 wd c tr2 items"
    using wdq.enqueue_all_law [OF 1(2), of items] by auto
  obtain tr3 where 3: "hpssix_workdata_get_total_count E (Some wd) tr2
      = (Ret (0, Some (of_nat (length items))), tr3)" "wd_queue E s0 wd c tr3 items"
    using wdq.total_law [OF 2(2)] by blast
  obtain tr4 where "hpssix_workdata_dispatch E (Some wd)
       (Some \<lparr>wl_offset = off, wl_count = n, wl_objects = None\<rparr>) tr3
       = (Ret (0, Some \<lparr>wl_offset = off,
                        wl_count = of_nat (length (slice (unat off) (unat n) items)),
                        wl_objects = Some (slice (unat off) (unat n) items)\<rparr>), tr4)"
    using wd_queue_dispatch [OF 3(2), of "\<lparr>wl_offset = off, wl_count = n, wl_objects = None\<rparr>"]
      assms(3-5) by (auto simp: wd_slice_def)
  then show ?thesis
    using 1(1) 2(1) 3(1) unfolding wd_append_def [abs_def] by blast
qed

theorem workdata_roundtrip_witness:
  "\<exists>wd tr1 tr2 tr3 tr4.
     hpssix_workdata_create (ref_sqlite wd_sem sq_empty quiet_env) (Some workdata_zero) (Some ''w.db'') []
       = (Ret (0, Some wd), tr1) \<and>
     for_each (\<lambda>x. hpssix_workdata_append (ref_sqlite wd_sem sq_empty quiet_env) (Some wd)
         (object_id x) (Some (obj_path x)))
       [\<lparr>object_id = 4, obj_path = ''/a''\<rparr>, \<lparr>object_id = 9, obj_path = ''/b''\<rparr>] tr1 = (Ret 0, tr2) \<and>
     hpssix_workdata_get_total_count (ref_sqlite wd_sem sq_empty quiet_env) (Some wd) tr2
       = (Ret (0, Some 2), tr3) \<and>
     hpssix_workdata_dispatch (ref_sqlite wd_sem sq_empty quiet_env) (Some wd)
       (Some \<lparr>wl_offset = 1, wl_count = 5, wl_objects = None\<rparr>) tr3
       = (Ret (0, Some \<lparr>wl_offset = 1, wl_count = 1,
            wl_objects = Some [\<lparr>object_id = 9, obj_path = ''/b''\<rparr>]\<rparr>), tr4)"
  using workdata_roundtrip [OF ref_sqlite_live ref_sqlite_sound, of 1 5
      "[\<lparr>object_id = 4, obj_path = ''/a''\<rparr>, \<lparr>object_id = 9, obj_path = ''/b''\<rparr>]"
      sq_empty quiet_env "''w.db''" "[]"]
  by (simp add: slice_def)

end
