(* ===== verification/Hpssix_Mdb.thy ===== *)
theory Hpssix_Mdb
  imports Hpssix_Tmpdb
begin

text \<open>
  The master database (hpssix-mdb.h, hpssix-mdb.c): one row per finished scan, from
  which the scanner learns where the next scan starts.  \<open>mdb_sem\<close> is the meaning of
  the SQL texts of the file.  The properties: a recorded status comes back as the
  newest entry of the history with every field intact, the last successful scan
  is found, and reading the history stays inside the caller's array.
\<close>

section \<open>SQL texts\<close>

definition mdb_schema :: string where
  "mdb_schema = ''-- hpssix-mdb-schema.sql'' @ [NL, NL] @
     ''begin transaction;'' @ [NL, NL] @
     ''drop table if exists hpssix_mdb;'' @ [NL, NL] @
     ''create table hpssix_mdb ('' @ [NL] @
     ''    id integer primary key,'' @ [NL] @
     ''    oid_start integer not null,'' @ [NL] @
     ''    oid_end integer not null,'' @ [NL] @
     ''    scanner_start integer,'' @ [NL] @
     ''    builder_start integer,'' @ [NL] @
     ''    extractor_start integer,'' @ [NL] @
     ''    extractor_end integer,'' @ [NL] @
     ''    n_scanned integer,'' @ [NL] @
     ''    n_deleted integer,'' @ [NL] @
     ''    n_indexed integer,'' @ [NL] @
     ''    n_extracted integer,'' @ [NL] @
     ''    status integer'' @ [NL] @
     '');'' @ [NL, NL] @
     ''end transaction;'' @ [NL]"

definition mdb_sql_record :: string where
  "mdb_sql_record = ''insert into hpssix_mdb (oid_start, oid_end,'' @ [NL] @
     ''scanner_start, builder_start, extractor_start, extractor_end,'' @ [NL] @
     ''n_scanned, n_deleted, n_indexed, n_extracted, status)'' @ [NL] @
     ''values (?,?,?,?,?,?,?,?,?,?,?)''"

definition mdb_sql_last_oid :: string where
  "mdb_sql_last_oid = ''select max(oid_end) from hpssix_mdb where status=0''"

definition mdb_sql_last_status :: string where
  "mdb_sql_last_status = ''select oid_end, scanner_start from hpssix_mdb'' @ [NL] @
     ''where status=0 order by id desc limit 1''"

definition mdb_sql_fetch_record :: string where
  "mdb_sql_fetch_record = ''select id,oid_start,oid_end,'' @ [NL] @
     ''scanner_start,builder_start,extractor_start,extractor_end,'' @ [NL] @
     ''n_scanned,n_deleted,n_indexed,n_extracted,status'' @ [NL] @
     ''from hpssix_mdb order by id desc limit ?,?''"

definition mdb_sqls :: "string list" where
  "mdb_sqls = [mdb_sql_record, mdb_sql_last_oid, mdb_sql_last_status, mdb_sql_fetch_record]"

definition mdb_name :: string where
  "mdb_name = ''hpssix.mdb.db''"

abbreviation (input) HPSSIX_MDB_SQL_RECORD :: nat where "HPSSIX_MDB_SQL_RECORD \<equiv> 0"
abbreviation (input) HPSSIX_MDB_SQL_LAST_OID :: nat where "HPSSIX_MDB_SQL_LAST_OID \<equiv> 1"
abbreviation (input) HPSSIX_MDB_SQL_LAST_STAUS :: nat where "HPSSIX_MDB_SQL_LAST_STAUS \<equiv> 2"
abbreviation (input) HPSSIX_MDB_SQL_FETCH_RECORD :: nat where "HPSSIX_MDB_SQL_FETCH_RECORD \<equiv> 3"

section \<open>Data\<close>

record hpssix_mdb =
  mdb_config :: hpssix_config
  mdb_db :: hpssix_tmpdb

record hpssix_work_status =
  ws_id :: u64
  oid_start :: u64
  oid_end :: u64
  scanner_start :: u64
  builder_start :: u64
  extractor_start :: u64
  extractor_end :: u64
  n_scanned :: u64
  n_deleted :: u64
  n_indexed :: u64
  n_extracted :: u64
  ws_status :: u32

definition work_status_zero :: hpssix_work_status where
  "work_status_zero = \<lparr>ws_id = 0, oid_start = 0, oid_end = 0, scanner_start = 0, builder_start = 0,
     extractor_start = 0, extractor_end = 0, n_scanned = 0, n_deleted = 0, n_indexed = 0,
     n_extracted = 0, ws_status = 0\<rparr>"

definition mdb_zero :: hpssix_mdb where
  "mdb_zero = \<lparr>mdb_config = config_zero, mdb_db = tmpdb_zero\<rparr>"

section \<open>Operations\<close>

text \<open>A \<open>stat\<close> that fails for another reason than a missing file makes open return -1.\<close>

definition hpssix_mdb_open :: "env \<Rightarrow> hpssix_mdb option \<Rightarrow> (int \<times> hpssix_mdb option) io" where
  "hpssix_mdb_open E mdb = (case mdb of
     None \<Rightarrow> return_io (EINVAL, None)
   | Some m \<Rightarrow>
       bind_io (hpssix_config_read_sysconf E (Some (mdb_config m))) (\<lambda>(ret, config).
       let m1 = m\<lparr>mdb_config := case config of Some c \<Rightarrow> c | None \<Rightarrow> mdb_config m\<rparr> in
       if ret \<noteq> 0 then return_io (ret, Some m1)
       else bind_io (lift_io (sprintf_buf PATH_MAX ''%s/%s''
              [PStr (Some (hpssix_get_work_root E)), PStr (Some mdb_name)])) (\<lambda>path.
         bind_io (c_stat E path) (\<lambda>r.
         if (case r of Inl e \<Rightarrow> e \<noteq> ENOENT | Inr _ \<Rightarrow> False) then return_io (- 1, Some m1)
         else bind_io (hpssix_tmpdb_open E
                (Some (tmpdb_zero\<lparr>dbpath := path, schema := Some mdb_schema,
                   n_sql := 4, sqlstr := mdb_sqls\<rparr>)) (isl r)) (\<lambda>(ret, db).
           return_io (ret, Some (m1\<lparr>mdb_db := case db of Some d \<Rightarrow> d | None \<Rightarrow> mdb_db m1\<rparr>)))))))"

definition hpssix_mdb_close :: "hpssix_mdb option \<Rightarrow> int io" where
  "hpssix_mdb_close mdb = (case mdb of
     None \<Rightarrow> return_io 0
   | Some m \<Rightarrow> then_io (hpssix_tmpdb_close (Some (mdb_db m))) (return_io 0))"

text \<open>\<open>ret |= sqlite3_bind_int64(...)\<close> for the columns from \<open>i\<close> on: true when one failed.\<close>

fun bind_all :: "env \<Rightarrow> sqlite3_stmt option \<Rightarrow> nat \<Rightarrow> u64 list \<Rightarrow> bool \<Rightarrow> bool io" where
  "bind_all E stmt i [] bad = return_io bad"
| "bind_all E stmt i (v # vs) bad =
     bind_io (sqlite3_bind_int64 E stmt i v) (\<lambda>ret. bind_all E stmt (Suc i) vs (bad \<or> ret \<noteq> 0))"

definition hpssix_mdb_record :: "env \<Rightarrow> hpssix_mdb option \<Rightarrow> hpssix_work_status option \<Rightarrow> int io" where
  "hpssix_mdb_record E mdb status = (case (mdb, status) of
     (Some m, Some ws) \<Rightarrow>
       (let tmpdb = mdb_db m; stmt = hpssix_tmpdb_stmt_get (Some tmpdb) HPSSIX_MDB_SQL_RECORD in
        bind_io (bind_all E stmt 1
           [oid_start ws, oid_end ws, scanner_start ws, builder_start ws, extractor_start ws,
            extractor_end ws, n_scanned ws, n_deleted ws, n_indexed ws, n_extracted ws,
            scast (ws_status ws)] False) (\<lambda>bad.
        if bad then then_io (sqlite3_reset stmt) (return_io EIO)
        else then_io (hpssix_tmpdb_begin_transaction E (Some tmpdb))
         (bind_io (step_retry (env_fuel E) E stmt) (\<lambda>ret.
          if ret = SQLITE_DONE
          then then_io (hpssix_tmpdb_end_transaction E (Some tmpdb))
                 (then_io (sqlite3_reset stmt) (return_io 0))
          else then_io (hpssix_tmpdb_rollback_transaction E (Some tmpdb))
                 (then_io (sqlite3_reset stmt) (return_io EIO))))))
   | _ \<Rightarrow> return_io EINVAL)"

text \<open>The second component is \<open>*oid\<close>: \<open>None\<close> when it was not written.\<close>

definition hpssix_mdb_get_last_scanned_oid ::
  "env \<Rightarrow> hpssix_mdb option \<Rightarrow> (int \<times> u64 option) io" where
  "hpssix_mdb_get_last_scanned_oid E mdb = (case mdb of
     None \<Rightarrow> return_io (EINVAL, None)
   | Some m \<Rightarrow>
       (let stmt = hpssix_tmpdb_stmt_get (Some (mdb_db m)) HPSSIX_MDB_SQL_LAST_OID in
        bind_io (step_retry (env_fuel E) E stmt) (\<lambda>ret.
        if ret = SQLITE_ROW then
          bind_io (sqlite3_column_int64 E stmt 0) (\<lambda>oid.
          then_io (sqlite3_reset stmt) (return_io (0, Some oid)))
        else if ret = SQLITE_DONE then
          then_io (sqlite3_reset stmt) (return_io (0, Some (first_oid (mdb_config m))))
        else then_io (sqlite3_reset stmt) (return_io (EIO, None)))))"

definition hpssix_mdb_get_last_scanned_status ::
  "env \<Rightarrow> hpssix_mdb option \<Rightarrow> (int \<times> (u64 \<times> u64) option) io" where
  "hpssix_mdb_get_last_scanned_status E mdb = (case mdb of
     None \<Rightarrow> return_io (EINVAL, None)
   | Some m \<Rightarrow>
       (let stmt = hpssix_tmpdb_stmt_get (Some (mdb_db m)) HPSSIX_MDB_SQL_LAST_STAUS in
        bind_io (step_retry (env_fuel E) E stmt) (\<lambda>ret.
        if ret = SQLITE_ROW then
          bind_io (sqlite3_column_int64 E stmt 0) (\<lambda>oid.
          bind_io (sqlite3_column_int64 E stmt 1) (\<lambda>ts.
          then_io (sqlite3_reset stmt) (return_io (0, Some (oid, ts)))))
        else if ret = SQLITE_DONE then
          then_io (sqlite3_reset stmt) (return_io (0, Some (0, 0)))
        else then_io (sqlite3_reset stmt) (return_io (EIO, None)))))"

definition read_status :: "env \<Rightarrow> sqlite3_stmt option \<Rightarrow> hpssix_work_status io" where
  "read_status E stmt =
     bind_io (map_io (sqlite3_column_int64 E stmt) [0..<12]) (\<lambda>v.
     return_io \<lparr>ws_id = v ! 0, oid_start = v ! 1, oid_end = v ! 2, scanner_start = v ! 3,
       builder_start = v ! 4, extractor_start = v ! 5, extractor_end = v ! 6, n_scanned = v ! 7,
       n_deleted = v ! 8, n_indexed = v ! 9, n_extracted = v ! 10, ws_status = ucast (v ! 11)\<rparr>)"

text \<open>\<open>fill_history\<close> with \<open>k\<close> entries left in the caller's array: the result and what was stored.\<close>

fun fill_history ::
  "env \<Rightarrow> sqlite3_stmt option \<Rightarrow> nat \<Rightarrow> hpssix_work_status list \<Rightarrow>
   (int \<times> hpssix_work_status list) io" where
  "fill_history E stmt 0 acc = undef_io"
| "fill_history E stmt (Suc k) acc =
     bind_io (read_status E stmt) (\<lambda>tmp.
     bind_io (sqlite3_step E stmt) (\<lambda>ret.
     if ret = SQLITE_ROW then fill_history E stmt k (acc @ [tmp])
     else return_io (if ret = SQLITE_DONE then 0 else EIO, acc @ [tmp])))"

text \<open>
  \<open>status\<close> is the size of the caller's array, \<open>None\<close> for NULL.  The result is the
  return value and, when \<open>*outlen\<close> was written, the entries stored (\<open>*outlen\<close> is
  their number).  Whatever happened after the argument check, 0 is returned.
\<close>

definition hpssix_mdb_fetch_history ::
  "env \<Rightarrow> hpssix_mdb option \<Rightarrow> u64 \<Rightarrow> u64 \<Rightarrow> nat option \<Rightarrow>
   (int \<times> hpssix_work_status list option) io" where
  "hpssix_mdb_fetch_history E mdb offset len status = (case (mdb, status) of
     (Some m, Some cap) \<Rightarrow>
       (let stmt = hpssix_tmpdb_stmt_get (Some (mdb_db m)) HPSSIX_MDB_SQL_FETCH_RECORD in
        bind_io (bind_all E stmt 1 [offset, len] False) (\<lambda>bad.
        if bad then then_io (sqlite3_reset stmt) (return_io (0, None))
        else bind_io (step_retry (env_fuel E) E stmt) (\<lambda>ret.
          bind_io (if ret = SQLITE_ROW then
                     bind_io (fill_history E stmt cap []) (\<lambda>(_, l). return_io (Some l))
                   else if ret = SQLITE_DONE then return_io (Some [])
                   else return_io None) (\<lambda>out.
          then_io (sqlite3_reset stmt) (return_io (0, out))))))
   | _ \<Rightarrow> return_io (EINVAL, None))"

section \<open>What the SQL texts mean\<close>

text \<open>
  The table is kept in the order of its ids, so \<open>order by id desc\<close> is the reverse.
  An aggregate without \<open>group by\<close> always delivers one row: \<open>max\<close> of nothing is NULL.
\<close>

definition col :: "row \<Rightarrow> nat \<Rightarrow> sqlval" where
  "col r i = (if i < length r then r ! i else SNull)"

definition sql_max2 :: "sqlval \<Rightarrow> sqlval \<Rightarrow> sqlval" where
  "sql_max2 v m = (case v of
     SInt a \<Rightarrow> (case m of SInt b \<Rightarrow> if sint a < sint b then SInt b else SInt a | _ \<Rightarrow> SInt a)
   | _ \<Rightarrow> m)"

definition sql_max :: "sqlval list \<Rightarrow> sqlval" where
  "sql_max vs = foldr sql_max2 vs SNull"

definition succeeded :: "row list \<Rightarrow> row list" where
  "succeeded rows = filter (\<lambda>r. col r 11 = SInt 0) rows"

definition mdb_sem :: "string \<Rightarrow> sql_sem" where
  "mdb_sem sql =
     (if sql = mdb_schema then SemCreate
      else if sql = mdb_sql_record then SemInsert 11
      else if sql = mdb_sql_last_oid then
        SemSelect (\<lambda>rows b. [[sql_max (map (\<lambda>r. col r 2) (succeeded rows))]])
      else if sql = mdb_sql_last_status then
        SemSelect (\<lambda>rows b. map (\<lambda>r. [col r 2, col r 3]) (take 1 (rev (succeeded rows))))
      else if sql = mdb_sql_fetch_record then
        SemSelect (\<lambda>rows b. limit_rows (b 1) (b 2) (rev rows))
      else if sql = sql_begin then SemBegin
      else if sql = sql_end then SemEnd
      else if sql = sql_rollback then SemRollback
      else SemNone)"

lemma mdb_sem_simps [simp]:
  "mdb_sem mdb_schema = SemCreate"
  "mdb_sem mdb_sql_record = SemInsert 11"
  "mdb_sem mdb_sql_last_oid
     = SemSelect (\<lambda>rows b. [[sql_max (map (\<lambda>r. col r 2) (succeeded rows))]])"
  "mdb_sem mdb_sql_last_status
     = SemSelect (\<lambda>rows b. map (\<lambda>r. [col r 2, col r 3]) (take 1 (rev (succeeded rows))))"
  "mdb_sem mdb_sql_fetch_record = SemSelect (\<lambda>rows b. limit_rows (b 1) (b 2) (rev rows))"
  "mdb_sem sql_begin = SemBegin" "mdb_sem sql_end = SemEnd" "mdb_sem sql_rollback = SemRollback"
  by (simp_all add: mdb_sem_def mdb_schema_def mdb_sql_record_def mdb_sql_last_oid_def
      mdb_sql_last_status_def mdb_sql_fetch_record_def sql_begin_def sql_end_def sql_rollback_def)

definition mdb_row :: "hpssix_work_status \<Rightarrow> row" where
  "mdb_row ws = [SInt (ws_id ws), SInt (oid_start ws), SInt (oid_end ws), SInt (scanner_start ws),
     SInt (builder_start ws), SInt (extractor_start ws), SInt (extractor_end ws),
     SInt (n_scanned ws), SInt (n_deleted ws), SInt (n_indexed ws), SInt (n_extracted ws),
     SInt (scast (ws_status ws))]"

definition mdb_stmt :: "nat \<Rightarrow> string \<Rightarrow> sqlite3_stmt" where
  "mdb_stmt c sql = \<lparr>st_conn = c, st_sql = sql\<rparr>"

lemma mdb_stmt_sel [simp]: "st_conn (mdb_stmt c sql) = c" "st_sql (mdb_stmt c sql) = sql"
  by (simp_all add: mdb_stmt_def)

lemma mdb_stmt_eq [simp]: "mdb_stmt c a = mdb_stmt d b \<longleftrightarrow> c = d \<and> a = b"
  by (simp add: mdb_stmt_def)

lemma mdb_sql_neq [simp]:
  "mdb_sql_last_oid \<noteq> mdb_sql_record" "mdb_sql_last_status \<noteq> mdb_sql_record"
  "mdb_sql_fetch_record \<noteq> mdb_sql_record" "mdb_sql_last_oid \<noteq> mdb_sql_last_status"
  "mdb_sql_last_oid \<noteq> mdb_sql_fetch_record" "mdb_sql_last_status \<noteq> mdb_sql_fetch_record"
  by (simp_all add: mdb_sql_record_def mdb_sql_last_oid_def mdb_sql_last_status_def
      mdb_sql_fetch_record_def)

lemmas mdb_sql_neq' [simp] = mdb_sql_neq [symmetric]

definition mdb_ready :: "hpssix_mdb \<Rightarrow> nat \<Rightarrow> bool" where
  "mdb_ready m c \<longleftrightarrow> prepared (mdb_db m) c mdb_sqls"

lemma mdb_stmts:
  assumes "mdb_ready m c"
  shows "hpssix_tmpdb_stmt_get (Some (mdb_db m)) 0 = Some (mdb_stmt c mdb_sql_record)"
    "hpssix_tmpdb_stmt_get (Some (mdb_db m)) (Suc 0) = Some (mdb_stmt c mdb_sql_last_oid)"
    "hpssix_tmpdb_stmt_get (Some (mdb_db m)) 2 = Some (mdb_stmt c mdb_sql_last_status)"
    "hpssix_tmpdb_stmt_get (Some (mdb_db m)) 3 = Some (mdb_stmt c mdb_sql_fetch_record)"
  using assms
  by (simp_all add: mdb_ready_def prepared_stmt_get mdb_sqls_def mdb_stmt_def numeral_3_eq_3)

section \<open>The history\<close>

text \<open>
  What a connection knows of the master database: SQLite serves the statements of
  an opened handle, the table holds the statuses \<open>hist\<close>, oldest first, no query is
  under way and no transaction is open.
\<close>

definition mdb_holds ::
  "env \<Rightarrow> sqstate \<Rightarrow> hpssix_mdb \<Rightarrow> nat \<Rightarrow> trace \<Rightarrow> hpssix_work_status list \<Rightarrow> bool" where
  "mdb_holds E s0 m c tr hist \<longleftrightarrow>
     (let s = sq_replay mdb_sem s0 tr in
      sqlite_live mdb_sem s0 E \<and> sqlite_sound mdb_sem s0 E \<and> mdb_ready m c \<and>
      sq_view s c = map mdb_row hist \<and> sq_txn s c = None \<and>
      sq_cur s (mdb_stmt c mdb_sql_last_oid) = None \<and>
      sq_cur s (mdb_stmt c mdb_sql_last_status) = None \<and>
      sq_cur s (mdb_stmt c mdb_sql_fetch_record) = None)"

lemma bind_all_live:
  assumes "sqlite_live sem s0 E"
  shows "bind_all E (Some st) i vs bad tr
    = (Ret bad, rev (map (\<lambda>k. EvSqBindInt (Some st) (i + k) (vs ! k) 0) [0..<length vs]) @ tr)"
proof (induction vs arbitrary: i bad tr)
  case Nil
  then show ?case by simp
next
  case (Cons v vs)
  have "[0..<length (v # vs)] = 0 # map Suc [0..<length vs]"
    by (simp add: map_Suc_upt upt_conv_Cons del: upt_Suc)
  then show ?case
    by (simp add: bind_io_apply sqlite3_bind_int64_def live_calls [OF assms] Cons comp_def del: upt_Suc)
qed

declare bind_all.simps [simp del]

lemma map_io_columns:
  "(\<And>i. i \<in> set js \<Longrightarrow> env_sqlite3_column E tr st i = SInt (f i)) \<Longrightarrow>
     map_io (sqlite3_column_int64 E st) js tr = (Ret (map f js), tr)"
  by (induction js) (simp_all add: bind_io_apply sqlite3_column_int64_def)

lemma ucast_scast_status [simp]: "ucast (scast (x :: u32) :: u64) = x"
proof (rule bit_word_eqI)
  fix n
  assume "n < LENGTH(32)"
  then have "n < 31 \<or> n = 31" by auto
  then show "bit (ucast (scast x :: u64) :: u32) n \<longleftrightarrow> bit x n"
    by (auto simp: bit_ucast_iff bit_signed_iff min_def)
qed

lemma read_status_row:
  assumes "sqlite_sound sem s0 E" and "sq_row (sq_replay sem s0 tr) st = mdb_row ws"
  shows "read_status E (Some st) tr = (Ret ws, tr)"
proof -
  let ?f = "\<lambda>i. case mdb_row ws ! i of SInt v \<Rightarrow> v | _ \<Rightarrow> 0"
  have all_int: "\<forall>v\<in>set (mdb_row ws). \<exists>w. v = SInt w"
    by (simp add: mdb_row_def)
  have len: "length (mdb_row ws) = 12" by (simp add: mdb_row_def)
  have "env_sqlite3_column E tr (Some st) i = SInt (?f i)" if "i \<in> set [0..<12]" for i
  proof -
    have "env_sqlite3_column E tr (Some st) i = mdb_row ws ! i"
      using sound_column [OF assms(1), of i tr st] assms(2) len that by simp
    moreover have "\<exists>w. mdb_row ws ! i = SInt w"
      using all_int len that by simp
    ultimately show ?thesis by auto
  qed
  then have "map_io (sqlite3_column_int64 E (Some st)) [0..<12] tr = (Ret (map ?f [0..<12]), tr)"
    by (rule map_io_columns)
  then show ?thesis
    by (simp add: read_status_def bind_io_apply mdb_row_def)
qed

lemma fill_history_ok:
  assumes "sqlite_sound sem s0 E" and "sem (st_sql st) = SemSelect f"
    and "sq_cur (sq_replay sem s0 tr) st = Some (map mdb_row wss)"
    and "sq_row (sq_replay sem s0 tr) st = mdb_row ws" and "length wss < k"
  shows "\<exists>r res tr'. fill_history E (Some st) k acc tr = (Ret (r, res), tr') \<and>
     (\<exists>n. res = acc @ ws # take n wss) \<and>
     (sqlite_live sem s0 E \<longrightarrow> r = 0 \<and> res = acc @ ws # wss) \<and>
     sq_db (sq_replay sem s0 tr') = sq_db (sq_replay sem s0 tr) \<and>
     (\<forall>st'. st' \<noteq> st \<longrightarrow> sq_cur (sq_replay sem s0 tr') st' = sq_cur (sq_replay sem s0 tr) st')"
  using assms
proof (induction wss arbitrary: ws tr acc k)
  case Nil
  then obtain k' where k: "k = Suc k'" by (cases k) auto
  let ?ret = "env_sqlite3_step E tr (Some st)"
  have "?ret \<noteq> SQLITE_ROW"
    using sound_row [OF Nil.prems(1,2), of tr] Nil.prems(3) by (auto simp: sq_left_def)
  moreover have "sqlite_live sem s0 E \<longrightarrow> ?ret = SQLITE_DONE"
    using step_select_running [OF _ Nil.prems(1,2), of tr "[]"] Nil.prems(3) by auto
  ultimately show ?case
    using k Nil.prems(2) read_status_row [OF Nil.prems(1,4)]
    by (auto simp: bind_io_apply sqlite3_step_def sq_db_def)
next
  case (Cons w wss)
  then obtain k' where k: "k = Suc k'" by (cases k) auto
  let ?ret = "env_sqlite3_step E tr (Some st)" let ?tr1 = "EvSqStep (Some st) SQLITE_ROW # tr"
  have live: "sqlite_live sem s0 E \<longrightarrow> ?ret = SQLITE_ROW"
    using step_select_running [OF _ Cons.prems(1,2), of tr "map mdb_row (w # wss)"] Cons.prems(3)
    by auto
  note row = read_status_row [OF Cons.prems(1,4)]
  show ?case
  proof (cases "?ret = SQLITE_ROW")
    case False
    then have "fill_history E (Some st) k acc tr
        = (Ret (if ?ret = SQLITE_DONE then 0 else EIO, acc @ [ws]), EvSqStep (Some st) ?ret # tr)"
      using k row by (simp add: bind_io_apply sqlite3_step_def)
    then show ?thesis
      using False live Cons.prems(2)
      by (intro exI [of _ "if ?ret = SQLITE_DONE then 0 else EIO"] exI [of _ "acc @ [ws]"]
          exI [of _ "EvSqStep (Some st) ?ret # tr"] conjI)
        (auto simp: sq_db_def intro: exI [of _ 0])
  next
    case True
    have cur: "sq_cur (sq_replay sem s0 ?tr1) st = Some (map mdb_row wss)"
      and next_row: "sq_row (sq_replay sem s0 ?tr1) st = mdb_row w"
      using Cons.prems(2,3) by (simp_all add: sq_left_def)
    have len: "length wss < k'" using Cons.prems(5) k by simp
    obtain r res tr' n where IH: "fill_history E (Some st) k' (acc @ [ws]) ?tr1 = (Ret (r, res), tr')"
      "res = (acc @ [ws]) @ w # take n wss"
      "sqlite_live sem s0 E \<longrightarrow> r = 0 \<and> res = (acc @ [ws]) @ w # wss"
      "sq_db (sq_replay sem s0 tr') = sq_db (sq_replay sem s0 ?tr1)"
      "\<forall>st'. st' \<noteq> st \<longrightarrow> sq_cur (sq_replay sem s0 tr') st' = sq_cur (sq_replay sem s0 ?tr1) st'"
      using Cons.IH [OF Cons.prems(1,2) cur next_row len, of "acc @ [ws]"] by blast
    have "fill_history E (Some st) k acc tr = (Ret (r, res), tr')"
      using k row True IH(1) by (simp add: bind_io_apply sqlite3_step_def)
    moreover have "res = acc @ ws # take (Suc n) (w # wss)" using IH(2) by simp
    ultimately show ?thesis
      using IH(3-5) Cons.prems(2)
      by (intro exI [of _ r] exI [of _ res] exI [of _ tr'] conjI)
        (auto simp: sq_db_def intro: exI [of _ "Suc n"])
  qed
qed

lemma mdb_record_run:
  assumes "mdb_holds E s0 m c tr hist"
  shows "\<exists>tr'. hpssix_mdb_record E (Some m) (Some ws) tr = (Ret 0, tr') \<and>
     mdb_holds E s0 m c tr' (hist @ [ws\<lparr>ws_id := next_id (map mdb_row hist)\<rparr>])"
proof -
  let ?st = "mdb_stmt c mdb_sql_record"
  let ?vs = "[oid_start ws, oid_end ws, scanner_start ws, builder_start ws, extractor_start ws,
            extractor_end ws, n_scanned ws, n_deleted ws, n_indexed ws, n_extracted ws,
            scast (ws_status ws)] :: u64 list"
  let ?binds = "rev (map (\<lambda>k. EvSqBindInt (Some ?st) (1 + k) (?vs ! k) 0) [0..<length ?vs])"
  let ?tr1 = "EvSqExec c sql_begin 0 # ?binds @ tr"
  have q: "sqlite_live mdb_sem s0 E" "sqlite_sound mdb_sem s0 E" "mdb_ready m c"
    "prepared (mdb_db m) c mdb_sqls"
    using assms by (simp_all add: mdb_holds_def mdb_ready_def Let_def)
  obtain tr2 where step: "step_retry (env_fuel E) E (Some ?st) ?tr1
       = (Ret SQLITE_DONE, EvSqStep (Some ?st) SQLITE_DONE # tr2)"
    and same: "sq_replay mdb_sem s0 tr2 = sq_replay mdb_sem s0 ?tr1"
    using step_retry_insert [OF q(1,2), of ?st 11 ?tr1] by auto
  let ?tr3 = "EvSqReset (Some ?st) # EvSqExec c sql_end 0 # EvSqStep (Some ?st) SQLITE_DONE # tr2"
  have run: "hpssix_mdb_record E (Some m) (Some ws) tr = (Ret 0, ?tr3)"
    using step
    by (simp add: hpssix_mdb_record_def mdb_stmts [OF q(3)] Let_def bind_all_live [OF q(1)]
        bind_io_apply then_io_apply hpssix_tmpdb_begin_transaction_def
        hpssix_tmpdb_end_transaction_def prepared_exec [OF q(4)] live_calls [OF q(1)]
        sqlite3_reset_def del: upt_Suc)
  have "[Suc 0..<12] = [1, 2, 3, 4, 5, 6, 7, 8, 9, 10, 11]"
    by code_simp
  moreover have "sq_file (sq_replay mdb_sem s0 tr) (sq_path (sq_replay mdb_sem s0 tr) c) = map mdb_row hist"
    using assms by (auto simp: mdb_holds_def Let_def sq_view_def)
  ultimately have "mdb_holds E s0 m c ?tr3 (hist @ [ws\<lparr>ws_id := next_id (map mdb_row hist)\<rparr>])"
    using assms same
    by (simp add: mdb_holds_def Let_def sq_new_row_def sq_write_def sq_view_def mdb_row_def)
  with run show ?thesis by blast
qed

lemma mdb_holds_reset:
  assumes "mdb_holds E s0 m c tr hist"
    and "sq_db (sq_replay mdb_sem s0 tr') = sq_db (sq_replay mdb_sem s0 tr)"
    and "\<forall>st. st \<noteq> st0 \<longrightarrow> sq_cur (sq_replay mdb_sem s0 tr') st = sq_cur (sq_replay mdb_sem s0 tr) st"
  shows "mdb_holds E s0 m c (EvSqReset (Some st0) # tr') hist"
proof -
  have "sq_txn (sq_replay mdb_sem s0 tr') = sq_txn (sq_replay mdb_sem s0 tr)"
    using assms(2) by (simp add: sq_db_def)
  with assms(1,3) sq_view_cong [OF assms(2)] show ?thesis
    by (auto simp: mdb_holds_def Let_def)
qed

lemma mdb_holdsD:
  assumes "mdb_holds E s0 m c tr hist"
  shows "sqlite_live mdb_sem s0 E" "sqlite_sound mdb_sem s0 E" "mdb_ready m c"
    "sq_view (sq_replay mdb_sem s0 tr) c = map mdb_row hist"
  using assms by (simp_all add: mdb_holds_def Let_def)

lemma mdb_fetch_history_run:
  assumes holds: "mdb_holds E s0 m c tr hist"
    and bounds: "unat off < 2 ^ 63" "unat len < 2 ^ 63"
    and fits: "length (slice (unat off) (unat len) (rev hist)) \<le> cap"
  shows "\<exists>tr'. hpssix_mdb_fetch_history E (Some m) off len (Some cap) tr
     = (Ret (0, Some (slice (unat off) (unat len) (rev hist))), tr') \<and> mdb_holds E s0 m c tr' hist"
proof -
  let ?st = "mdb_stmt c mdb_sql_fetch_record" let ?s = "sq_replay mdb_sem s0 tr"
  let ?tr1 = "EvSqBindInt (Some ?st) 2 len 0 # EvSqBindInt (Some ?st) 1 off 0 # tr"
  let ?hs = "slice (unat off) (unat len) (rev hist)"
  note q = mdb_holdsD [OF holds]
  have "bind_all E (Some ?st) (Suc 0) [off, len] False tr = (Ret False, ?tr1)"
    by (simp add: bind_all_live [OF q(1)] numeral_2_eq_2)
  note run = this hpssix_mdb_fetch_history_def mdb_stmts [OF q(3)] Let_def bind_io_apply
    then_io_apply sqlite3_reset_def
  have "sq_cur ?s ?st = None" using holds by (simp add: mdb_holds_def Let_def)
  then have left: "sq_left mdb_sem (sq_replay mdb_sem s0 ?tr1) ?st = map mdb_row ?hs"
    using q(4) by (simp add: sq_left_def limit_rows_eq [OF bounds] slice_map rev_map)
  obtain r tr2 where step: "step_retry (env_fuel E) E (Some ?st) ?tr1
       = (Ret r, EvSqStep (Some ?st) r # tr2)"
    and r: "r = (if ?hs = [] then SQLITE_DONE else SQLITE_ROW)"
    and same: "sq_replay mdb_sem s0 tr2 = sq_replay mdb_sem s0 ?tr1"
    using step_retry_select [OF q(1,2), of ?st _ ?tr1] left by auto
  let ?tr3 = "EvSqStep (Some ?st) r # tr2"
  have keep: "sq_db (sq_replay mdb_sem s0 ?tr3) = sq_db ?s"
    "\<forall>st. st \<noteq> ?st \<longrightarrow> sq_cur (sq_replay mdb_sem s0 ?tr3) st = sq_cur ?s st"
    using same by (simp_all add: sq_db_def)
  show ?thesis
  proof (cases ?hs)
    case Nil
    then have "hpssix_mdb_fetch_history E (Some m) off len (Some cap) tr
        = (Ret (0, Some ?hs), EvSqReset (Some ?st) # ?tr3)"
      using step r by (simp add: run)
    then show ?thesis using mdb_holds_reset [OF holds keep] by blast
  next
    case (Cons w hs)
    then have cur: "sq_cur (sq_replay mdb_sem s0 ?tr3) ?st = Some (map mdb_row hs)"
      and row: "sq_row (sq_replay mdb_sem s0 ?tr3) ?st = mdb_row w" and len: "length hs < cap"
      using r same left fits by simp_all
    obtain tr4 where fill: "fill_history E (Some ?st) cap [] ?tr3 = (Ret (0, w # hs), tr4)"
      and db: "sq_db (sq_replay mdb_sem s0 tr4) = sq_db (sq_replay mdb_sem s0 ?tr3)"
        "\<forall>st. st \<noteq> ?st \<longrightarrow> sq_cur (sq_replay mdb_sem s0 tr4) st = sq_cur (sq_replay mdb_sem s0 ?tr3) st"
      using fill_history_ok [OF q(2) _ cur row len, of _ "[]"] q(1) by auto
    have "hpssix_mdb_fetch_history E (Some m) off len (Some cap) tr
        = (Ret (0, Some ?hs), EvSqReset (Some ?st) # tr4)"
      using step r fill Cons by (simp add: run)
    moreover have "mdb_holds E s0 m c (EvSqReset (Some ?st) # tr4) hist"
      using keep db by (intro mdb_holds_reset [OF holds]) auto
    ultimately show ?thesis by blast
  qed
qed

text \<open>A query for one row of integers: what \<open>step_retry\<close> and the column reads deliver.\<close>

lemma mdb_single_row:
  assumes holds: "mdb_holds E s0 m c tr hist" and sem: "mdb_sem sql = SemSelect f"
    and cur: "sq_cur (sq_replay mdb_sem s0 tr) (mdb_stmt c sql) = None"
    and rows: "f (map mdb_row hist) (sq_bind (sq_replay mdb_sem s0 tr) (mdb_stmt c sql)) = [vs]"
  shows "\<exists>tr1. step_retry (env_fuel E) E (Some (mdb_stmt c sql)) tr = (Ret SQLITE_ROW, tr1) \<and>
     (\<forall>i < length vs. env_sqlite3_column E tr1 (Some (mdb_stmt c sql)) i = vs ! i) \<and>
     mdb_holds E s0 m c (EvSqReset (Some (mdb_stmt c sql)) # tr1) hist"
proof -
  let ?st = "mdb_stmt c sql"
  note q = mdb_holdsD [OF holds]
  have left: "sq_left mdb_sem (sq_replay mdb_sem s0 tr) ?st = [vs]"
    using q(4) cur sem rows by (simp add: sq_left_def)
  obtain tr1 where step: "step_retry (env_fuel E) E (Some ?st) tr
       = (Ret SQLITE_ROW, EvSqStep (Some ?st) SQLITE_ROW # tr1)"
    and same: "sq_replay mdb_sem s0 tr1 = sq_replay mdb_sem s0 tr"
    using step_retry_select [OF q(1,2), of ?st f tr] left sem by auto
  let ?tr2 = "EvSqStep (Some ?st) SQLITE_ROW # tr1"
  have "sq_row (sq_replay mdb_sem s0 ?tr2) ?st = vs"
    using same left sem by simp
  then have "\<forall>i < length vs. env_sqlite3_column E ?tr2 (Some ?st) i = vs ! i"
    using sound_column [OF q(2), of _ ?tr2 ?st] by simp
  moreover have "mdb_holds E s0 m c (EvSqReset (Some ?st) # ?tr2) hist"
    using same sem by (intro mdb_holds_reset [OF holds]) (simp_all add: sq_db_def)
  ultimately show ?thesis using step by blast
qed

section \<open>The last successful scan\<close>

definition successful :: "hpssix_work_status list \<Rightarrow> hpssix_work_status list" where
  "successful hist = filter (\<lambda>ws. ws_status ws = 0) hist"

lemma scast_status_0 [simp]: "(scast (x :: u32) :: u64) = 0 \<longleftrightarrow> x = 0"
  by (metis scast_0 ucast_scast_status ucast_0)

lemma succeeded_rows: "succeeded (map mdb_row hist) = map mdb_row (successful hist)"
  by (induction hist) (simp_all add: succeeded_def successful_def col_def mdb_row_def)

lemma sql_max_ints:
  "vs \<noteq> [] \<Longrightarrow> \<exists>v\<in>set vs. sql_max (map SInt vs) = SInt v \<and> (\<forall>w\<in>set vs. sint w \<le> sint v)"
proof (induction vs)
  case Nil
  then show ?case by simp
next
  case (Cons a vs)
  show ?case
  proof (cases "vs = []")
    case True
    then show ?thesis by (simp add: sql_max_def sql_max2_def)
  next
    case False
    then obtain v where "v \<in> set vs" "sql_max (map SInt vs) = SInt v" "\<forall>w\<in>set vs. sint w \<le> sint v"
      using Cons.IH by blast
    then show ?thesis by (fastforce simp: sql_max_def sql_max2_def)
  qed
qed

lemma mdb_last_status_run:
  assumes "mdb_holds E s0 m c tr hist"
  shows "\<exists>tr'. hpssix_mdb_get_last_scanned_status E (Some m) tr
     = (Ret (0, Some (case rev (successful hist) of
          [] \<Rightarrow> (0, 0) | ws # _ \<Rightarrow> (oid_end ws, scanner_start ws))), tr') \<and>
     mdb_holds E s0 m c tr' hist"
proof -
  let ?st = "mdb_stmt c mdb_sql_last_status"
  note q = mdb_holdsD [OF assms]
  have cur: "sq_cur (sq_replay mdb_sem s0 tr) ?st = None"
    using assms by (simp add: mdb_holds_def Let_def)
  note run = hpssix_mdb_get_last_scanned_status_def mdb_stmts [OF q(3)] Let_def bind_io_apply
    then_io_apply sqlite3_reset_def sqlite3_column_int64_def
  show ?thesis
  proof (cases "rev (successful hist)")
    case Nil
    then have left: "sq_left mdb_sem (sq_replay mdb_sem s0 tr) ?st = []"
      using q(4) cur by (simp add: sq_left_def succeeded_rows)
    obtain tr1 where "step_retry (env_fuel E) E (Some ?st) tr
         = (Ret SQLITE_DONE, EvSqStep (Some ?st) SQLITE_DONE # tr1)"
      and same: "sq_replay mdb_sem s0 tr1 = sq_replay mdb_sem s0 tr"
      using step_retry_select [OF q(1,2), of ?st _ tr] left by auto
    moreover have "mdb_holds E s0 m c (EvSqReset (Some ?st) # EvSqStep (Some ?st) SQLITE_DONE # tr1) hist"
      using same by (intro mdb_holds_reset [OF assms]) (simp_all add: sq_db_def)
    ultimately show ?thesis using Nil by (simp add: run)
  next
    case (Cons ws rest)
    have "map (\<lambda>r. [col r 2, col r 3]) (take 1 (rev (succeeded (map mdb_row hist))))
        = [[SInt (oid_end ws), SInt (scanner_start ws)]]"
      using Cons by (simp add: succeeded_rows rev_map col_def mdb_row_def)
    from mdb_single_row [OF assms mdb_sem_simps(4) cur, OF this] Cons show ?thesis
      by (auto simp: run)
  qed
qed

lemma mdb_last_oid_run:
  assumes "mdb_holds E s0 m c tr hist"
  shows "\<exists>v tr'. hpssix_mdb_get_last_scanned_oid E (Some m) tr = (Ret (0, Some v), tr') \<and>
     mdb_holds E s0 m c tr' hist \<and>
     (if successful hist = [] then v = 0
      else v \<in> oid_end ` set (successful hist) \<and>
        (\<forall>ws\<in>set (successful hist). sint (oid_end ws) \<le> sint v))"
proof -
  let ?st = "mdb_stmt c mdb_sql_last_oid" let ?v = "sql_max (map (SInt \<circ> oid_end) (successful hist))"
  note q = mdb_holdsD [OF assms]
  have cur: "sq_cur (sq_replay mdb_sem s0 tr) ?st = None"
    using assms by (simp add: mdb_holds_def Let_def)
  note run = hpssix_mdb_get_last_scanned_oid_def mdb_stmts [OF q(3)] Let_def bind_io_apply
    then_io_apply sqlite3_reset_def sqlite3_column_int64_def
  have "map (\<lambda>r. col r 2) (map mdb_row (successful hist)) = map (SInt \<circ> oid_end) (successful hist)"
    by (simp add: col_def mdb_row_def)
  then have "[[sql_max (map (\<lambda>r. col r 2) (succeeded (map mdb_row hist)))]] = [[?v]]"
    unfolding succeeded_rows by (rule arg_cong)
  then obtain tr1 where one: "step_retry (env_fuel E) E (Some ?st) tr = (Ret SQLITE_ROW, tr1)"
    "env_sqlite3_column E tr1 (Some ?st) 0 = ?v"
    "mdb_holds E s0 m c (EvSqReset (Some ?st) # tr1) hist"
    using mdb_single_row [OF assms mdb_sem_simps(3) cur] by fastforce
  show ?thesis
  proof (cases "successful hist = []")
    case True
    then show ?thesis using one by (simp add: run sql_max_def)
  next
    case False
    then obtain v where "v \<in> set (map oid_end (successful hist))" "?v = SInt v"
      "\<forall>w\<in>set (map oid_end (successful hist)). sint w \<le> sint v"
      using sql_max_ints [of "map oid_end (successful hist)"] by auto
    with False one show ?thesis by (auto simp: run)
  qed
qed

section \<open>Opening\<close>

definition mdb_path :: "env \<Rightarrow> string" where
  "mdb_path E = hpssix_get_work_root E @ SLASH # mdb_name"

lemma mdb_dbpath:
  "length (mdb_path E) < PATH_MAX \<Longrightarrow>
   sprintf_buf PATH_MAX ''%s/%s'' [PStr (Some (hpssix_get_work_root E)), PStr (Some mdb_name)]
     = Some (mdb_path E)"
  by (simp add: sprintf_buf_def mdb_path_def)

lemma mdb_open_prepares:
  assumes "hpssix_mdb_open E (Some m) tr = (Ret (0, Some m'), tr')"
  shows "\<exists>c. mdb_ready m' c"
proof -
  obtain cfg where "hpssix_config_read_sysconf E (Some (mdb_config m)) tr
      = (Ret (0, Some cfg), EvConfig (hpssix_sysconf_file E) # tr)"
    using config_read_sysconf_returns by blast
  with assms obtain path mode d tr1 where d:
    "hpssix_tmpdb_open E (Some (tmpdb_zero\<lparr>dbpath := path, schema := Some mdb_schema, n_sql := 4,
       sqlstr := mdb_sqls\<rparr>)) mode tr1 = (Ret (0, d), tr')"
    "\<forall>x. d = Some x \<longrightarrow> mdb_db m' = x"
    by (auto simp: hpssix_mdb_open_def bind_io_Ret Let_def bind_io_eq_Ret_iff split: if_splits)
  moreover obtain d' where "d = Some d'" using tmpdb_open_Some [OF d(1)] by auto
  ultimately show ?thesis
    using tmpdb_open_prepared [of E "tmpdb_zero\<lparr>dbpath := path, schema := Some mdb_schema, n_sql := 4,
       sqlstr := mdb_sqls\<rparr>"] by (auto simp: mdb_ready_def mdb_sqls_def)
qed

interpretation mdb_open: prepared_store mdb_sqls
  "\<lambda>E m. bind_io (hpssix_mdb_open E (Some m)) (\<lambda>(r, m'). return_io (r, map_option mdb_db m'))"
  using mdb_open_prepares by unfold_locales (auto simp: bind_io_eq_Ret_iff mdb_ready_def)

text \<open>The first open of a fresh installation creates an empty history.\<close>

lemma mdb_open_fresh:
  assumes "sqlite_live mdb_sem s0 E" and "sqlite_sound mdb_sem s0 E"
    and "length (mdb_path E) < PATH_MAX"
    and "\<And>tr. env_stat E tr (mdb_path E) = Inl ENOENT"
  shows "\<exists>m' c tr'. hpssix_mdb_open E (Some m) tr = (Ret (0, Some m'), tr') \<and>
     mdb_holds E s0 m' c tr' []"
proof -
  obtain cfg where cfg: "hpssix_config_read_sysconf E (Some (mdb_config m)) tr
      = (Ret (0, Some cfg), EvConfig (hpssix_sysconf_file E) # tr)"
    using config_read_sysconf_returns by blast
  let ?tr1 = "EvStat (mdb_path E) (Inl ENOENT) # EvConfig (hpssix_sysconf_file E) # tr"
  define c where "c = snd (env_sqlite3_open E ?tr1 (mdb_path E))"
  have op: "env_sqlite3_open E ?tr1 (mdb_path E) = (0, c)"
    using live_calls(1) [OF assms(1), of ?tr1 "mdb_path E"] by (simp add: c_def prod_eq_iff)
  let ?tr2 = "EvSqPrepare c mdb_sql_fetch_record 0 # EvSqPrepare c mdb_sql_last_status 0 #
    EvSqPrepare c mdb_sql_last_oid 0 # EvSqPrepare c mdb_sql_record 0 #
    EvSqExec c mdb_schema 0 # EvSqOpen (mdb_path E) 0 c # ?tr1"
  let ?db = "\<lparr>dbpath = mdb_path E, schema = Some mdb_schema, tmpdb_conn = Some c, n_sql = 4,
     sqlstr = mdb_sqls, tmpdb_stmt = Some (map (mdb_stmt c) mdb_sqls)\<rparr>"
  have four: "prepare_loop E c 4 = prepare_loop E c (Suc (Suc (Suc (Suc 0))))"
    by (simp add: eval_nat_numeral)
  have "hpssix_mdb_open E (Some m) tr = (Ret (0, Some \<lparr>mdb_config = cfg, mdb_db = ?db\<rparr>), ?tr2)"
    using cfg op
    by (simp add: hpssix_mdb_open_def bind_io_apply hpssix_tmpdb_open_def sqlite3_open_def
        Let_def hpssix_tmpdb_exec_simple_sql_def sqlite3_exec_def tmpdb_prepare_stmt_def alloc_def
        live_calls [OF assms(1)] mdb_sqls_def sqlite3_prepare_def tmpdb_zero_def c_stat_def
        mdb_dbpath [OF assms(3)] assms(4) mdb_stmt_def four)
  moreover have "mdb_holds E s0 \<lparr>mdb_config = cfg, mdb_db = ?db\<rparr> c ?tr2 []"
    using assms(1,2)
    by (simp add: mdb_holds_def Let_def mdb_ready_def prepared_def mdb_sqls_def mdb_stmt_def
        sq_view_def sq_write_def)
  ultimately show ?thesis by blast
qed

section \<open>Properties\<close>

text \<open>
  C3: the history.  After a status is recorded it is the newest entry: the first
  page of the history starts with it, every field as recorded and the id the
  table gave it, the older entries follow, newest first; and if it was successful,
  the next scan is told its last object id and its starting time.
\<close>

theorem mdb_record_read_back:
  assumes "mdb_holds E s0 m c tr hist" and "unat len < 2 ^ 63" and "unat len \<le> cap"
  shows "\<exists>tr1 tr2 tr3.
     hpssix_mdb_record E (Some m) (Some ws) tr = (Ret 0, tr1) \<and>
     hpssix_mdb_fetch_history E (Some m) 0 len (Some cap) tr1
       = (Ret (0, Some (take (unat len) (ws\<lparr>ws_id := next_id (map mdb_row hist)\<rparr> # rev hist))), tr2) \<and>
     hpssix_mdb_get_last_scanned_status E (Some m) tr2
       = (Ret (0, Some (if ws_status ws = 0 then (oid_end ws, scanner_start ws)
                        else case rev (successful hist) of
                          [] \<Rightarrow> (0, 0) | w # _ \<Rightarrow> (oid_end w, scanner_start w))), tr3) \<and>
     mdb_holds E s0 m c tr3 (hist @ [ws\<lparr>ws_id := next_id (map mdb_row hist)\<rparr>])"
proof -
  let ?ws = "ws\<lparr>ws_id := next_id (map mdb_row hist)\<rparr>"
  obtain tr1 where 1: "hpssix_mdb_record E (Some m) (Some ws) tr = (Ret 0, tr1)"
    "mdb_holds E s0 m c tr1 (hist @ [?ws])"
    using mdb_record_run [OF assms(1)] by blast
  obtain tr2 where 2: "hpssix_mdb_fetch_history E (Some m) 0 len (Some cap) tr1
      = (Ret (0, Some (slice 0 (unat len) (rev (hist @ [?ws])))), tr2)"
    "mdb_holds E s0 m c tr2 (hist @ [?ws])"
    using mdb_fetch_history_run [OF 1(2), of 0 len cap] assms(2,3)
    by (auto simp: length_slice min.coboundedI1)
  obtain tr3 where 3: "hpssix_mdb_get_last_scanned_status E (Some m) tr2
     = (Ret (0, Some (case rev (successful (hist @ [?ws])) of
          [] \<Rightarrow> (0, 0) | ws # _ \<Rightarrow> (oid_end ws, scanner_start ws))), tr3)"
    "mdb_holds E s0 m c tr3 (hist @ [?ws])"
    using mdb_last_status_run [OF 2(2)] by blast
  show ?thesis
    using 1(1) 2(1) 3 by (intro exI conjI) (auto simp: slice_def successful_def)
qed

text \<open>A handle on the reference engine with a given history.\<close>

definition sample_mdb :: hpssix_mdb where
  "sample_mdb = mdb_zero\<lparr>mdb_db := tmpdb_zero\<lparr>tmpdb_conn := Some 2, n_sql := 4,
     tmpdb_stmt := Some (map (mdb_stmt 2) mdb_sqls)\<rparr>\<rparr>"

definition sample_sq :: "hpssix_work_status list \<Rightarrow> sqstate" where
  "sample_sq hist = sq_empty\<lparr>sq_file := \<lambda>_. map mdb_row hist\<rparr>"

definition sample_mdb_env :: "hpssix_work_status list \<Rightarrow> env" where
  "sample_mdb_env hist = ref_sqlite mdb_sem (sample_sq hist) quiet_env"

lemma sample_mdb_ready: "mdb_ready sample_mdb 2"
  by (simp add: mdb_ready_def prepared_def sample_mdb_def mdb_sqls_def mdb_stmt_def)

lemma mdb_holds_sample: "mdb_holds (sample_mdb_env hist) (sample_sq hist) sample_mdb 2 [] hist"
  by (simp add: mdb_holds_def Let_def sample_mdb_env_def ref_sqlite_live ref_sqlite_sound
      sample_mdb_ready) (simp add: sample_sq_def sq_empty_def sq_view_def)

theorem mdb_record_read_back_witness:
  "\<exists>tr1 tr2 tr3.
     hpssix_mdb_record (sample_mdb_env []) (Some sample_mdb)
       (Some (work_status_zero\<lparr>oid_end := 70, scanner_start := 5\<rparr>)) [] = (Ret 0, tr1) \<and>
     hpssix_mdb_fetch_history (sample_mdb_env []) (Some sample_mdb) 0 10 (Some 10) tr1
       = (Ret (0, Some [work_status_zero\<lparr>ws_id := 1, oid_end := 70, scanner_start := 5\<rparr>]), tr2) \<and>
     hpssix_mdb_get_last_scanned_status (sample_mdb_env []) (Some sample_mdb) tr2
       = (Ret (0, Some (70, 5)), tr3)"
proof -
  let ?ws = "work_status_zero\<lparr>oid_end := 70, scanner_start := 5\<rparr>"
  have "?ws\<lparr>ws_id := next_id (map mdb_row [])\<rparr>
      = work_status_zero\<lparr>ws_id := 1, oid_end := 70, scanner_start := 5\<rparr>"
    by (simp add: next_id_def work_status_zero_def)
  moreover have "ws_status ?ws = 0" "oid_end ?ws = 70" "scanner_start ?ws = 5"
    by (simp_all add: work_status_zero_def)
  ultimately show ?thesis
    using mdb_record_read_back [OF mdb_holds_sample, of 10 10 "[]" ?ws] by auto
qed



text \<open>
  C5: reading the history stays inside the caller's array.  SQLite may fail or
  stay busy in any way; as long as the rows it delivers are those the query asks
  for, a caller that asks for at most as many entries as its array has is never
  written past its end.
\<close>

theorem mdb_fetch_history_in_bounds:
  assumes sound: "sqlite_sound mdb_sem s0 E" and ready: "mdb_ready m c"
    and view: "sq_view (sq_replay mdb_sem s0 tr) c = map mdb_row hist"
    and cur: "sq_cur (sq_replay mdb_sem s0 tr) (mdb_stmt c mdb_sql_fetch_record) = None"
    and bounds: "unat off < 2 ^ 63" "unat len < 2 ^ 63" and fits: "unat len \<le> cap"
  shows "fst (hpssix_mdb_fetch_history E (Some m) off len (Some cap) tr) \<noteq> UB"
proof -
  let ?st = "mdb_stmt c mdb_sql_fetch_record" let ?hs = "slice (unat off) (unat len) (rev hist)"
  let ?b1 = "env_sqlite3_bind E tr (Some ?st) 1"
  let ?tr1 = "EvSqBindInt (Some ?st) 1 off ?b1 # tr"
  let ?b2 = "env_sqlite3_bind E ?tr1 (Some ?st) 2"
  let ?tr2 = "EvSqBindInt (Some ?st) 2 len ?b2 # ?tr1"
  note run = hpssix_mdb_fetch_history_def mdb_stmts [OF ready] Let_def bind_io_apply then_io_apply
    sqlite3_reset_def if_distribR
  have binds: "bind_all E (Some ?st) (Suc 0) [off, len] False tr
      = (Ret (?b1 \<noteq> 0 \<or> ?b2 \<noteq> 0), ?tr2)"
    by (simp add: bind_all.simps bind_io_apply sqlite3_bind_int64_def numeral_2_eq_2)
  obtain tr3 where same: "sq_replay mdb_sem s0 tr3 = sq_replay mdb_sem s0 ?tr2"
    and step: "step_retry (env_fuel E) E (Some ?st) ?tr2 = (Spin, tr3) \<or>
      (\<exists>r. r \<noteq> SQLITE_BUSY \<and> env_sqlite3_step E tr3 (Some ?st) = r \<and>
         step_retry (env_fuel E) E (Some ?st) ?tr2 = (Ret r, EvSqStep (Some ?st) r # tr3))"
    using step_retry_any [of mdb_sem s0 ?tr2 "env_fuel E" E ?st] by blast
  show ?thesis
  proof (cases "?b1 \<noteq> 0 \<or> ?b2 \<noteq> 0 \<or> env_sqlite3_step E tr3 (Some ?st) \<noteq> SQLITE_ROW")
    case True
    then show ?thesis using binds step by (auto simp: run split: if_splits)
  next
    case False
    then have "sq_left mdb_sem (sq_replay mdb_sem s0 tr3) ?st = map mdb_row ?hs"
      using cur view unfolding same
      by (auto simp: sq_left_def limit_rows_eq [OF bounds] slice_map rev_map)
    moreover obtain w hs where hs: "?hs = w # hs"
      using sound_row [OF sound, of ?st _ tr3] False calculation by (cases ?hs) auto
    moreover have "length hs < cap"
      using hs fits by (metis Suc_le_lessD length_Cons length_slice min.bounded_iff order_trans order_refl)
    ultimately obtain r res tr' where
      "fill_history E (Some ?st) cap [] (EvSqStep (Some ?st) SQLITE_ROW # tr3) = (Ret (r, res), tr')"
      using fill_history_ok [OF sound, of ?st _ "EvSqStep (Some ?st) SQLITE_ROW # tr3" hs w cap "[]"]
      by auto
    then show ?thesis using False binds step by (auto simp: run)
  qed
qed

theorem mdb_fetch_history_in_bounds_witness:
  "fst (hpssix_mdb_fetch_history (sample_mdb_env [work_status_zero]) (Some sample_mdb) 0 10 (Some 10) [])
     \<noteq> UB"
  using mdb_fetch_history_in_bounds [of "sample_sq [work_status_zero]" "sample_mdb_env [work_status_zero]"
      sample_mdb 2 "[]" "[work_status_zero]" 0 10 10]
  by (simp add: sample_mdb_env_def ref_sqlite_sound sample_mdb_ready)
    (simp add: sample_sq_def sq_empty_def sq_view_def)

end
