(* ===== verification/Hpssix_Observe.thy ===== *)
theory Hpssix_Observe
  imports Hpssix_Workdata Hpssix_Mdb
begin

text \<open>
  Observing part of the history.  An observer gives, for each call, what it sees of
  it; \<open>obs\<close> collects that over a history, oldest first, and \<open>keeps\<close> says of a
  program that the observer sees nothing of it.  The locale \<open>local_observer\<close> holds
  once and for all that the local work of libhpssix (configuration, directories,
  SQLite files) is invisible to an observer that ignores those calls.  The
  components that talk to PostgreSQL or to other daemons interpret it.
\<close>

named_theorems keeps_intros \<open>programs an observer does not see\<close>

definition obs :: "(event \<Rightarrow> 'o list) \<Rightarrow> trace \<Rightarrow> 'o list" where
  "obs see tr = concat (map see (rev tr))"

lemma obs_Nil [simp]: "obs see [] = []"
  by (simp add: obs_def)

lemma obs_Cons [simp]: "obs see (ev # tr) = obs see tr @ see ev"
  by (simp add: obs_def)

definition keeps :: "(event \<Rightarrow> 'o list) \<Rightarrow> 'a io \<Rightarrow> bool" where
  "keeps see m \<longleftrightarrow> (\<forall>tr. obs see (snd (m tr)) = obs see tr)"

lemma keepsD: "keeps see m \<Longrightarrow> m tr = (r, tr') \<Longrightarrow> obs see tr' = obs see tr"
  unfolding keeps_def by (metis snd_conv)

lemma keeps_silent: "silent m \<Longrightarrow> keeps see m"
  unfolding keeps_def silent_def by (metis snd_conv)

lemma keeps_simple [simp, keeps_intros]:
  "keeps see (Pair r)" "keeps see (return_io x)" "keeps see undef_io" "keeps see (exit_io n)" "keeps see spin_io"
  "keeps see (alloc E k)" "keeps see (c_errno E)" "keeps see (sqlite3_column_int64 E st i)"
  "keeps see (sqlite3_column_text E st i)"
  by (simp_all add: keeps_def prim_defs)

lemma keeps_lift [simp, keeps_intros]: "keeps see (lift_io v)"
  by (cases v) simp_all

lemma keeps_bind [keeps_intros]:
  "keeps see m \<Longrightarrow> (\<And>x. keeps see (f x)) \<Longrightarrow> keeps see (bind_io m f)"
  by (auto simp: keeps_def bind_io_def split: prod.splits outcome.splits) (metis snd_conv)+

lemma keeps_then [keeps_intros]: "keeps see m \<Longrightarrow> keeps see k \<Longrightarrow> keeps see (then_io m k)"
  by (simp add: then_io_def keeps_bind)

lemma keeps_try [keeps_intros]:
  "keeps see m \<Longrightarrow> (\<And>r. keeps see (fail r)) \<Longrightarrow> keeps see k \<Longrightarrow> keeps see (try_io m fail k)"
  by (auto simp: try_io_def intro!: keeps_bind)

lemma keeps_branches [keeps_intros]:
  "keeps see m \<Longrightarrow> keeps see k \<Longrightarrow> keeps see (if b then m else k)"
  "keeps see m \<Longrightarrow> (\<And>x. keeps see (f x)) \<Longrightarrow> keeps see (case v of None \<Rightarrow> m | Some x \<Rightarrow> f x)"
  "(\<And>x. keeps see (g x)) \<Longrightarrow> (\<And>y. keeps see (h y)) \<Longrightarrow> keeps see (case s of Inl x \<Rightarrow> g x | Inr y \<Rightarrow> h y)"
  "(\<And>x y. keeps see (k2 x y)) \<Longrightarrow> keeps see (case p of (x, y) \<Rightarrow> k2 x y)"
  by (auto split: option.splits sum.splits prod.splits)

lemma keeps_for_each [keeps_intros]: "(\<And>x. keeps see (f x)) \<Longrightarrow> keeps see (for_each f xs)"
  by (induction xs) (auto intro!: keeps_intros)

lemma keeps_map_io [keeps_intros]: "(\<And>x. keeps see (f x)) \<Longrightarrow> keeps see (map_io f xs)"
  by (induction xs) (auto intro!: keeps_intros)

lemma keeps_ext: "(\<And>r. see (ev r) = []) \<Longrightarrow> keeps see (ext f ev)"
  by (simp add: keeps_def)

lemma keeps_strdup [keeps_intros]: "keeps see (strdup E s)"
  by (rule keeps_silent) simp

text \<open>The calls of the local work.\<close>

fun local_event :: "event \<Rightarrow> bool" where
  "local_event (EvTime _) = True"
| "local_event (EvStat _ _) = True"
| "local_event (EvMkdir _ _) = True"
| "local_event (EvFopen _) = True"
| "local_event (EvConfig _) = True"
| "local_event EvMounts = True"
| "local_event (EvOut _) = True"
| "local_event (EvSqOpen _ _ _) = True"
| "local_event (EvSqExec _ _ _) = True"
| "local_event (EvSqPrepare _ _ _) = True"
| "local_event (EvSqBindInt _ _ _ _) = True"
| "local_event (EvSqBindText _ _ _ _) = True"
| "local_event (EvSqStep _ _) = True"
| "local_event (EvSqReset _) = True"
| "local_event (EvSqClose _) = True"
| "local_event _ = False"

text \<open>An observer that ignores the clock and the making of directories.\<close>

locale dir_observer =
  fixes see :: "event \<Rightarrow> 'o list"
  assumes dir_blind: "see (EvTime t) = []" "see (EvStat p sr) = []" "see (EvMkdir p mr) = []"
begin

lemma keeps_dir_prims [simp, keeps_intros]:
  "keeps see (c_time E)" "keeps see (c_stat E p)" "keeps see (c_mkdir E p)"
  by (auto simp: keeps_def prim_defs dir_blind split: prod.splits)

lemma keeps_datadir [keeps_intros]: "keeps see (hpssix_get_datadir_today E buf)"
proof -
  have dir: "keeps see (create_directory E p)" for p
    unfolding create_directory_def by (intro keeps_intros keeps_dir_prims)
  have sub: "keeps see (create_subdirs E ds)" for ds
    by (induction ds) (auto intro!: keeps_intros dir)
  have today: "keeps see (dirname_today E cap)" for cap
    unfolding dirname_today_def by (intro keeps_intros keeps_dir_prims)
  show ?thesis
    unfolding hpssix_get_datadir_today_def hpssix_create_work_directories_def
    by (intro keeps_intros keeps_dir_prims dir sub today)
qed

end

locale local_observer =
  fixes see :: "event \<Rightarrow> 'o list"
  assumes blind: "local_event ev \<Longrightarrow> see ev = []"
begin

lemma keeps_prims [simp, keeps_intros]:
  "keeps see (c_time E)" "keeps see (c_stat E p)" "keeps see (c_mkdir E p)" "keeps see (c_fopen E p)"
  "keeps see (config_read_file E p)" "keeps see (c_mounts E)" "keeps see (c_puts s)"
  "keeps see (sqlite3_open E p)" "keeps see (sqlite3_exec E c q)" "keeps see (sqlite3_prepare E c q)"
  "keeps see (sqlite3_bind_int64 E st i v)" "keeps see (sqlite3_bind_text E st i t)"
  "keeps see (sqlite3_step E st)" "keeps see (sqlite3_reset st)" "keeps see (sqlite3_close c)"
  by (auto simp: keeps_def prim_defs blind split: prod.splits)

lemma keeps_config [keeps_intros]: "keeps see (hpssix_config_read_sysconf E c)"
  unfolding hpssix_config_read_sysconf_def
  by (intro keeps_intros keeps_prims keeps_silent [OF silent_read_sections])

lemma keeps_tmpdb [keeps_intros]:
  "keeps see (step_retry n E st)"
  "keeps see (hpssix_tmpdb_exec_simple_sql E db sql)"
  "keeps see (hpssix_tmpdb_close db)"
  "keeps see (hpssix_tmpdb_open E db initdb)"
proof -
  show "keeps see (step_retry n E st)" by (induction n) (auto intro!: keeps_intros)
  show exec: "keeps see (hpssix_tmpdb_exec_simple_sql E db sql)" for db sql
    unfolding hpssix_tmpdb_exec_simple_sql_def by (intro keeps_intros keeps_prims)
  show "keeps see (hpssix_tmpdb_close db)"
    unfolding hpssix_tmpdb_close_def by (intro keeps_intros keeps_prims)
  have prep: "keeps see (prepare_loop E c k sqls acc)" for c k sqls acc
    by (induction E c k sqls acc rule: prepare_loop.induct) (auto intro!: keeps_intros)
  show "keeps see (hpssix_tmpdb_open E db initdb)"
    unfolding hpssix_tmpdb_open_def tmpdb_prepare_stmt_def Let_def
    by (auto split: bool.splits option.splits intro!: keeps_intros exec prep)
qed

lemma keeps_tmpdb_txn [keeps_intros]:
  "keeps see (hpssix_tmpdb_begin_transaction E db)" "keeps see (hpssix_tmpdb_end_transaction E db)"
  "keeps see (hpssix_tmpdb_rollback_transaction E db)"
  by (simp_all add: hpssix_tmpdb_begin_transaction_def hpssix_tmpdb_end_transaction_def
      hpssix_tmpdb_rollback_transaction_def keeps_tmpdb)

lemma keeps_workdata [keeps_intros]:
  "keeps see (hpssix_workdata_open_mode E wd name mode)"
  "keeps see (hpssix_workdata_append E wd pid path)"
  "keeps see (hpssix_workdata_begin_transaction E w)"
  "keeps see (hpssix_workdata_end_transaction E w)"
  "keeps see (hpssix_workdata_rollback_transaction E w)"
  unfolding hpssix_workdata_open_mode_def hpssix_workdata_append_def
    hpssix_workdata_begin_transaction_def hpssix_workdata_end_transaction_def
    hpssix_workdata_rollback_transaction_def Let_def
  by (intro keeps_intros keeps_prims keeps_config keeps_tmpdb keeps_tmpdb_txn)+

lemma keeps_workdata_read [keeps_intros]:
  "keeps see (hpssix_workdata_dispatch E wd l)" "keeps see (hpssix_workdata_close wd)"
  "keeps see (hpssix_workdata_open E wd name)" "keeps see (hpssix_workdata_get_total_count E wd)"
proof -
  have loop: "keeps see (dispatch_loop E st k acc)" for st k acc
    by (induction k arbitrary: acc) (auto simp: Let_def intro!: keeps_intros)
  show "keeps see (hpssix_workdata_dispatch E wd l)"
    unfolding hpssix_workdata_dispatch_def Let_def
    by (auto split: option.splits intro!: keeps_intros loop)
  show "keeps see (hpssix_workdata_close wd)" "keeps see (hpssix_workdata_open E wd name)"
    "keeps see (hpssix_workdata_get_total_count E wd)"
    unfolding hpssix_workdata_close_def hpssix_workdata_open_def hpssix_workdata_get_total_count_def Let_def
    by (intro keeps_intros keeps_prims keeps_tmpdb keeps_workdata)+
qed

lemma keeps_bind_all: "keeps see (bind_all E st i vs bad)"
  by (induction vs arbitrary: i bad) (auto simp: bind_all.simps intro!: keeps_intros)

lemma keeps_mdb [keeps_intros]:
  "keeps see (hpssix_mdb_open E mdb)" "keeps see (hpssix_mdb_close mdb)"
  "keeps see (hpssix_mdb_record E mdb ws)" "keeps see (hpssix_mdb_get_last_scanned_status E mdb)"
  unfolding hpssix_mdb_open_def hpssix_mdb_close_def hpssix_mdb_record_def
    hpssix_mdb_get_last_scanned_status_def Let_def
  by (intro keeps_intros keeps_prims keeps_config keeps_tmpdb keeps_tmpdb_txn keeps_bind_all)+

end

sublocale local_observer \<subseteq> dir_observer
  by unfold_locales (simp_all add: blind)

text \<open>An observer that ignores SQLite, and may see standard output.\<close>

locale sqlite_observer =
  fixes see :: "event \<Rightarrow> 'o list"
  assumes sqlite_blind: "see (EvSqBindInt st i v r) = []" "see (EvSqStep st r) = []" "see (EvSqReset st) = []"
begin

lemma keeps_sqlite_prims [simp, keeps_intros]:
  "keeps see (sqlite3_bind_int64 E st i v)" "keeps see (sqlite3_step E st)" "keeps see (sqlite3_reset st)"
  by (simp_all add: keeps_def prim_defs sqlite_blind)

lemma keeps_fetch_history [keeps_intros]: "keeps see (hpssix_mdb_fetch_history E mdb off len cap)"
proof -
  have bind: "keeps see (bind_all E st i vs bad)" for st i vs bad
    by (induction vs arbitrary: i bad) (auto simp: bind_all.simps intro!: keeps_intros)
  have step: "keeps see (step_retry n E st)" for n st
    by (induction n) (auto intro!: keeps_intros)
  have fill: "keeps see (fill_history E st k acc)" for st k acc
    by (induction k arbitrary: acc) (auto simp: read_status_def intro!: keeps_intros)
  show ?thesis
    unfolding hpssix_mdb_fetch_history_def Let_def
    by (auto split: option.splits intro!: keeps_intros bind step fill)
qed

end

sublocale local_observer \<subseteq> sqlite_observer
  by unfold_locales (simp_all add: blind)

section \<open>SQLite calls\<close>

text \<open>The contents of the SQLite files depend on the SQLite calls only.\<close>

definition sq_see :: "event \<Rightarrow> event list" where
  "sq_see ev = (case ev of
     EvSqOpen _ _ _ \<Rightarrow> [ev] | EvSqExec _ _ _ \<Rightarrow> [ev] | EvSqPrepare _ _ _ \<Rightarrow> [ev]
   | EvSqBindInt _ _ _ _ \<Rightarrow> [ev] | EvSqBindText _ _ _ _ \<Rightarrow> [ev] | EvSqStep _ _ \<Rightarrow> [ev]
   | EvSqReset _ \<Rightarrow> [ev] | EvSqClose _ \<Rightarrow> [ev] | _ \<Rightarrow> [])"

interpretation sq: dir_observer sq_see
  by unfold_locales (simp_all add: sq_see_def)

lemma sq_replay_obs: "sq_replay sem s0 tr = fold (sq_event sem) (obs sq_see tr) s0"
proof (induction tr)
  case (Cons ev tr)
  then show ?case by (cases ev) (simp_all add: sq_see_def)
qed simp

lemma keeps_replay: "keeps sq_see m \<Longrightarrow> m tr = (r, tr') \<Longrightarrow> sq_replay sem s0 tr' = sq_replay sem s0 tr"
  by (simp add: sq_replay_obs keepsD)

section \<open>Programs that always return\<close>

named_theorems returns_intros \<open>programs that return whatever the environment answers\<close>

definition returns :: "'a io \<Rightarrow> bool" where
  "returns m \<longleftrightarrow> (\<forall>tr. \<exists>x tr'. m tr = (Ret x, tr'))"

lemma returnsE: "returns m \<Longrightarrow> (\<And>x tr'. m tr = (Ret x, tr') \<Longrightarrow> P) \<Longrightarrow> P"
  unfolding returns_def by blast

lemma returns_simple [simp, returns_intros]:
  "returns (return_io x)" "returns (ext f ev)" "returns (alloc E n)" "returns (c_errno E)"
  by (simp_all add: returns_def prim_defs)

lemma returns_bind [returns_intros]:
  "returns m \<Longrightarrow> (\<And>x. returns (f x)) \<Longrightarrow> returns (bind_io m f)"
  unfolding returns_def by (metis bind_io_Ret)

lemma returns_then [returns_intros]: "returns m \<Longrightarrow> returns k \<Longrightarrow> returns (then_io m k)"
  by (simp add: then_io_def returns_bind)

lemma returns_lift [returns_intros]: "v \<noteq> None \<Longrightarrow> returns (lift_io v)"
  by (cases v) simp_all

lemma returns_branches [returns_intros]:
  "returns m \<Longrightarrow> returns k \<Longrightarrow> returns (if b then m else k)"
  "returns m \<Longrightarrow> (\<And>x. returns (f x)) \<Longrightarrow> returns (case v of None \<Rightarrow> m | Some x \<Rightarrow> f x)"
  "(\<And>x. returns (g x)) \<Longrightarrow> (\<And>y. returns (h y)) \<Longrightarrow> returns (case s of Inl x \<Rightarrow> g x | Inr y \<Rightarrow> h y)"
  "(\<And>x y. returns (k2 x y)) \<Longrightarrow> returns (case p of (x, y) \<Rightarrow> k2 x y)"
  by (auto split: option.splits sum.splits prod.splits)

lemma returns_calls [returns_intros]:
  "returns (c_time E)" "returns (c_stat E p)" "returns (c_fopen E p)" "returns (c_puts s)"
  "returns (c_sys E nm)" "returns (curl_put E url acc p)" "returns (PQexec E c cmd)"
  by (simp_all add: prim_defs)

lemma returns_printf [returns_intros]: "printf fmt args \<noteq> None \<Longrightarrow> returns (c_printf fmt args)"
  unfolding c_printf_def by (intro returns_intros)

end
