(* ===== verification/Hpssix_Daemon.thy ===== *)
theory Hpssix_Daemon
  imports Hpssix_Observe
begin

text \<open>
  The parts of hpssixd that its three daemons share: pid file and daemonization
  (hpssixd-daemon.c), the reading of the output of a child process (hpssixd.h), the
  client stubs (hpssixd-comm.c), and the skeleton of the three RPC dispatchers.
  Sun RPC and the operating system are parameters.
\<close>

section \<open>Daemon data and process set-up\<close>

record hpssixd_daemon_data =
  dd_config :: hpssix_config
  dd_name :: "string option"
  dd_debug :: bool

definition generate_pidfile_path :: "hpssix_config \<Rightarrow> string option \<Rightarrow> string option" where
  "generate_pidfile_path config name = sprintf_buf PATH_MAX ''%s/pid/%s.pid'' [PStr (workdir config), PStr name]"

text \<open>
  \<open>hpssixd_setup_pidfile\<close>: whether a file handle is returned.  The system calls it
  makes on the opened file are asked in order; the first that fails closes it.
  \<open>pid\<close> is the process id.
\<close>

definition pidfile_calls :: "int \<Rightarrow> string list" where
  "pidfile_calls pid = [''lockf'', ''ftruncate'', ''fprintf '' @ sdec pid @ [NL], ''fflush'']"

definition hpssixd_setup_pidfile :: "env \<Rightarrow> int \<Rightarrow> hpssixd_daemon_data option \<Rightarrow> bool io" where
  "hpssixd_setup_pidfile E pid data = (case data of
     None \<Rightarrow> return_io False
   | Some d \<Rightarrow>
       bind_io (lift_io (generate_pidfile_path (dd_config d) (dd_name d))) (\<lambda>path.
       bind_io (c_fopen E path) (\<lambda>r. case r of
         Inl _ \<Rightarrow> return_io False
       | Inr _ \<Rightarrow> try_io (for_each (c_sys E) (pidfile_calls pid))
           (\<lambda>_. then_io (c_sys E ''fclose'') (return_io False)) (return_io True))))"

abbreviation (input) SIGHUP :: int where "SIGHUP \<equiv> 1"
abbreviation (input) SIGBUS :: int where "SIGBUS \<equiv> 7"
abbreviation (input) SIGFPE :: int where "SIGFPE \<equiv> 8"
abbreviation (input) SIGUSR1 :: int where "SIGUSR1 \<equiv> 10"
abbreviation (input) SIGSEGV :: int where "SIGSEGV \<equiv> 11"
abbreviation (input) SIGUSR2 :: int where "SIGUSR2 \<equiv> 12"
abbreviation (input) SIGALRM :: int where "SIGALRM \<equiv> 14"
abbreviation (input) SIGTERM :: int where "SIGTERM \<equiv> 15"

definition hpssixd_dump_status :: "int \<Rightarrow> unit io" where
  "hpssixd_dump_status signum =
     (if signum = SIGSEGV \<or> signum = SIGBUS \<or> signum = SIGFPE then exit_io 1 else return_io ())"

text \<open>
  The handlers: \<open>hpssixd_dump_status\<close> for the first seven signals, SIGPIPE is ignored.  What
  \<open>signal\<close> returns is not looked at.
\<close>

fun install_handlers :: "env \<Rightarrow> string list \<Rightarrow> unit io" where
  "install_handlers E [] = return_io ()"
| "install_handlers E (sig # sigs) = then_io (c_sys E (''signal '' @ sig)) (install_handlers E sigs)"

definition hpssixd_setup_signals :: "env \<Rightarrow> int io" where
  "hpssixd_setup_signals E =
     then_io (install_handlers E [''SIGSEGV'', ''SIGABRT'', ''SIGILL'', ''SIGTRAP'', ''SIGFPE'', ''SIGBUS'', ''SIGINT''])
     (then_io (c_sys E ''signal SIGPIPE SIG_IGN'') (return_io 0))"

definition daemonize_systemd :: "int io" where
  "daemonize_systemd = return_io ENOSYS"

text \<open>
  \<open>env_sys\<close> gives the parent's id for \<open>getppid\<close> and the result of \<open>fork\<close> (negative:
  it failed; positive: this is the parent).
\<close>

definition daemonize_sysv :: "env \<Rightarrow> int \<Rightarrow> hpssixd_daemon_data \<Rightarrow> int io" where
  "daemonize_sysv E pid data =
     bind_io (c_sys E ''getppid'') (\<lambda>ppid.
     if ppid = 1 then return_io 0
     else bind_io (c_sys E ''fork'') (\<lambda>p.
       if p < 0 then c_errno E
       else if 0 < p then exit_io 0
       else bind_io (c_sys E ''setsid'') (\<lambda>sid.
         if sid = - 1 then c_errno E
         else then_io (c_sys E ''umask'') (bind_io (c_sys E ''chdir /'') (\<lambda>r.
           if r < 0 then c_errno E
           else then_io (c_sys E ''close all'') (bind_io (c_sys E ''fork'') (\<lambda>p.
             if p < 0 then c_errno E
             else if 0 < p then exit_io 0
             else bind_io (hpssixd_setup_pidfile E pid (Some data)) (\<lambda>ok.
               if \<not> ok then c_errno E
               else try_io (hpssixd_setup_signals E) (\<lambda>_. c_errno E)
                 (then_io (lift_io (sprintf_buf 20 ''hpssixd:%s'' [PStr (dd_name data)]))
                   (then_io (c_sys E ''openlog'') (return_io 0)))))))))))"

definition hpssixd_daemonize :: "env \<Rightarrow> int \<Rightarrow> hpssixd_daemon_data option \<Rightarrow> bool \<Rightarrow> int io" where
  "hpssixd_daemonize E pid data systemd = (case data of
     None \<Rightarrow> return_io EINVAL
   | Some d \<Rightarrow> if systemd then daemonize_systemd else daemonize_sysv E pid d)"

section \<open>Output of a child process\<close>

text \<open>
  \<open>catch_line_output\<close>: the new value, \<open>None\<close> when the pointer arithmetic leaves the
  line (no colon, or nothing after it).
\<close>

definition catch_line_output :: "string \<Rightarrow> string \<Rightarrow> u64 \<Rightarrow> u64 option" where
  "catch_line_output line key val =
     (if \<not> strneq line key (length key) then Some val
      else (case strrchr line (CHR '':'') of
        None \<Rightarrow> None
      | Some pos \<Rightarrow> if length pos < 2 then None else Some (fst (strtoull0 (drop 2 pos)))))"

text \<open>One line for several keys, each with its variable; then all lines, which are echoed.\<close>

fun catch_keys :: "string \<Rightarrow> (string \<times> u64) list \<Rightarrow> (string \<times> u64) list option" where
  "catch_keys line [] = Some []"
| "catch_keys line ((key, val) # kvs) =
     (case catch_line_output line key val of
        None \<Rightarrow> None
      | Some val' \<Rightarrow> map_option (Cons (key, val')) (catch_keys line kvs))"

fun read_output :: "string list \<Rightarrow> (string \<times> u64) list \<Rightarrow> (string \<times> u64) list io" where
  "read_output [] kvs = return_io kvs"
| "read_output (line # ls) kvs =
     then_io (c_puts line) (bind_io (lift_io (catch_keys line kvs)) (read_output ls))"

section \<open>RPC\<close>

definition HPSSIXD_SCANNER :: u32 where "HPSSIXD_SCANNER = 0x49550001"
definition HPSSIXD_BUILDER :: u32 where "HPSSIXD_BUILDER = 0x49550002"
definition HPSSIXD_EXTRACTOR :: u32 where "HPSSIXD_EXTRACTOR = 0x49550003"

text \<open>The client stubs: the result, \<open>None\<close> for the NULL returned when the call fails.\<close>

definition scanner_connect_1 :: "env \<Rightarrow> int \<Rightarrow> int option io" where
  "scanner_connect_1 E arg = clnt_call E HPSSIXD_SCANNER 1 (of_int arg)"

definition builder_run_1 :: "env \<Rightarrow> u64 \<Rightarrow> int option io" where
  "builder_run_1 E arg = clnt_call E HPSSIXD_BUILDER 1 arg"

definition builder_alive_1 :: "env \<Rightarrow> int option io" where
  "builder_alive_1 E = clnt_call E HPSSIXD_BUILDER 2 0"

definition builder_terminate_1 :: "env \<Rightarrow> int option io" where
  "builder_terminate_1 E = clnt_call E HPSSIXD_BUILDER 3 0"

definition extractor_run_1 :: "env \<Rightarrow> u64 \<Rightarrow> int option io" where
  "extractor_run_1 E arg = clnt_call E HPSSIXD_EXTRACTOR 1 arg"

definition extractor_alive_1 :: "env \<Rightarrow> int option io" where
  "extractor_alive_1 E = clnt_call E HPSSIXD_EXTRACTOR 2 0"

definition extractor_terminate_1 :: "env \<Rightarrow> int option io" where
  "extractor_terminate_1 E = clnt_call E HPSSIXD_EXTRACTOR 3 0"

text \<open>
  A request: the procedure number and the decoded argument, \<open>None\<close> when it does not
  decode.  The answer of a dispatcher: a reply, or one of the protocol errors.
\<close>

datatype rpc_reply = ReplyVoid | ReplyInt int | ErrNoProc | ErrDecode

text \<open>
  The body the three dispatchers share: NULLPROC is answered at once, an unknown
  procedure is refused, the argument is decoded, the procedure is run on the
  service's state and its result is sent.
\<close>

definition svc_dispatch ::
  "(nat \<Rightarrow> (u64 \<Rightarrow> 's \<Rightarrow> (int \<times> 's) io) option) \<Rightarrow> nat \<Rightarrow> u64 option \<Rightarrow> 's \<Rightarrow> (rpc_reply \<times> 's) io" where
  "svc_dispatch procs rq_proc arg st =
     (if rq_proc = 0 then return_io (ReplyVoid, st)
      else (case procs rq_proc of
        None \<Rightarrow> return_io (ErrNoProc, st)
      | Some local \<Rightarrow> (case arg of
          None \<Rightarrow> return_io (ErrDecode, st)
        | Some a \<Rightarrow> bind_io (local a st) (\<lambda>(result, st'). return_io (ReplyInt result, st')))))"

text \<open>The identities of the daemons (hpssixd.h).\<close>

abbreviation (input) HPSSIXD_ID_SCANNER :: int where "HPSSIXD_ID_SCANNER \<equiv> 0"
abbreviation (input) HPSSIXD_ID_BUILDER :: int where "HPSSIXD_ID_BUILDER \<equiv> 1"
abbreviation (input) HPSSIXD_ID_EXTRACTOR :: int where "HPSSIXD_ID_EXTRACTOR \<equiv> 2"

text \<open>
  \<open>connect_scanner\<close>, the same in both workers: after a failed call the NULL result
  is dereferenced.
\<close>

definition connect_scanner :: "env \<Rightarrow> string option \<Rightarrow> int \<Rightarrow> int io" where
  "connect_scanner E host ident =
     bind_io (clnt_create E host HPSSIXD_SCANNER) (\<lambda>e. case e of
       Some _ \<Rightarrow> return_io (- 1)
     | None \<Rightarrow> bind_io (scanner_connect_1 E ident) (\<lambda>r.
         then_io (clnt_destroy HPSSIXD_SCANNER)
           (bind_io (lift_io r) (\<lambda>v. return_io (if v = 0 then 0 else - 1)))))"

section \<open>Reading back a report\<close>

lemma strrchr_colon: "CHR '':'' \<notin> set r \<Longrightarrow> strrchr (p @ CHR '':'' # r) (CHR '':'') = Some (CHR '':'' # r)"
  by (rule strrchr_append)

lemma colon_free_dec: "CHR '':'' \<notin> set (dec n)"
  using dec_isdigit [of "CHR '':''" n] by auto

text \<open>A line that prints a number after the key and a colon gives the number.\<close>

lemma catch_line_number:
  "catch_line_output (key @ '': '' @ dec (unat v) @ [NL]) key old = Some v"
proof -
  have "CHR '':'' \<notin> set (CHR '' '' # dec (unat v) @ [NL])"
    using colon_free_dec by simp
  then have "strrchr (key @ '': '' @ dec (unat v) @ [NL]) (CHR '':'') = Some (CHR '':'' # '' '' @ dec (unat v) @ [NL])"
    using strrchr_colon [of "'' '' @ dec (unat v) @ [NL]" key] by simp
  moreover have "strtoull0 (dec (unat v) @ [NL]) = (sat64 False (unat v), [NL])"
    by (rule strtoull0_dec) simp_all
  ultimately show ?thesis
    by (simp add: catch_line_output_def strneq_def)
qed

text \<open>A line that does not start with the key leaves the value.\<close>

lemma catch_line_other: "\<not> prefix key line \<Longrightarrow> catch_line_output line key old = Some old"
  by (metis append_eq_conv_conj catch_line_output_def prefix_def strneq_def take_all_iff order_refl append_take_drop_id)

text \<open>A report: a line for each key.  \<open>report_keys\<close> are keys that no other key of the report can be taken for.\<close>

definition report_line :: "string \<times> u64 \<Rightarrow> string" where
  "report_line kv = fst kv @ '': '' @ dec (unat (snd kv)) @ [NL]"

definition report_keys :: "string list \<Rightarrow> bool" where
  "report_keys keys \<longleftrightarrow> sorted_wrt parallel keys \<and> (\<forall>k\<in>set keys. NL \<notin> set k \<and> NUL \<notin> set k \<and> length k < 100)"

definition set_key :: "string \<times> u64 \<Rightarrow> (string \<times> u64) list \<Rightarrow> (string \<times> u64) list" where
  "set_key kv = map (\<lambda>(k, v). (k, if k = fst kv then snd kv else v))"

lemma parallel_report: "k \<parallel> fst kv \<Longrightarrow> \<not> prefix k (report_line kv)"
  unfolding report_line_def by (metis parallel_append parallelD1 parallelI append_Nil2 prefix_def prefix_same_cases)

lemma catch_keys_report:
  "\<forall>k\<in>set (map fst kvs). k = fst kv \<or> k \<parallel> fst kv \<Longrightarrow> catch_keys (report_line kv) kvs = Some (set_key kv kvs)"
proof (induction kvs)
  case (Cons p kvs)
  obtain k v where p: "p = (k, v)" by (cases p)
  have "catch_line_output (report_line kv) k v = Some (if k = fst kv then snd kv else v)"
    using Cons.prems catch_line_number [of "fst kv" "snd kv" v] catch_line_other [OF parallel_report, of k kv v]
    by (auto simp: p report_line_def)
  then show ?case using Cons by (simp add: p set_key_def)
qed (simp add: set_key_def)

lemma map_fst_set_key [simp]: "map fst (set_key kv kvs) = map fst kvs"
  by (auto simp: set_key_def)

text \<open>Lines without a key change nothing; a report sets the values of its keys.\<close>

lemma catch_keys_noise:
  "\<forall>k\<in>set (map fst kvs). \<not> prefix k line \<Longrightarrow> catch_keys line kvs = Some kvs"
  by (induction kvs) (auto simp: catch_line_other)

lemma read_output_append:
  "read_output ls kvs tr = (Ret kvs', tr1) \<Longrightarrow> read_output (ls @ ms) kvs tr = read_output ms kvs' tr1"
proof (induction ls arbitrary: kvs tr)
  case (Cons line ls)
  then show ?case
    by (cases "catch_keys line kvs") (auto simp: then_io_def bind_io_apply c_puts_def)
qed simp

lemma read_output_noise:
  "\<forall>l\<in>set ls. \<forall>k\<in>set (map fst kvs). \<not> prefix k l \<Longrightarrow> \<exists>tr'. read_output ls kvs tr = (Ret kvs, tr')"
  by (induction ls arbitrary: tr) (auto simp: catch_keys_noise bind_io_apply c_puts_def then_io_def)

lemma read_output_report:
  "\<forall>k\<in>set (map fst kvs). \<forall>kv\<in>set ls. k = fst kv \<or> k \<parallel> fst kv \<Longrightarrow>
     \<exists>tr'. read_output (map report_line ls) kvs tr = (Ret (fold set_key ls kvs), tr')"
proof (induction ls arbitrary: kvs tr)
  case (Cons kv ls)
  have "map fst (set_key kv kvs) = map fst kvs" by simp
  with Cons.prems have "\<forall>k\<in>set (map fst (set_key kv kvs)). \<forall>kv\<in>set ls. k = fst kv \<or> k \<parallel> fst kv"
    by (metis list.set_intros(2))
  from Cons.IH [OF this, of "EvOut (report_line kv) # tr"]
  show ?case using Cons.prems by (simp add: catch_keys_report bind_io_apply c_puts_def then_io_def)
qed simp

lemma fold_set_key:
  "distinct (map fst (ms @ ls)) \<Longrightarrow> map fst kvs = map fst ls \<Longrightarrow> fold set_key ls (ms @ kvs) = ms @ ls"
proof (induction ls arbitrary: ms kvs)
  case (Cons kv ls)
  then obtain v kvs' where kvs: "kvs = (fst kv, v) # kvs'" "map fst kvs' = map fst ls" by (cases kvs) auto
  have same: "map (\<lambda>(k, v). (k, if k = fst kv then snd kv else v)) xs = xs" if "fst kv \<notin> fst ` set xs" for xs
    using that by (induction xs) auto
  have "set (map fst kvs') = set (map fst ls)" using kvs(2) by simp
  then have "fst kv \<notin> fst ` set ms" "fst kv \<notin> fst ` set kvs'"
    using Cons.prems(1) by auto
  then have "set_key kv (ms @ kvs) = (ms @ [kv]) @ kvs'" by (simp add: set_key_def kvs same)
  then show ?case using Cons.IH [of "ms @ [kv]" kvs'] Cons.prems kvs by simp
qed simp

lemma parallel_distinct: "sorted_wrt parallel ks \<Longrightarrow> distinct ks \<and> (\<forall>k\<in>set ks. \<forall>k'\<in>set ks. k = k' \<or> k \<parallel> k')"
  by (induction ks) (auto dest: parallel_commute [THEN iffD1])

lemma read_report:
  assumes keys: "report_keys (map fst ls)" "map fst kvs = map fst ls"
    and noise: "\<forall>l\<in>set (pr @ post). \<forall>kv\<in>set ls. \<not> prefix (fst kv) l"
  shows "\<exists>tr'. read_output (pr @ map report_line ls @ post) kvs tr = (Ret ls, tr')"
proof -
  have d: "distinct (map fst ls)" "\<forall>k\<in>set (map fst ls). \<forall>k'\<in>set (map fst ls). k = k' \<or> k \<parallel> k'"
    using keys(1) parallel_distinct unfolding report_keys_def by blast+
  have "\<forall>l\<in>set (pr @ post). \<forall>k\<in>set (map fst ls). \<not> prefix k l" using noise by simp
  then have n: "\<forall>l\<in>set (pr @ post). \<forall>k\<in>set (map fst kvs). \<not> prefix k l" by (simp only: keys(2))
  obtain t1 where 1: "read_output pr kvs tr = (Ret kvs, t1)"
    using read_output_noise [of pr kvs tr] n by auto
  obtain t2 where 2: "read_output (map report_line ls) kvs t1 = (Ret (fold set_key ls kvs), t2)"
    using read_output_report [of kvs ls t1] d(2) keys(2) by auto
  have "fold set_key ls kvs = ls" using fold_set_key [of "[]" ls kvs] d(1) keys(2) by simp
  moreover obtain t3 where "read_output post ls t2 = (Ret ls, t3)"
    using read_output_noise [of post ls t2] noise by auto
  ultimately show ?thesis
    using 1 2 by (simp only: read_output_append [OF 1] read_output_append [OF 2]) blast
qed

text \<open>Complete lines that fit are what \<open>fgets\<close> gives.\<close>

definition whole_line :: "string \<Rightarrow> bool" where
  "whole_line l \<longleftrightarrow> l \<noteq> [] \<and> last l = NL \<and> NL \<notin> set (butlast l) \<and> NUL \<notin> set l \<and> length l < LINE_MAX - 2"

lemma fgets_whole_lines:
  assumes "\<forall>l\<in>set ls. whole_line l"
  shows "fgets_lines (LINE_MAX - 1) (concat ls) = ls"
proof -
  have ends: "map (\<lambda>l. l @ [NL]) (map butlast ls) = ls"
    using assms by (auto simp: whole_line_def intro!: map_idI) (metis append_butlast_last_id)
  have "\<forall>l\<in>set (map butlast ls). NL \<notin> set l \<and> length l < LINE_MAX - 1 - 1"
    using assms by (auto simp: whole_line_def)
  from fgets_raw_lines [OF this] have "fgets_raw (LINE_MAX - 1 - 1) (concat ls) = ls"
    using ends by simp
  moreover have "map cstr ls = ls"
    using assms by (auto simp: whole_line_def cstr_def intro!: map_idI takeWhile_all)
  ultimately show ?thesis by (simp add: fgets_lines_def)
qed

lemma whole_report:
  assumes "report_keys (map fst ls)"
  shows "\<forall>l\<in>set (map report_line ls). whole_line l"
proof
  fix l assume "l \<in> set (map report_line ls)"
  then obtain kv where kv: "kv \<in> set ls" "l = report_line kv" by auto
  let ?d = "dec (unat (snd kv))"
  have k: "NL \<notin> set (fst kv)" "NUL \<notin> set (fst kv)" "length (fst kv) < 100"
    using assms kv(1) by (auto simp: report_keys_def)
  have d: "NL \<notin> set ?d" "NUL \<notin> set ?d" using dec_isdigit [of NL] dec_isdigit [of NUL] by (auto simp: isdigit_def code_def)
  have "length ?d \<le> 20" by (rule length_dec_u64)
  with k d show "whole_line l" by (simp add: whole_line_def kv(2) report_line_def butlast_append)
qed

end
