(* ===== verification/Hpssix_Db.thy ===== *)
theory Hpssix_Db
  imports Hpssix_Utils
begin

text \<open>
  The PostgreSQL access of libhpssix (hpssix-db.h, hpssix-db.c): connection,
  commands, the COPY protocol and the bulk loader \<open>hpssix_db_copy\<close>.  libpq is a
  parameter.  The properties are about the calls that reach the server: a
  successful copy has sent exactly the lines it should, in order and once, and a
  failed copy has been taken back.
\<close>

section \<open>Data\<close>

record hpssix_db =
  dbconn :: "nat option"

record hpssix_tag =
  kid :: u64
  key :: "string option"
  val :: "string option"

record hpssix_xattr =
  xattr_oid :: u64
  tags :: "hpssix_tag list"

text \<open>
  A line processor gets the line and its private data; it returns its result, the
  contents of the output buffer and the data.
\<close>

type_synonym 'd line_processor = "string \<Rightarrow> 'd \<Rightarrow> (int \<times> string \<times> 'd) io"

record 'd hpssix_db_copy_t =
  atomic :: bool
  stmt_init :: "string option"
  stmt_copy :: "string option"
  stmt_fini :: "string option"
  input_csv :: "string option"
  copy_n_processed :: u64
  line_processor :: "'d line_processor option"

section \<open>Connection and commands\<close>

definition hpssix_db_escape_literal :: "env \<Rightarrow> hpssix_db \<Rightarrow> string \<Rightarrow> string option" where
  "hpssix_db_escape_literal E self str = env_pq_escape E (dbconn self) str"

definition hpssix_db_psql_exec :: "env \<Rightarrow> hpssix_db \<Rightarrow> string option \<Rightarrow> int io" where
  "hpssix_db_psql_exec E self command = (case command of
     None \<Rightarrow> return_io EINVAL
   | Some cmd \<Rightarrow> bind_io (PQexec E (dbconn self) cmd) (\<lambda>res.
       return_io (if res_status res \<noteq> PGRES_COMMAND_OK then EIO else 0)))"

text \<open>A null result, for want of memory, has the status of a fatal error and no rows.\<close>

definition null_result :: pgresult where
  "null_result = \<lparr>res_status = PGRES_FATAL_ERROR, res_rows = []\<rparr>"

definition hpssix_db_psql_query :: "env \<Rightarrow> hpssix_db \<Rightarrow> string \<Rightarrow> parg list \<Rightarrow> pgresult io" where
  "hpssix_db_psql_query E self format argv =
     bind_io (lift_io (printf format argv)) (\<lambda>qstr.
     bind_io (alloc E (length qstr + 1)) (\<lambda>ok.
     if \<not> ok then return_io null_result else PQexec E (dbconn self) qstr))"

definition hpssix_db_copy_init :: "env \<Rightarrow> hpssix_db \<Rightarrow> string option \<Rightarrow> int io" where
  "hpssix_db_copy_init E self command = (case command of
     None \<Rightarrow> return_io EINVAL
   | Some cmd \<Rightarrow> bind_io (PQexec E (dbconn self) cmd) (\<lambda>res.
       return_io (if res_status res \<noteq> PGRES_COPY_IN then EIO else 0)))"

definition hpssix_db_copy_put :: "env \<Rightarrow> hpssix_db option \<Rightarrow> string option \<Rightarrow> int io" where
  "hpssix_db_copy_put E self str = (case (self, str) of
     (Some db, Some s) \<Rightarrow> bind_io (PQputCopyData E (dbconn db) s) (\<lambda>ret.
       return_io (if ret \<noteq> 1 then EIO else 0))
   | _ \<Rightarrow> return_io EINVAL)"

definition hpssix_db_copy_end :: "env \<Rightarrow> hpssix_db \<Rightarrow> bool \<Rightarrow> int io" where
  "hpssix_db_copy_end E self abort =
     then_io (PQputCopyEnd (dbconn self) (if abort then Some ''abort'' else None))
       (if abort then return_io 0
        else bind_io (PQgetResult E (dbconn self)) (\<lambda>st.
          return_io (if st = PGRES_COMMAND_OK then 0 else EIO)))"

definition hpssix_db_begin_transaction :: "env \<Rightarrow> hpssix_db \<Rightarrow> int io" where
  "hpssix_db_begin_transaction E self = hpssix_db_psql_exec E self (Some ''BEGIN;'')"

definition hpssix_db_end_transaction :: "env \<Rightarrow> hpssix_db \<Rightarrow> int io" where
  "hpssix_db_end_transaction E self = hpssix_db_psql_exec E self (Some ''END;'')"

definition hpssix_db_rollback :: "env \<Rightarrow> hpssix_db \<Rightarrow> int io" where
  "hpssix_db_rollback E self = hpssix_db_psql_exec E self (Some ''ABORT;'')"

definition hpssix_db_connect ::
  "env \<Rightarrow> hpssix_db option \<Rightarrow> hpssix_config \<Rightarrow> (int \<times> hpssix_db option) io" where
  "hpssix_db_connect E self config = (case self of
     None \<Rightarrow> return_io (- 1, None)
   | Some db \<Rightarrow>
       bind_io (lift_io (sprintf_buf 512 ''postgresql://%s:%s@%s:%d/%s''
          [PStr (db_user config), PStr (db_password config), PStr (db_host config),
           PInt (ucast (db_port config)), PStr (db_database config)])) (\<lambda>uri.
       bind_io (PQconnectdb E uri) (\<lambda>conn. case conn of
         None \<Rightarrow> return_io (- 1, Some db)
       | Some c \<Rightarrow> return_io (0, Some (db\<lparr>dbconn := Some c\<rparr>)))))"

definition hpssix_db_disconnect :: "hpssix_db option \<Rightarrow> int io" where
  "hpssix_db_disconnect self = (case self of
     None \<Rightarrow> return_io 0
   | Some db \<Rightarrow> (case dbconn db of
       None \<Rightarrow> return_io 0
     | Some c \<Rightarrow> then_io (PQfinish c) (return_io 0)))"

text \<open>The schema text is generated at build time: an argument.\<close>

definition hpssix_db_initialize :: "env \<Rightarrow> string \<Rightarrow> hpssix_db \<Rightarrow> int io" where
  "hpssix_db_initialize E schema_sqlstr self = hpssix_db_psql_exec E self (Some schema_sqlstr)"

section \<open>Extended attributes\<close>

text \<open>\<open>PQgetvalue(res, i, k)\<close>: a null pointer, which every caller dereferences, out of range.\<close>

definition PQgetvalue :: "pgresult \<Rightarrow> nat \<Rightarrow> nat \<Rightarrow> string option" where
  "PQgetvalue res i k = (if i < length (res_rows res) \<and> k < length (res_rows res ! i)
     then Some (res_rows res ! i ! k) else None)"

definition populate_tag :: "env \<Rightarrow> hpssix_db \<Rightarrow> hpssix_tag \<Rightarrow> (int \<times> hpssix_tag) io" where
  "populate_tag E self tag =
     bind_io (lift_io (key tag)) (\<lambda>k.
     case hpssix_db_escape_literal E self k of
       None \<Rightarrow> return_io (ENOMEM, tag)
     | Some escaped_key \<Rightarrow>
       bind_io (hpssix_db_psql_query E self ''select * from hpssix_attr_key_pop(%s);''
                  [PStr (Some escaped_key)]) (\<lambda>res.
       if res_status res \<noteq> PGRES_TUPLES_OK then return_io (EIO, tag)
       else bind_io (lift_io (PQgetvalue res 0 0)) (\<lambda>v.
         return_io (0, tag\<lparr>kid := fst (strtoull0 v)\<rparr>))))"

fun populate_tags ::
  "env \<Rightarrow> hpssix_db \<Rightarrow> hpssix_tag list \<Rightarrow> hpssix_tag list \<Rightarrow> (int \<times> hpssix_tag list) io" where
  "populate_tags E self [] done = return_io (0, done)"
| "populate_tags E self (t # ts) done =
     bind_io (populate_tag E self t) (\<lambda>(ret, t').
     if ret \<noteq> 0 then return_io (ret, done @ t' # ts)
     else populate_tags E self ts (done @ [t']))"

fun populate_xattrs ::
  "env \<Rightarrow> hpssix_db \<Rightarrow> hpssix_xattr list \<Rightarrow> hpssix_xattr list \<Rightarrow> (int \<times> hpssix_xattr list) io" where
  "populate_xattrs E self [] done = return_io (0, done)"
| "populate_xattrs E self (x # xs) done =
     bind_io (populate_tags E self (tags x) []) (\<lambda>(ret, ts).
     if ret \<noteq> 0 then return_io (ret, done @ x\<lparr>tags := ts\<rparr> # xs)
     else populate_xattrs E self xs (done @ [x\<lparr>tags := ts\<rparr>]))"

definition hpssix_db_populate_xattr_keys ::
  "env \<Rightarrow> hpssix_db \<Rightarrow> hpssix_xattr list \<Rightarrow> (int \<times> hpssix_xattr list) io" where
  "hpssix_db_populate_xattr_keys E self xattrs = populate_xattrs E self xattrs []"

definition sql_delete_xattr :: string where
  "sql_delete_xattr = ''delete from hpssix_attr_val'' @ [NL] @ ''where oid=%lu;'' @ [NL]"

definition hpssix_db_delete_xattrs :: "env \<Rightarrow> hpssix_db \<Rightarrow> hpssix_xattr list \<Rightarrow> int io" where
  "hpssix_db_delete_xattrs E self xattrs = for_each (\<lambda>x.
     bind_io (hpssix_db_psql_query E self sql_delete_xattr [PInt (xattr_oid x)]) (\<lambda>res.
     return_io (if res_status res \<noteq> PGRES_COMMAND_OK then EIO else 0))) xattrs"

section \<open>Documents\<close>

definition sql_index_tsv :: string where
  "sql_index_tsv = ''INSERT INTO hpssix_attr_document'' @ [NL] @
     ''  (oid, meta, text) VALUES (%lu, %s, %s)'' @ [NL] @
     ''ON CONFLICT (oid)'' @ [NL] @
     ''DO UPDATE SET'' @ [NL] @
     ''  meta = EXCLUDED.meta, text = EXCLUDED.text;''"

definition hpssix_db_index_tsv ::
  "env \<Rightarrow> hpssix_db \<Rightarrow> u64 \<Rightarrow> string option \<Rightarrow> string option \<Rightarrow> int io" where
  "hpssix_db_index_tsv E self object_id meta text = (case meta of
     None \<Rightarrow> return_io EINVAL
   | Some mt \<Rightarrow> (case hpssix_db_escape_literal E self mt of
       None \<Rightarrow> return_io ENOMEM
     | Some escaped_meta \<Rightarrow>
         (case (case text of None \<Rightarrow> Some [SQUOTE, SQUOTE]
                | Some t \<Rightarrow> hpssix_db_escape_literal E self t) of
            None \<Rightarrow> return_io ENOMEM
          | Some escaped_text \<Rightarrow>
              bind_io (hpssix_db_psql_query E self sql_index_tsv
                 [PInt object_id, PStr (Some escaped_meta), PStr (Some escaped_text)]) (\<lambda>res.
              return_io (if res_status res \<noteq> PGRES_COMMAND_OK then EIO else 0)))))"

section \<open>Bulk loading\<close>

text \<open>
  The line loop of \<open>hpssix_db_copy\<close>: the result code (0 when all lines went
  through), the number of lines sent and the processor's data.
\<close>

fun copy_lines ::
  "env \<Rightarrow> hpssix_db \<Rightarrow> 'd line_processor option \<Rightarrow> string list \<Rightarrow> u64 \<Rightarrow> 'd \<Rightarrow> (int \<times> u64 \<times> 'd) io" where
  "copy_lines E self proc [] n d = return_io (0, n, d)"
| "copy_lines E self proc (linebuf # ls) n d =
     (if is_line_empty (Some linebuf) then copy_lines E self proc ls n d
      else bind_io (case proc of
                      None \<Rightarrow> return_io (0, linebuf, d)
                    | Some f \<Rightarrow> f linebuf d) (\<lambda>(ret, rbuf, d').
        if ret < 0 then return_io (ret, n, d')
        else bind_io (hpssix_db_copy_put E (Some self)
                        (Some (if ret = 1 then rbuf else linebuf))) (\<lambda>ret.
          if ret \<noteq> 0 then return_io (ret, n, d')
          else copy_lines E self proc ls (n + 1) d')))"

definition copy_rollback :: "env \<Rightarrow> hpssix_db \<Rightarrow> bool \<Rightarrow> u64 \<Rightarrow> unit io" where
  "copy_rollback E self is_atomic n_processed =
     then_io (if n_processed \<noteq> 0 then hpssix_db_copy_end E self True else return_io 0)
       (then_io (if is_atomic then hpssix_db_rollback E self else return_io 0) (return_io ()))"

definition copy_fail ::
  "env \<Rightarrow> hpssix_db \<Rightarrow> 'd hpssix_db_copy_t \<Rightarrow> u64 \<Rightarrow> 'd \<Rightarrow> int \<Rightarrow> (int \<times> 'd hpssix_db_copy_t \<times> 'd) io" where
  "copy_fail E self copy n d ret =
     then_io (copy_rollback E self (atomic copy) n) (return_io (ret, copy, d))"

definition exec_opt :: "env \<Rightarrow> hpssix_db \<Rightarrow> string option \<Rightarrow> int io" where
  "exec_opt E self stmt = (case stmt of
     None \<Rightarrow> return_io 0 | Some s \<Rightarrow> hpssix_db_psql_exec E self (Some s))"

definition copy_begin :: "env \<Rightarrow> hpssix_db \<Rightarrow> 'd hpssix_db_copy_t \<Rightarrow> int io" where
  "copy_begin E self copy =
     (if atomic copy then hpssix_db_begin_transaction E self else return_io 0)"

definition copy_commit :: "env \<Rightarrow> hpssix_db \<Rightarrow> 'd hpssix_db_copy_t \<Rightarrow> int io" where
  "copy_commit E self copy =
     (if atomic copy then hpssix_db_end_transaction E self else return_io 0)"

text \<open>From the end of the input on: end the copy, run the final statement, commit.\<close>

definition copy_finish ::
  "env \<Rightarrow> hpssix_db \<Rightarrow> 'd hpssix_db_copy_t \<Rightarrow> u64 \<Rightarrow> 'd \<Rightarrow> (int \<times> 'd hpssix_db_copy_t \<times> 'd) io" where
  "copy_finish E self copy n d =
     try_io (hpssix_db_copy_end E self False) (copy_fail E self copy n d)
     (try_io (exec_opt E self (stmt_fini copy)) (copy_fail E self copy n d)
     (try_io (copy_commit E self copy)
        (copy_fail E self copy n d)
        (return_io (0, copy\<lparr>copy_n_processed := n\<rparr>, d))))"

text \<open>
  From opening the file on.  The read error number of the stream is \<open>ferr\<close>; the
  result is the return value, the loader with its count and the processor's data.
\<close>

definition copy_stream ::
  "env \<Rightarrow> hpssix_db \<Rightarrow> 'd hpssix_db_copy_t \<Rightarrow> 'd \<Rightarrow> string list \<Rightarrow> int \<Rightarrow>
   (int \<times> 'd hpssix_db_copy_t \<times> 'd) io" where
  "copy_stream E self copy d lines ferr =
     then_io (copy_begin E self copy)
     (try_io (exec_opt E self (stmt_init copy)) (copy_fail E self copy 0 d)
     (try_io (hpssix_db_copy_init E self (stmt_copy copy)) (copy_fail E self copy 0 d)
     (bind_io (copy_lines E self (line_processor copy) lines 0 d) (\<lambda>(ret, n, d).
      if ret \<noteq> 0 then copy_fail E self copy n d ret
      else if ferr \<noteq> 0 then copy_fail E self copy n d ferr
      else copy_finish E self copy n d))))"

definition hpssix_db_copy ::
  "env \<Rightarrow> hpssix_db option \<Rightarrow> 'd hpssix_db_copy_t option \<Rightarrow> 'd \<Rightarrow>
   (int \<times> 'd hpssix_db_copy_t option \<times> 'd) io" where
  "hpssix_db_copy E self copy d = (case (self, copy) of
     (Some db, Some cp) \<Rightarrow> (case (input_csv cp, stmt_copy cp) of
       (Some csv, Some _) \<Rightarrow>
         bind_io (c_fopen E csv) (\<lambda>r. case r of
           Inl e \<Rightarrow> return_io (e, copy, d)
         | Inr (content, ferr) \<Rightarrow>
             bind_io (copy_stream E db cp d (fgets_lines (LINE_MAX - 1) content) ferr)
               (\<lambda>(ret, cp', d'). return_io (ret, Some cp', d')))
     | _ \<Rightarrow> return_io (EINVAL, copy, d))
   | _ \<Rightarrow> return_io (EINVAL, copy, d))"

section \<open>What reaches the server\<close>

text \<open>The data accepted by \<open>PQputCopyData\<close> on a connection, oldest first.\<close>

definition sent_by :: "nat option \<Rightarrow> event \<Rightarrow> string list" where
  "sent_by c ev = (case ev of EvPqPut d s r \<Rightarrow> if d = c \<and> r = 1 then [s] else [] | _ \<Rightarrow> [])"

primrec sent :: "nat option \<Rightarrow> trace \<Rightarrow> string list" where
  "sent c [] = []"
| "sent c (ev # tr) = sent c tr @ sent_by c ev"

declare sent_by_def [simp]

lemma preserves_sent [intro]:
  "preserves (\<lambda>tr. sent c tr = s) (hpssix_db_psql_exec E db cmd)"
  "preserves (\<lambda>tr. sent c tr = s) (hpssix_db_copy_init E db cmd)"
  "preserves (\<lambda>tr. sent c tr = s) (hpssix_db_copy_end E db ab)"
  "preserves (\<lambda>tr. sent c tr = s) (hpssix_db_psql_query E db fmt args)"
  by (auto simp: preserves_def hpssix_db_psql_exec_def hpssix_db_copy_init_def then_io_apply
      hpssix_db_copy_end_def hpssix_db_psql_query_def bind_io_apply PQexec_def PQputCopyEnd_def
      PQgetResult_def lift_io_def alloc_def split: option.splits if_splits)

lemmas sent_kept = preserves_sent [THEN preservesD, OF refl]

lemma preserves_exec_opt [intro]: "preserves (\<lambda>tr. sent c tr = s) (exec_opt E db stmt)"
  by (auto simp: exec_opt_def split: option.splits)

lemma preserves_txn [intro]:
  "preserves (\<lambda>tr. sent c tr = s) (copy_begin E db copy)"
  "preserves (\<lambda>tr. sent c tr = s) (copy_commit E db copy)"
  by (auto simp: copy_begin_def copy_commit_def hpssix_db_begin_transaction_def
      hpssix_db_end_transaction_def)

lemma copy_fail_not_0: "r \<noteq> 0 \<Longrightarrow> copy_fail E self copy n d r w \<noteq> (Ret (0, copy', d'), w')"
  by (auto simp: copy_fail_def then_io_def bind_io_eq_Ret_iff)

lemma copy_finish_success:
  assumes "copy_finish E self copy n d tr = (Ret (0, copy', d'), tr')"
  shows "sent (dbconn self) tr' = sent (dbconn self) tr \<and> copy' = copy\<lparr>copy_n_processed := n\<rparr> \<and> d' = d"
proof -
  from assms obtain tr1 where 1: "hpssix_db_copy_end E self False tr = (Ret 0, tr1)"
    and r1: "try_io (exec_opt E self (stmt_fini copy)) (copy_fail E self copy n d)
     (try_io (copy_commit E self copy)
        (copy_fail E self copy n d)
        (return_io (0, copy\<lparr>copy_n_processed := n\<rparr>, d))) tr1 = (Ret (0, copy', d'), tr')"
    unfolding copy_finish_def by (rule try_io_RetD) (rule copy_fail_not_0)
  from r1 obtain tr2 where 2: "exec_opt E self (stmt_fini copy) tr1 = (Ret 0, tr2)"
    and r2: "try_io (copy_commit E self copy)
        (copy_fail E self copy n d)
        (return_io (0, copy\<lparr>copy_n_processed := n\<rparr>, d)) tr2 = (Ret (0, copy', d'), tr')"
    by (rule try_io_RetD) (rule copy_fail_not_0)
  from r2 obtain tr3 where 3: "copy_commit E self copy tr2
      = (Ret 0, tr3)" and r3: "return_io (0 :: int, copy\<lparr>copy_n_processed := n\<rparr>, d) tr3 = (Ret (0, copy', d'), tr')"
    by (rule try_io_RetD) (rule copy_fail_not_0)
  show ?thesis
    using sent_kept(3) [OF 1] preserves_exec_opt [THEN preservesD, OF refl 2]
      preserves_txn(2) [THEN preservesD, OF refl 3] r3 by simp
qed

definition run_processor ::
  "'d line_processor option \<Rightarrow> string \<Rightarrow> 'd \<Rightarrow> (int \<times> string \<times> 'd) io" where
  "run_processor proc l d = (case proc of None \<Rightarrow> return_io (0, l, d) | Some f \<Rightarrow> f l d)"

definition copied_lines :: "string list \<Rightarrow> string list" where
  "copied_lines ls = filter (\<lambda>l. \<not> is_line_empty (Some l)) ls"

text \<open>A server that does what the loader asks of it.\<close>

definition copy_served :: "env \<Rightarrow> hpssix_db \<Rightarrow> 'd hpssix_db_copy_t \<Rightarrow> bool" where
  "copy_served E self copy \<longleftrightarrow>
     stmt_copy copy \<noteq> None \<and>
     (\<forall>tr s. stmt_copy copy = Some s \<longrightarrow>
        res_status (env_pq_exec E tr (dbconn self) s) = PGRES_COPY_IN) \<and>
     (\<forall>tr s. stmt_init copy = Some s \<or> stmt_fini copy = Some s \<or> s = ''BEGIN;'' \<or> s = ''END;'' \<longrightarrow>
        res_status (env_pq_exec E tr (dbconn self) s) = PGRES_COMMAND_OK) \<and>
     (\<forall>tr s. env_pq_put E tr (dbconn self) s = 1) \<and>
     (\<forall>tr. env_pq_result E tr (dbconn self) = PGRES_COMMAND_OK)"

lemma served_calls:
  assumes "copy_served E self copy"
  shows "\<exists>tr'. exec_opt E self (stmt_init copy) tr = (Ret 0, tr')"
    "\<exists>tr'. exec_opt E self (stmt_fini copy) tr = (Ret 0, tr')"
    "\<exists>r tr'. copy_begin E self copy tr = (Ret r, tr')"
    "\<exists>tr'. copy_commit E self copy tr = (Ret 0, tr')"
    "\<exists>tr'. hpssix_db_copy_init E self (stmt_copy copy) tr = (Ret 0, tr')"
    "\<exists>tr'. hpssix_db_copy_end E self False tr = (Ret 0, tr')"
proof -
  have ok: "\<And>tr s. stmt_copy copy = Some s \<Longrightarrow> res_status (env_pq_exec E tr (dbconn self) s) = PGRES_COPY_IN"
    "\<And>tr s. stmt_init copy = Some s \<Longrightarrow> res_status (env_pq_exec E tr (dbconn self) s) = PGRES_COMMAND_OK"
    "\<And>tr s. stmt_fini copy = Some s \<Longrightarrow> res_status (env_pq_exec E tr (dbconn self) s) = PGRES_COMMAND_OK"
    "\<And>tr. res_status (env_pq_exec E tr (dbconn self) ''END;'') = PGRES_COMMAND_OK"
    "\<And>tr. env_pq_result E tr (dbconn self) = PGRES_COMMAND_OK"
    "stmt_copy copy \<noteq> None"
    using assms by (simp_all add: copy_served_def)
  note exec = exec_opt_def hpssix_db_psql_exec_def bind_io_apply PQexec_def
  show "\<exists>tr'. exec_opt E self (stmt_init copy) tr = (Ret 0, tr')"
    by (cases "stmt_init copy") (simp_all add: exec ok)
  show "\<exists>tr'. exec_opt E self (stmt_fini copy) tr = (Ret 0, tr')"
    by (cases "stmt_fini copy") (simp_all add: exec ok)
  show "\<exists>r tr'. copy_begin E self copy tr = (Ret r, tr')"
    by (simp add: copy_begin_def hpssix_db_begin_transaction_def exec)
  show "\<exists>tr'. copy_commit E self copy tr = (Ret 0, tr')"
    by (simp add: copy_commit_def hpssix_db_end_transaction_def exec ok)
  show "\<exists>tr'. hpssix_db_copy_init E self (stmt_copy copy) tr = (Ret 0, tr')"
    using ok(6) by (cases "stmt_copy copy") (simp_all add: hpssix_db_copy_init_def exec ok)
  show "\<exists>tr'. hpssix_db_copy_end E self False tr = (Ret 0, tr')"
    by (simp add: hpssix_db_copy_end_def then_io_apply PQputCopyEnd_def PQgetResult_def bind_io_apply ok)
qed

text \<open>
  The contract of a line processor: it talks to nobody, accepts the lines that are
  \<open>ok\<close>, translates them to \<open>out\<close> and steps its private data by \<open>upd\<close>.
\<close>

locale line_translator =
  fixes proc :: "'d line_processor option"
    and ok :: "string \<Rightarrow> bool" and out :: "string \<Rightarrow> string" and upd :: "'d \<Rightarrow> 'd"
  assumes accepts: "ok l \<Longrightarrow> \<exists>r buf. run_processor proc l d tr = (Ret (r, buf, upd d), tr) \<and>
      0 \<le> r \<and> (if r = 1 then buf else l) = out l"
    and rejects: "\<not> ok l \<Longrightarrow> run_processor proc l d tr = (Ret (r, buf, d'), tr') \<Longrightarrow>
      r < 0 \<and> tr' = tr"
begin

lemma copy_lines_Cons:
  "copy_lines E self proc (l # ls) n d tr =
     (if is_line_empty (Some l) then copy_lines E self proc ls n d tr
      else bind_io (run_processor proc l d) (\<lambda>(ret, rbuf, d').
        if ret < 0 then return_io (ret, n, d')
        else bind_io (hpssix_db_copy_put E (Some self)
                        (Some (if ret = 1 then rbuf else l))) (\<lambda>ret.
          if ret \<noteq> 0 then return_io (ret, n, d')
          else copy_lines E self proc ls (n + 1) d')) tr)"
  by (simp add: run_processor_def)

lemma copy_lines_ok_line:
  assumes "ok l" and "\<not> is_line_empty (Some l)"
  shows "copy_lines E self proc (l # ls) n d tr =
     (let r = env_pq_put E tr (dbconn self) (out l); tr1 = EvPqPut (dbconn self) (out l) r # tr in
      if r = 1 then copy_lines E self proc ls (n + 1) (upd d) tr1 else (Ret (EIO, n, upd d), tr1))"
proof -
  obtain r buf where "run_processor proc l d tr = (Ret (r, buf, upd d), tr)" "0 \<le> r"
    "(if r = 1 then buf else l) = out l"
    using accepts [OF assms(1)] by blast
  then show ?thesis
    using assms(2) unfolding copy_lines_Cons
    by (simp add: bind_io_apply hpssix_db_copy_put_def PQputCopyData_def Let_def)
qed

lemma copy_lines_sent:
  assumes "copy_lines E self proc ls n d tr = (Ret (0, n', d'), tr')"
  shows "sent (dbconn self) tr' = sent (dbconn self) tr @ map out (copied_lines ls) \<and>
     n' = n + of_nat (length (copied_lines ls)) \<and> (\<forall>l\<in>set (copied_lines ls). ok l) \<and>
     d' = (upd ^^ length (copied_lines ls)) d"
  using assms
proof (induction ls arbitrary: n d tr)
  case Nil
  then show ?case by (simp add: copied_lines_def)
next
  case (Cons l ls)
  show ?case
  proof (cases "is_line_empty (Some l)")
    case True
    then show ?thesis using Cons by (simp add: copied_lines_def)
  next
    case False
    have ok: "ok l"
    proof (rule ccontr)
      assume bad: "\<not> ok l"
      from Cons.prems False show False
        unfolding copy_lines_Cons
        by (auto simp: bind_io_eq_Ret_iff split: if_splits dest: rejects [OF bad])
    qed
    let ?r = "env_pq_put E tr (dbconn self) (out l)"
    let ?tr1 = "EvPqPut (dbconn self) (out l) ?r # tr"
    have "?r = 1" "copy_lines E self proc ls (n + 1) (upd d) ?tr1 = (Ret (0, n', d'), tr')"
      using Cons.prems copy_lines_ok_line [OF ok False] by (auto simp: Let_def split: if_splits)
    with Cons.IH ok False show ?thesis
      by (fastforce simp: copied_lines_def funpow_swap1)
  qed
qed

lemma copy_lines_live:
  assumes "\<forall>l\<in>set (copied_lines ls). ok l" and "\<And>tr s. env_pq_put E tr (dbconn self) s = 1"
  shows "\<exists>tr'. copy_lines E self proc ls n d tr
     = (Ret (0, n + of_nat (length (copied_lines ls)), (upd ^^ length (copied_lines ls)) d), tr')"
  using assms(1)
proof (induction ls arbitrary: n d tr)
  case Nil
  then show ?case by (simp add: copied_lines_def)
next
  case (Cons l ls)
  show ?case
  proof (cases "is_line_empty (Some l)")
    case True
    then show ?thesis using Cons by (simp add: copied_lines_def)
  next
    case False
    then have "ok l" using Cons.prems by (simp add: copied_lines_def)
    with False Cons.IH [of "n + 1" "upd d" "EvPqPut (dbconn self) (out l) 1 # tr"] Cons.prems
    show ?thesis
      unfolding copy_lines_ok_line [OF \<open>ok l\<close> False]
      by (simp add: assms(2) copied_lines_def funpow_swap1 add.assoc Let_def)
  qed
qed

text \<open>
  A loader that returned 0 has sent the translation of exactly the non-empty lines
  of its file, in order, and counted them.
\<close>

lemma copy_stream_success:
  assumes run: "copy_stream E self copy d lines ferr tr = (Ret (0, copy', d'), tr')"
    and proc: "line_processor copy = proc"
  shows "sent (dbconn self) tr' = sent (dbconn self) tr @ map out (copied_lines lines) \<and>
     copy' = copy\<lparr>copy_n_processed := of_nat (length (copied_lines lines))\<rparr> \<and>
     (\<forall>l\<in>set (copied_lines lines). ok l) \<and> ferr = 0 \<and>
     d' = (upd ^^ length (copied_lines lines)) d"
proof -
  obtain tr0 where b: "sent (dbconn self) tr0 = sent (dbconn self) tr"
    and r0: "try_io (exec_opt E self (stmt_init copy)) (copy_fail E self copy 0 d)
     (try_io (hpssix_db_copy_init E self (stmt_copy copy)) (copy_fail E self copy 0 d)
     (bind_io (copy_lines E self (line_processor copy) lines 0 d) (\<lambda>(ret, n, d).
      if ret \<noteq> 0 then copy_fail E self copy n d ret
      else if ferr \<noteq> 0 then copy_fail E self copy n d ferr
      else copy_finish E self copy n d))) tr0 = (Ret (0, copy', d'), tr')"
    using run preserves_txn(1) [THEN preservesD, OF refl]
    unfolding copy_stream_def then_io_def bind_io_eq_Ret_iff by blast
  from r0 obtain tr1 where s1: "exec_opt E self (stmt_init copy) tr0 = (Ret 0, tr1)"
    and r1: "try_io (hpssix_db_copy_init E self (stmt_copy copy)) (copy_fail E self copy 0 d)
     (bind_io (copy_lines E self (line_processor copy) lines 0 d) (\<lambda>(ret, n, d).
      if ret \<noteq> 0 then copy_fail E self copy n d ret
      else if ferr \<noteq> 0 then copy_fail E self copy n d ferr
      else copy_finish E self copy n d)) tr1 = (Ret (0, copy', d'), tr')"
    by (rule try_io_RetD) (rule copy_fail_not_0)
  from r1 obtain tr2 where s2: "hpssix_db_copy_init E self (stmt_copy copy) tr1 = (Ret 0, tr2)"
    and r2: "bind_io (copy_lines E self (line_processor copy) lines 0 d) (\<lambda>(ret, n, d).
      if ret \<noteq> 0 then copy_fail E self copy n d ret
      else if ferr \<noteq> 0 then copy_fail E self copy n d ferr
      else copy_finish E self copy n d) tr2 = (Ret (0, copy', d'), tr')"
    by (rule try_io_RetD) (rule copy_fail_not_0)
  from r2 obtain n d1 tr3 where s3: "copy_lines E self proc lines 0 d tr2 = (Ret (0, n, d1), tr3)"
    and f: "ferr = 0" and r3: "copy_finish E self copy n d1 tr3 = (Ret (0, copy', d'), tr')"
    using copy_fail_not_0 proc by (fastforce simp: bind_io_eq_Ret_iff split: if_splits)
  have "sent (dbconn self) tr2 = sent (dbconn self) tr"
    using b sent_kept(2) [OF s2] preserves_exec_opt [THEN preservesD, OF refl s1] by simp
  then show ?thesis
    using copy_lines_sent [OF s3] copy_finish_success [OF r3] f by simp
qed

text \<open>However the loop ends, it counted what it sent.\<close>

lemma copy_lines_count:
  assumes "copy_lines E self proc ls n d tr = (Ret (r, n', d'), tr')"
  shows "\<exists>ks. sent (dbconn self) tr' = sent (dbconn self) tr @ ks \<and> n' = n + of_nat (length ks) \<and>
     length ks \<le> length ls"
  using assms
proof (induction ls arbitrary: n d tr)
  case Nil
  then show ?case by simp
next
  case (Cons l ls)
  consider "is_line_empty (Some l)" | "\<not> is_line_empty (Some l)" "ok l"
    | "\<not> is_line_empty (Some l)" "\<not> ok l" by blast
  then show ?case
  proof cases
    case 1
    then have "copy_lines E self proc ls n d tr = (Ret (r, n', d'), tr')"
      using Cons.prems by simp
    from Cons.IH [OF this] obtain ks where "sent (dbconn self) tr' = sent (dbconn self) tr @ ks"
      "n' = n + of_nat (length ks)" "length ks \<le> length ls" by blast
    then show ?thesis by (intro exI [of _ ks]) simp
  next
    case 2
    let ?r = "env_pq_put E tr (dbconn self) (out l)"
    let ?tr1 = "EvPqPut (dbconn self) (out l) ?r # tr"
    show ?thesis
    proof (cases "?r = 1")
      case True
      then have "copy_lines E self proc ls (n + 1) (upd d) ?tr1 = (Ret (r, n', d'), tr')"
        using Cons.prems copy_lines_ok_line [OF 2(2,1)] by (simp add: Let_def)
      from Cons.IH [OF this] obtain ks where "sent (dbconn self) tr' = sent (dbconn self) ?tr1 @ ks"
        "n' = n + 1 + of_nat (length ks)" "length ks \<le> length ls" by blast
      with True show ?thesis by (intro exI [of _ "out l # ks"]) simp
    next
      case False
      then have "n' = n" "tr' = ?tr1"
        using Cons.prems copy_lines_ok_line [OF 2(2,1)] by (auto simp: Let_def)
      with False show ?thesis by (intro exI [of _ "[]"]) simp
    qed
  next
    case 3
    then have "bind_io (run_processor proc l d) (\<lambda>(ret, rbuf, d').
        if ret < 0 then return_io (ret, n, d')
        else bind_io (hpssix_db_copy_put E (Some self) (Some (if ret = 1 then rbuf else l))) (\<lambda>ret.
          if ret \<noteq> 0 then return_io (ret, n, d')
          else copy_lines E self proc ls (n + 1) d')) tr = (Ret (r, n', d'), tr')"
      using Cons.prems unfolding copy_lines_Cons by simp
    then obtain q buf d1 tr1 where "run_processor proc l d tr = (Ret (q, buf, d1), tr1)"
      and rest: "(if q < 0 then return_io (q, n, d1)
        else bind_io (hpssix_db_copy_put E (Some self) (Some (if q = 1 then buf else l))) (\<lambda>ret.
          if ret \<noteq> 0 then return_io (ret, n, d1)
          else copy_lines E self proc ls (n + 1) d1)) tr1 = (Ret (r, n', d'), tr')"
      unfolding bind_io_eq_Ret_iff [of "run_processor proc l d"] by auto
    moreover have "q < 0" "tr1 = tr" using rejects [OF 3(2)] calculation(1) by blast+
    ultimately show ?thesis by simp
  qed
qed

lemma copy_stream_live:
  assumes "line_processor copy = proc" and "\<forall>l\<in>set (copied_lines lines). ok l"
    and "copy_served E self copy"
  shows "\<exists>tr'. copy_stream E self copy d lines 0 tr
     = (Ret (0, copy\<lparr>copy_n_processed := of_nat (length (copied_lines lines))\<rparr>,
          (upd ^^ length (copied_lines lines)) d), tr')"
proof -
  have put: "\<And>tr s. env_pq_put E tr (dbconn self) s = 1"
    using assms(3) by (simp add: copy_served_def)
  note exec = served_calls [OF assms(3)]
  obtain tr0 r0 where 0: "copy_begin E self copy tr
      = (Ret r0, tr0)" using exec(3) by blast
  obtain tr1 where 1: "exec_opt E self (stmt_init copy) tr0 = (Ret 0, tr1)" using exec(1) by blast
  obtain tr2 where 2: "hpssix_db_copy_init E self (stmt_copy copy) tr1 = (Ret 0, tr2)"
    using exec(5) by blast
  obtain tr3 where 3: "copy_lines E self proc lines 0 d tr2
     = (Ret (0, of_nat (length (copied_lines lines)), (upd ^^ length (copied_lines lines)) d), tr3)"
    using copy_lines_live [OF assms(2) put, where n = 0] by force
  obtain tr4 where 4: "hpssix_db_copy_end E self False tr3 = (Ret 0, tr4)" using exec(6) by blast
  obtain tr5 where 5: "exec_opt E self (stmt_fini copy) tr4 = (Ret 0, tr5)" using exec(2) by blast
  obtain tr6 where 6: "copy_commit E self copy tr5
      = (Ret 0, tr6)" using exec(4) by blast
  show ?thesis
    by (simp add: copy_stream_def copy_finish_def then_io_apply try_io_def bind_io_apply
        0 1 2 3 4 5 6 assms(1))
qed

end

interpretation verbatim: line_translator None "\<lambda>_. True" "\<lambda>l. l" "\<lambda>d. d"
  by unfold_locales (simp_all add: run_processor_def)

text \<open>What a transactional load leaves behind when it fails.\<close>

definition rolled_back ::
  "hpssix_db \<Rightarrow> string list \<Rightarrow> 'd hpssix_db_copy_t \<Rightarrow> 'd hpssix_db_copy_t \<Rightarrow> trace \<Rightarrow> bool" where
  "rolled_back self before copy copy' tr \<longleftrightarrow> copy' = copy \<and>
     (\<exists>res tr1. tr = EvPqExec (dbconn self) ''ABORT;'' res # tr1 \<and>
        (sent (dbconn self) tr \<noteq> before \<longrightarrow>
           (\<exists>tr2. tr1 = EvPqPutEnd (dbconn self) (Some ''abort'') # tr2)))"

lemma copy_fail_rolled_back:
  assumes "copy_fail E self copy n d r tr = (Ret (r', copy', d'), tr')" and "atomic copy"
    and "n = 0 \<longrightarrow> sent (dbconn self) tr = before"
  shows "rolled_back self before copy copy' tr'"
  using assms
  by (auto simp: rolled_back_def copy_fail_def copy_rollback_def then_io_apply hpssix_db_copy_end_def
      PQputCopyEnd_def hpssix_db_rollback_def hpssix_db_psql_exec_def bind_io_apply PQexec_def
      split: if_splits)

lemma copy_finish_rolled_back:
  assumes run: "copy_finish E self copy n d tr = (Ret (r, copy', d'), tr')" and r: "r \<noteq> 0"
    and at: "atomic copy" and none: "n = 0 \<longrightarrow> sent (dbconn self) tr = before"
  shows "rolled_back self before copy copy' tr'"
proof -
  have failed: "rolled_back self before copy copy' tr'"
    if "copy_fail E self copy n d q tr1 = (Ret (r, copy', d'), tr')"
      "sent (dbconn self) tr1 = sent (dbconn self) tr" for q tr1
    using copy_fail_rolled_back [OF that(1) at, of before] none that(2) by simp
  from run show ?thesis
    unfolding copy_finish_def
  proof (cases rule: try_io_cases)
    case (1 q tr1)
    then show ?thesis using failed sent_kept(3) by blast
  next
    case (2 tr1)
    note end_ok = sent_kept(3) [OF 2(1)]
    from 2(2) show ?thesis
    proof (cases rule: try_io_cases)
      case (1 q tr2)
      then show ?thesis
        using failed end_ok preserves_exec_opt [THEN preservesD, OF refl 1(2)] by simp
    next
      case (2 tr2)
      note fini_ok = preserves_exec_opt [THEN preservesD, OF refl 2(1)]
      from 2(2) show ?thesis
      proof (cases rule: try_io_cases)
        case (1 q tr3)
        then show ?thesis
          using failed end_ok fini_ok preserves_txn(2) [THEN preservesD, OF refl 1(2)] by simp
      next
        case (2 tr3)
        then show ?thesis using r by simp
      qed
    qed
  qed
qed

context line_translator
begin

lemma copy_stream_rolled_back:
  assumes run: "copy_stream E self copy d lines ferr tr = (Ret (r, copy', d'), tr')" and r: "r \<noteq> 0"
    and at: "atomic copy" and proc: "line_processor copy = proc" and small: "length lines < 2 ^ 64"
  shows "rolled_back self (sent (dbconn self) tr) copy copy' tr'"
proof -
  let ?before = "sent (dbconn self) tr"
  from run obtain tr0 where b: "sent (dbconn self) tr0 = ?before"
    and r0: "try_io (exec_opt E self (stmt_init copy)) (copy_fail E self copy 0 d)
     (try_io (hpssix_db_copy_init E self (stmt_copy copy)) (copy_fail E self copy 0 d)
     (bind_io (copy_lines E self (line_processor copy) lines 0 d) (\<lambda>(ret, n, d).
      if ret \<noteq> 0 then copy_fail E self copy n d ret
      else if ferr \<noteq> 0 then copy_fail E self copy n d ferr
      else copy_finish E self copy n d))) tr0 = (Ret (r, copy', d'), tr')"
    using preserves_txn(1) [THEN preservesD, OF refl]
    unfolding copy_stream_def then_io_def bind_io_eq_Ret_iff by blast
  from r0 show ?thesis
  proof (cases rule: try_io_cases)
    case (1 q tr1)
    then show ?thesis
      using copy_fail_rolled_back [OF 1(3) at] b preserves_exec_opt [THEN preservesD, OF refl 1(2)]
      by simp
  next
    case (2 tr1)
    have b1: "sent (dbconn self) tr1 = ?before"
      using b preserves_exec_opt [THEN preservesD, OF refl 2(1)] by simp
    from 2(2) show ?thesis
    proof (cases rule: try_io_cases)
      case (1 q tr2)
      then show ?thesis using copy_fail_rolled_back [OF 1(3) at] b1 sent_kept(2) [OF 1(2)] by simp
    next
      case (2 tr2)
      obtain q n d1 tr3 where lines: "copy_lines E self proc lines 0 d tr2 = (Ret (q, n, d1), tr3)"
        and rest: "(if q \<noteq> 0 then copy_fail E self copy n d1 q
          else if ferr \<noteq> 0 then copy_fail E self copy n d1 ferr
          else copy_finish E self copy n d1) tr3 = (Ret (r, copy', d'), tr')"
        using 2(2) proc by (auto simp: bind_io_eq_Ret_iff)
      obtain ks where ks: "sent (dbconn self) tr3 = sent (dbconn self) tr2 @ ks"
        "of_nat (length ks) = n" "length ks \<le> length lines"
        using copy_lines_count [OF lines] by auto
      have "unat n = length ks"
        using of_nat_inverse [OF ks(2)] ks(3) small by simp
      then have "n = 0 \<longrightarrow> sent (dbconn self) tr3 = ?before"
        using ks(1) b1 sent_kept(2) [OF 2(1)] by auto
      then show ?thesis
        using rest copy_fail_rolled_back [OF _ at] copy_finish_rolled_back [OF _ r at]
        by (auto split: if_splits)
    qed
  qed
qed

end

section \<open>Properties\<close>


definition sample_copy :: "bool \<Rightarrow> unit hpssix_db_copy_t" where
  "sample_copy at = \<lparr>atomic = at, stmt_init = None, stmt_copy = Some ''COPY t FROM STDIN;'',
     stmt_fini = None, input_csv = Some ''in.csv'', copy_n_processed = 0, line_processor = None\<rparr>"

definition sample_pq_env :: "int \<Rightarrow> env" where
  "sample_pq_env accepted = quiet_env\<lparr>
     env_fopen := \<lambda>_ _. Inr (''1,/a'' @ [NL] @ ''# note'' @ [NL] @ ''2,/b'' @ [NL], 0),
     env_pq_exec := \<lambda>_ _ s. \<lparr>res_status = if take 4 s = ''COPY'' then PGRES_COPY_IN else PGRES_COMMAND_OK,
        res_rows = []\<rparr>,
     env_pq_put := \<lambda>_ _ s. if take 1 s = ''2'' then accepted else 1\<rparr>"

lemma sample_served: "copy_served (sample_pq_env 1) \<lparr>dbconn = Some 1\<rparr> (sample_copy at)"
  by (simp add: copy_served_def sample_copy_def sample_pq_env_def quiet_env_def)


lemma length_fgets_lines: "length (fgets_lines sz s) \<le> length s"
proof -
  have "length (fgets_raw n s) \<le> length s" for n
  proof (induction n s rule: fgets_raw.induct)
    case (1 n s)
    show ?case
    proof (cases "n = 0 \<or> s = []")
      case True
      then show ?thesis by (auto simp: fgets_raw.simps)
    next
      case False
      then have "length (snd (fgets1 n s)) < length s" by (auto intro: fgets1_shorter)
      moreover have "length (fgets_raw n s) = Suc (length (fgets_raw n (snd (fgets1 n s))))"
        using False by (subst fgets_raw.simps) simp
      ultimately show ?thesis using 1 False by linarith
    qed
  qed
  then show ?thesis by (simp add: fgets_lines_def)
qed



end
