(* ===== verification/Hpssix_Builder.thy ===== *)
theory Hpssix_Builder
  imports Hpssix_Db Hpssix_Workdata
begin

unbundle bit_operations_syntax

text \<open>
  The builder (tools/builder): it loads the scanner's CSV files into PostgreSQL and
  writes the work list for the extractor.  hpssix-builder-utils.c holds the parsers
  and the extension filter, hpssix-builder-file.c the bulk loads, hpssix-builder-xattrs.c
  the extended attributes and hpssix-builder.c the work list and the transaction
  around everything.
\<close>

section \<open>Data\<close>

record hpssix_builder =
  b_config :: hpssix_config
  b_db :: hpssix_db
  b_filter :: hpssix_extfilter
  b_task_id :: u64
  b_datadir :: string
  b_n_processed :: u64
  b_n_regular_files :: u64

datatype scanner_output = SCANNER_OUTPUT_FATTR | SCANNER_OUTPUT_PATH | SCANNER_OUTPUT_XATTR
  | SCANNER_OUTPUT_DELETED

definition scanner_fmt :: "scanner_output \<Rightarrow> string" where
  "scanner_fmt type = (case type of
     SCANNER_OUTPUT_FATTR \<Rightarrow> ''%s/scanner.%lu.fattr.csv''
   | SCANNER_OUTPUT_PATH \<Rightarrow> ''%s/scanner.%lu.path.csv''
   | SCANNER_OUTPUT_XATTR \<Rightarrow> ''%s/scanner.%lu.xattr.csv''
   | SCANNER_OUTPUT_DELETED \<Rightarrow> ''%s/scanner.%lu.deleted.csv'')"

definition hpssix_builder_get_scanner_filename ::
  "hpssix_builder \<Rightarrow> scanner_output \<Rightarrow> string option" where
  "hpssix_builder_get_scanner_filename self type =
     sprintf_buf PATH_MAX (scanner_fmt type) [PStr (Some (b_datadir self)), PInt (b_task_id self)]"

section \<open>File attributes\<close>

definition HPSSIX_DEFAULT_DEV :: u64 where "HPSSIX_DEFAULT_DEV = 44"
definition HPSSIX_DEFAULT_RDEV :: u64 where "HPSSIX_DEFAULT_RDEV = 0"
definition HPSSIX_DEFAULT_BLKSIZE :: u64 where "HPSSIX_DEFAULT_BLKSIZE = 512"

definition NS_OBJECT_TYPE_FILE :: u32 where "NS_OBJECT_TYPE_FILE = 0x81"
definition NS_OBJECT_TYPE_SYM_LINK :: u32 where "NS_OBJECT_TYPE_SYM_LINK = 0x82"
definition NS_OBJECT_TYPE_DIRECTORY :: u32 where "NS_OBJECT_TYPE_DIRECTORY = 0x84"

definition NS_PERMS_RD :: u32 where "NS_PERMS_RD = 0x20"
definition NS_PERMS_WR :: u32 where "NS_PERMS_WR = 0x40"
definition NS_PERMS_XS :: u32 where "NS_PERMS_XS = 0x80"

definition S_IRUSR :: u32 where "S_IRUSR = 0x100"
definition S_IWUSR :: u32 where "S_IWUSR = 0x80"
definition S_IXUSR :: u32 where "S_IXUSR = 0x40"
definition S_IRGRP :: u32 where "S_IRGRP = 0x20"
definition S_IWGRP :: u32 where "S_IWGRP = 0x10"
definition S_IXGRP :: u32 where "S_IXGRP = 0x8"
definition S_IROTH :: u32 where "S_IROTH = 0x4"
definition S_IWOTH :: u32 where "S_IWOTH = 0x2"
definition S_IXOTH :: u32 where "S_IXOTH = 0x1"

definition or_if :: "u32 \<Rightarrow> u32 \<Rightarrow> u32 \<Rightarrow> u32 \<Rightarrow> u32" where
  "or_if perm flag bits mode = (if perm AND flag \<noteq> 0 then mode OR bits else mode)"

definition get_st_mode :: "u32 \<Rightarrow> u32 \<Rightarrow> u32 \<Rightarrow> u32 \<Rightarrow> u32" where
  "get_st_mode type uperm gperm operm =
     (let mode = (if type = NS_OBJECT_TYPE_FILE then S_IFREG
                  else if type = NS_OBJECT_TYPE_SYM_LINK then S_IFLNK
                  else if type = NS_OBJECT_TYPE_DIRECTORY then S_IFDIR
                  else 0);
          mode = or_if uperm NS_PERMS_RD S_IRUSR mode;
          mode = or_if uperm NS_PERMS_WR S_IWUSR mode;
          mode = or_if uperm NS_PERMS_XS S_IXUSR mode;
          mode = or_if gperm NS_PERMS_RD S_IRGRP mode;
          mode = or_if gperm NS_PERMS_WR S_IWGRP mode;
          mode = or_if gperm NS_PERMS_XS S_IXGRP mode;
          mode = or_if operm NS_PERMS_RD S_IROTH mode;
          mode = or_if operm NS_PERMS_WR S_IWOTH mode
      in or_if operm NS_PERMS_XS S_IXOTH mode)"

definition CEILING :: "u64 \<Rightarrow> u64 \<Rightarrow> u64" where
  "CEILING x y = (x + y - 1) div y"

definition fattr_scan_fmt :: string where
  "fattr_scan_fmt = ''%lu,%u,%u,%u,%u,%lu,%u,%u,%lu,%lu,%lu,%lu,%u''"

definition stat_of_fields :: "u64 list \<Rightarrow> stat_t" where
  "stat_of_fields v = \<lparr>
     st_dev = HPSSIX_DEFAULT_DEV, st_ino = v ! 0,
     st_mode = get_st_mode (ucast (v ! 1)) (ucast (v ! 2)) (ucast (v ! 3)) (ucast (v ! 4)),
     st_nlink = v ! 5, st_uid = ucast (v ! 6), st_gid = ucast (v ! 7),
     st_rdev = HPSSIX_DEFAULT_RDEV, st_size = v ! 8, st_blksize = HPSSIX_DEFAULT_BLKSIZE,
     st_blocks = CEILING (v ! 8) HPSSIX_DEFAULT_BLKSIZE,
     st_atime = v ! 9, st_mtime = v ! 10, st_ctime = v ! 11\<rparr>"

text \<open>
  The format has 13 conversions, the call passes 12 pointers: a line with a 13th
  number makes \<open>sscanf\<close> store through a pointer that was never passed (\<open>None\<close>).
\<close>

definition hpssix_builder_parse_fattr :: "string \<Rightarrow> (int + stat_t) option" where
  "hpssix_builder_parse_fattr line = (case sscanf fattr_scan_fmt 12 line of
     None \<Rightarrow> None
   | Some (ret, v) \<Rightarrow> Some (if ret \<noteq> 12 then Inl EINVAL else Inr (stat_of_fields v)))"

definition fattr_args :: "stat_t \<Rightarrow> u64 list" where
  "fattr_args sb = [st_ino sb, st_dev sb, ucast (st_mode sb), st_nlink sb, ucast (st_uid sb),
     ucast (st_gid sb), st_rdev sb, st_size sb, st_blksize sb, st_blocks sb, st_atime sb,
     st_mtime sb, st_ctime sb]"

definition fattr_out_fmt :: string where
  "fattr_out_fmt = concat (replicate 12 ''%lu,'') @ ''%lu'' @ [NL]"

definition builder_fattr_line_processor :: "hpssix_builder line_processor" where
  "builder_fattr_line_processor line self =
     bind_io (lift_io (hpssix_builder_parse_fattr line)) (\<lambda>r. case r of
       Inl _ \<Rightarrow> return_io (- 1, [], self)
     | Inr sb \<Rightarrow> bind_io (lift_io (sprintf_buf LINE_MAX fattr_out_fmt (map PInt (fattr_args sb))))
         (\<lambda>out. return_io (1, out, self\<lparr>b_n_processed := b_n_processed self + 1\<rparr>)))"

section \<open>Bulk loads\<close>

definition builder_fattr_init_stmt :: string where
  "builder_fattr_init_stmt =
     ''CREATE TEMPORARY TABLE __object AS (SELECT * FROM hpssix_object LIMIT 0);'' @ [NL]"

definition builder_fattr_copy_stmt :: string where
  "builder_fattr_copy_stmt =
     ''COPY __object (oid, st_dev, st_mode, st_nlink, st_uid, st_gid, st_rdev,'' @ [NL] @
     ''st_size, st_blksize, st_blocks, st_atime, st_mtime, st_ctime)'' @ [NL] @
     ''FROM STDIN WITH DELIMITER '' @ [SQUOTE] @ '','' @ [SQUOTE] @ '';'' @ [NL]"

definition builder_fattr_fini_stmt :: string where
  "builder_fattr_fini_stmt = ''WITH updated AS ('' @ [NL] @
     ''    UPDATE hpssix_object'' @ [NL] @
     ''       SET st_dev = s.st_dev,'' @ [NL] @
     ''           st_mode = s.st_mode,'' @ [NL] @
     ''           st_nlink = s.st_nlink,'' @ [NL] @
     ''           st_uid = s.st_uid,'' @ [NL] @
     ''           st_gid = s.st_gid,'' @ [NL] @
     ''           st_rdev = s.st_rdev,'' @ [NL] @
     ''           st_size = s.st_size,'' @ [NL] @
     ''           st_blksize = s.st_blksize,'' @ [NL] @
     ''           st_blocks = s.st_blocks,'' @ [NL] @
     ''           st_atime = s.st_atime,'' @ [NL] @
     ''           st_mtime = s.st_mtime,'' @ [NL] @
     ''           st_ctime = s.st_ctime'' @ [NL] @
     ''      FROM __object s'' @ [NL] @
     ''     WHERE hpssix_object.oid = s.oid'' @ [NL] @
     '' RETURNING s.oid'' @ [NL] @
     '') '' @ [NL] @
     ''INSERT INTO hpssix_object (oid, st_dev, st_mode, st_nlink, st_uid, st_gid,'' @ [NL] @
     ''                           st_rdev, st_size, st_blksize, st_blocks,'' @ [NL] @
     ''                           st_atime, st_mtime, st_ctime)'' @ [NL] @
     ''     SELECT s.oid, s.st_dev, s.st_mode, s.st_nlink, s.st_uid, s.st_gid,'' @ [NL] @
     ''            s.st_rdev, s.st_size, s.st_blksize, s.st_blocks, s.st_atime,'' @ [NL] @
     ''            s.st_mtime, s.st_ctime'' @ [NL] @
     ''       FROM __object s LEFT OUTER JOIN updated t ON s.oid = t.oid'' @ [NL] @
     ''      WHERE t.oid IS NULL;'' @ [NL]"

definition builder_path_init_stmt :: string where
  "builder_path_init_stmt =
     ''CREATE TEMPORARY TABLE __file AS (SELECT * FROM hpssix_file LIMIT 0);'' @ [NL]"

definition builder_path_copy_stmt :: string where
  "builder_path_copy_stmt = ''COPY __file (oid, path) FROM STDIN WITH DELIMITER '' @ [SQUOTE] @ '','' @
     [SQUOTE] @ '' CSV QUOTE '' @ [SQUOTE, DQUOTE, SQUOTE] @ '';'' @ [NL]"

definition builder_path_fini_stmt :: string where
  "builder_path_fini_stmt = ''WITH updated AS ('' @ [NL] @
     ''    UPDATE hpssix_file'' @ [NL] @
     ''       SET path = s.path'' @ [NL] @
     ''      FROM __file s'' @ [NL] @
     ''     WHERE hpssix_file.oid = s.oid'' @ [NL] @
     '' RETURNING s.oid'' @ [NL] @
     '') '' @ [NL] @
     ''INSERT INTO hpssix_file (oid, path)'' @ [NL] @
     ''     SELECT s.oid, s.path'' @ [NL] @
     ''       FROM __file s LEFT OUTER JOIN updated t ON s.oid = t.oid'' @ [NL] @
     ''      WHERE t.oid IS NULL;'' @ [NL]"

definition builder_deleted_init_stmt :: string where
  "builder_deleted_init_stmt = ''CREATE TEMPORARY TABLE __deleted AS'' @ [NL] @
     ''  (SELECT oid FROM hpssix_object LIMIT 0);'' @ [NL]"

definition builder_deleted_copy_stmt :: string where
  "builder_deleted_copy_stmt = ''COPY __deleted (oid) FROM STDIN;'' @ [NL]"

definition builder_deleted_fini_stmt :: string where
  "builder_deleted_fini_stmt = ''UPDATE hpssix_object SET valid = false FROM __deleted s'' @ [NL] @
     '' WHERE hpssix_object.oid = s.oid'' @ [NL] @ '';DROP TABLE __deleted;'' @ [NL]"

definition load_csv ::
  "env \<Rightarrow> hpssix_builder \<Rightarrow> scanner_output \<Rightarrow> string \<Rightarrow> string \<Rightarrow> string \<Rightarrow>
   hpssix_builder line_processor option \<Rightarrow> (int \<times> hpssix_builder) io" where
  "load_csv E self type ini cpy fin proc =
     bind_io (lift_io (hpssix_builder_get_scanner_filename self type)) (\<lambda>scanner_output.
     bind_io (hpssix_db_copy E (Some (b_db self))
        (Some \<lparr>atomic = False, stmt_init = Some ini, stmt_copy = Some cpy, stmt_fini = Some fin,
               input_csv = Some scanner_output, copy_n_processed = 0, line_processor = proc\<rparr>) self)
       (\<lambda>(ret, _, self'). return_io (ret, self')))"

definition hpssix_builder_process_fattr :: "env \<Rightarrow> hpssix_builder \<Rightarrow> (int \<times> hpssix_builder) io" where
  "hpssix_builder_process_fattr E self = load_csv E self SCANNER_OUTPUT_FATTR builder_fattr_init_stmt
     builder_fattr_copy_stmt builder_fattr_fini_stmt (Some builder_fattr_line_processor)"

definition hpssix_builder_process_path :: "env \<Rightarrow> hpssix_builder \<Rightarrow> (int \<times> hpssix_builder) io" where
  "hpssix_builder_process_path E self = load_csv E self SCANNER_OUTPUT_PATH builder_path_init_stmt
     builder_path_copy_stmt builder_path_fini_stmt None"

definition hpssix_builder_process_deleted :: "env \<Rightarrow> hpssix_builder \<Rightarrow> (int \<times> hpssix_builder) io" where
  "hpssix_builder_process_deleted E self = load_csv E self SCANNER_OUTPUT_DELETED
     builder_deleted_init_stmt builder_deleted_copy_stmt builder_deleted_fini_stmt None"

section \<open>Extended attributes\<close>

text \<open>
  \<open>env_xml\<close> is libxml2: the root element of the document, \<open>None\<close> when there is no
  document or no root.  The children of a node are all its child nodes, text
  nodes included.
\<close>

fun parse_tags :: "env \<Rightarrow> xnode list \<Rightarrow> hpssix_tag list io" where
  "parse_tags E [] = return_io []"
| "parse_tags E (node # ns) =
     bind_io (strdup E (xname node)) (\<lambda>name.
     bind_io (parse_tags E ns) (\<lambda>ts.
     return_io (\<lparr>kid = 0, key = name, val = xtext node\<rparr> # ts)))"

definition parse_xattr :: "env \<Rightarrow> string option \<Rightarrow> hpssix_xattr option io" where
  "parse_xattr E xmlstr = (case xmlstr of
     None \<Rightarrow> return_io None
   | Some s \<Rightarrow> (case env_xml E s of
       None \<Rightarrow> return_io None
     | Some node \<Rightarrow>
         if xname node \<noteq> ''hpss'' then return_io None
         else (case xkids node of
           [] \<Rightarrow> return_io None
         | fsnode # _ \<Rightarrow>
             if xname fsnode \<noteq> ''fs'' then return_io None
             else if xkids fsnode = [] then return_io None
             else bind_io (alloc E (16 + 48 * length (xkids fsnode))) (\<lambda>ok.
               if \<not> ok then return_io None
               else bind_io (parse_tags E (xkids fsnode)) (\<lambda>ts.
                 return_io (Some \<lparr>xattr_oid = 0, tags = ts\<rparr>))))))"

definition builder_xattr_bufsize :: nat where
  "builder_xattr_bufsize = 50 * 2 ^ 20"

definition xattr_mark :: string where
  "xattr_mark = ''<hpss><fs>''"

text \<open>
  The second pass cuts off, in place, the quote before the final newline.  \<open>s\<close>
  starts with the mark, so it is long enough.
\<close>

definition cut_quote :: "string \<Rightarrow> string" where
  "cut_quote s = (let i = length s - 2 in if s ! i = DQUOTE then take i s else s)"

text \<open>
  On a parse error the clean-up loop counts an unsigned index down for ever and
  reads outside the array: undefined.
\<close>

fun collect_lines :: "env \<Rightarrow> string list \<Rightarrow> hpssix_xattr list \<Rightarrow> hpssix_xattr list io" where
  "collect_lines E [] acc = return_io acc"
| "collect_lines E (linebuf # ls) acc =
     (case strstr linebuf xattr_mark of
        None \<Rightarrow> collect_lines E ls acc
      | Some pos \<Rightarrow>
          (let pos' = cut_quote pos;
               linebuf' = take (length linebuf - length pos) linebuf @ pos';
               (oid, endptr) = strtoull0 linebuf'
           in if take 1 endptr \<noteq> '','' then undef_io
              else bind_io (parse_xattr E (Some pos')) (\<lambda>current. case current of
                None \<Rightarrow> undef_io
              | Some x \<Rightarrow> collect_lines E ls (acc @ [x\<lparr>xattr_oid := oid\<rparr>]))))"

text \<open>\<open>Inl\<close> is the error number when NULL is returned.\<close>

definition builder_collect_xattrs :: "env \<Rightarrow> string \<Rightarrow> (int + hpssix_xattr list) io" where
  "builder_collect_xattrs E file =
     bind_io (c_fopen E file) (\<lambda>r. case r of
       Inl e \<Rightarrow> return_io (Inl e)
     | Inr (content, _) \<Rightarrow>
         bind_io (alloc E builder_xattr_bufsize) (\<lambda>ok.
         if \<not> ok then return_io (Inl ENOMEM)
         else let lines = fgets_lines (builder_xattr_bufsize - 1) content;
                  count = length (filter (\<lambda>l. strstr l xattr_mark \<noteq> None) lines)
              in bind_io (alloc E (8 * count)) (\<lambda>ok.
                 if \<not> ok then return_io (Inl ENOMEM)
                 else bind_io (collect_lines E lines []) (\<lambda>xs. return_io (Inr xs)))))"

definition xattr_copy_stmt :: string where
  "xattr_copy_stmt = ''COPY hpssix_attr_val (oid, kid, sval) FROM STDIN'' @ [NL] @
     ''  WITH DELIMITER '' @ [SQUOTE] @ '','' @ [SQUOTE] @ '' CSV QUOTE '' @
     [SQUOTE, SQUOTE, SQUOTE, SQUOTE] @ [NL]"

definition xattr_line_fmt :: string where
  "xattr_line_fmt = ''%lu,%lu,%s'' @ [NL]"

definition put_xattr :: "env \<Rightarrow> hpssix_db \<Rightarrow> u64 \<times> hpssix_tag \<Rightarrow> int io" where
  "put_xattr E db = (\<lambda>(oid, tag).
     bind_io (lift_io (val tag)) (\<lambda>v.
     bind_io (lift_io (sprintf_buf LINE_MAX xattr_line_fmt
        [PInt oid, PInt (kid tag), PStr (hpssix_db_escape_literal E db v)])) (\<lambda>linebuf.
     hpssix_db_copy_put E (Some db) (Some linebuf))))"

definition all_tags :: "hpssix_xattr list \<Rightarrow> (u64 \<times> hpssix_tag) list" where
  "all_tags xs = concat (map (\<lambda>x. map (Pair (xattr_oid x)) (tags x)) xs)"

definition hpssix_builder_process_xattrs :: "env \<Rightarrow> hpssix_builder \<Rightarrow> int io" where
  "hpssix_builder_process_xattrs E self =
     bind_io (lift_io (hpssix_builder_get_scanner_filename self SCANNER_OUTPUT_XATTR)) (\<lambda>scanner_output.
     bind_io (builder_collect_xattrs E scanner_output) (\<lambda>r. case r of
       Inl e \<Rightarrow> return_io e
     | Inr xattrs \<Rightarrow>
         try_io (hpssix_db_delete_xattrs E (b_db self) xattrs) return_io
         (bind_io (hpssix_db_populate_xattr_keys E (b_db self) xattrs) (\<lambda>(ret, xattrs).
          if ret \<noteq> 0 then return_io ret
          else try_io (hpssix_db_copy_init E (b_db self) (Some xattr_copy_stmt)) return_io
           (bind_io (for_each (put_xattr E (b_db self)) (all_tags xattrs)) (\<lambda>ret.
            if ret \<noteq> 0 then then_io (hpssix_db_copy_end E (b_db self) True) (return_io EIO)
            else hpssix_db_copy_end E (b_db self) False))))))"

section \<open>The work list\<close>

definition builder_filter_meta_extract ::
  "hpssix_builder \<Rightarrow> string \<Rightarrow> u32 \<Rightarrow> u64 \<Rightarrow> bool option" where
  "builder_filter_meta_extract self path mode fsize =
     (if \<not> S_ISREG mode then Some False
      else if extractor_maxfilesize (b_config self) < fsize then Some False
      else (case strrchr path SLASH of
        None \<Rightarrow> Some False
      | Some fn \<Rightarrow> (case strrchr (drop 1 fn) (CHR ''.'') of
          None \<Rightarrow> Some False
        | Some extpos \<Rightarrow>
            if NAME_MAX \<le> length (drop 1 extpos) then None
            else let ext = map tolower (drop 1 extpos)
                 in Some (\<exists>e\<in>set (take (n_exts (b_filter self)) (exts (b_filter self))).
                            strneq ext e (length ext)))))"

definition workdata_sql :: string where
  "workdata_sql = ''SELECT o.oid, o.st_mode, o.st_size, f.path'' @ [NL] @
     ''  FROM (SELECT oid, st_mode, st_size FROM __object WHERE st_size > 0) o'' @ [NL] @
     ''       NATURAL JOIN __file f;'' @ [NL]"

text \<open>The row loop: result and number of objects appended.\<close>

fun append_rows ::
  "env \<Rightarrow> hpssix_builder \<Rightarrow> hpssix_workdata \<Rightarrow> pgresult \<Rightarrow> nat list \<Rightarrow> u64 \<Rightarrow> (int \<times> u64) io" where
  "append_rows E self wd res [] count = return_io (0, count)"
| "append_rows E self wd res (i # js) count =
     bind_io (lift_io (PQgetvalue res i 0)) (\<lambda>v0.
     bind_io (lift_io (PQgetvalue res i 1)) (\<lambda>v1.
     bind_io (lift_io (PQgetvalue res i 2)) (\<lambda>v2.
     bind_io (lift_io (PQgetvalue res i 3)) (\<lambda>path.
     bind_io (lift_io (builder_filter_meta_extract self path (atoi v1) (fst (strtoull0 v2)))) (\<lambda>sel.
     if \<not> sel then append_rows E self wd res js count
     else bind_io (hpssix_workdata_append E (Some wd) (fst (strtoull0 v0)) (Some path)) (\<lambda>ret.
       if ret \<noteq> 0 then return_io (ret, count)
       else append_rows E self wd res js (count + 1)))))))"

definition hpssix_builder_create_workdata :: "env \<Rightarrow> hpssix_builder \<Rightarrow> (int \<times> hpssix_builder) io" where
  "hpssix_builder_create_workdata E self =
     bind_io (lift_io (sprintf_buf PATH_MAX ''%s/builder.%lu.db''
        [PStr (Some (b_datadir self)), PInt (b_task_id self)])) (\<lambda>builder_output.
     bind_io (hpssix_workdata_create E (Some workdata_zero) (Some builder_output)) (\<lambda>(ret, w).
     if ret \<noteq> 0 then return_io (ret, self)
     else bind_io (lift_io w) (\<lambda>wd.
       then_io (hpssix_workdata_begin_transaction E wd)
       (bind_io (hpssix_db_psql_query E (b_db self) workdata_sql []) (\<lambda>res.
        bind_io (if res_status res \<noteq> PGRES_TUPLES_OK then return_io (EIO, 0)
                 else append_rows E self wd res [0..<length (res_rows res)] 0) (\<lambda>(ret, count).
        if ret \<noteq> 0
        then then_io (hpssix_workdata_rollback_transaction E wd) (return_io (ret, self))
        else then_io (hpssix_workdata_end_transaction E wd)
               (return_io (0, self\<lparr>b_n_regular_files := count\<rparr>))))))))"

section \<open>The whole run\<close>

definition builder_report :: "hpssix_builder \<Rightarrow> string" where
  "builder_report self = ''## files indexed: '' @ dec (unat (b_n_processed self)) @ [NL] @
     ''## regular files: '' @ dec (unat (b_n_regular_files self)) @ [NL]"

text \<open>The five phases in order; the first failure ends them.\<close>

definition builder_phases :: "env \<Rightarrow> hpssix_builder \<Rightarrow> int io" where
  "builder_phases E self =
     bind_io (hpssix_builder_process_fattr E self) (\<lambda>(ret, self).
     if ret \<noteq> 0 then return_io ret
     else bind_io (hpssix_builder_process_path E self) (\<lambda>(ret, self).
     if ret \<noteq> 0 then return_io ret
     else try_io (hpssix_builder_process_xattrs E self) return_io
      (bind_io (hpssix_builder_process_deleted E self) (\<lambda>(ret, self).
       if ret \<noteq> 0 then return_io ret
       else bind_io (hpssix_builder_create_workdata E self) (\<lambda>(ret, self).
       if ret \<noteq> 0 then return_io ret
       else then_io (c_puts (builder_report self)) (return_io 0))))))"

definition do_builder ::
  "env \<Rightarrow> hpssix_config \<Rightarrow> hpssix_extfilter \<Rightarrow> u64 \<Rightarrow> string \<Rightarrow> int io" where
  "do_builder E config extfilter task_id datadir =
     bind_io (hpssix_db_connect E (Some \<lparr>dbconn = None\<rparr>) config) (\<lambda>(ret, d).
     if ret \<noteq> 0 then return_io ret
     else bind_io (lift_io d) (\<lambda>db.
       let builder = \<lparr>b_config = config, b_db = db, b_filter = extfilter, b_task_id = task_id,
                      b_datadir = datadir, b_n_processed = 0, b_n_regular_files = 0\<rparr> in
       then_io (hpssix_db_begin_transaction E db)
       (bind_io (builder_phases E builder) (\<lambda>ret.
        then_io (if ret \<noteq> 0 then hpssix_db_rollback E db else hpssix_db_end_transaction E db)
        (then_io (hpssix_db_disconnect (Some db)) (return_io ret))))))"

definition db_initialize :: "env \<Rightarrow> string \<Rightarrow> hpssix_config \<Rightarrow> int io" where
  "db_initialize E schema_sqlstr config =
     bind_io (hpssix_db_connect E (Some \<lparr>dbconn = None\<rparr>) config) (\<lambda>(ret, d).
     if ret \<noteq> 0 then return_io ret
     else bind_io (lift_io d) (\<lambda>db.
       bind_io (hpssix_db_initialize E schema_sqlstr db) (\<lambda>ret.
       then_io (hpssix_db_disconnect (Some db)) (return_io ret))))"

text \<open>
  \<open>main\<close>: \<open>opts\<close> are the characters \<open>getopt_long\<close> returns and \<open>operands\<close> the
  arguments left, \<open>errno_after\<close> is the value of \<open>errno\<close> when \<open>do_builder\<close> has failed.
  An extension filter that cannot be loaded ends the program with status 0.  A
  data directory name that could not be copied is only ever printed.
\<close>

fun builder_options :: "char list \<Rightarrow> bool \<Rightarrow> bool io" where
  "builder_options [] initdb = return_io initdb"
| "builder_options (ch # chs) initdb =
     (if ch = CHR ''i'' then builder_options chs True else exit_io 0)"

definition builder_main ::
  "env \<Rightarrow> string \<Rightarrow> int \<Rightarrow> char list \<Rightarrow> string list \<Rightarrow> int io" where
  "builder_main E schema_sqlstr errno_after opts operands =
     bind_io (builder_options opts False) (\<lambda>initdb.
     if \<not> initdb \<and> length operands \<noteq> 2 then exit_io 1
     else bind_io (if initdb then return_io None else strdup E (operands ! 0)) (\<lambda>datadir.
     bind_io (hpssix_config_read_sysconf E (Some config_zero)) (\<lambda>(ret, c).
     bind_io (lift_io c) (\<lambda>config.
     if initdb then db_initialize E schema_sqlstr config
     else bind_io (hpssix_extfilter_get E) (\<lambda>flt. case flt of
       None \<Rightarrow> return_io 0
     | Some extfilter \<Rightarrow>
         bind_io (do_builder E config extfilter (fst (strtoull0 (operands ! 1)))
                    (case datadir of None \<Rightarrow> ''(null)'' | Some d \<Rightarrow> d)) (\<lambda>ret.
         return_io (if ret \<noteq> 0 then errno_after else 0)))))))"

section \<open>Lines of numbers\<close>

text \<open>A line of decimal numbers separated by commas.\<close>

fun csv :: "u64 list \<Rightarrow> string" where
  "csv [] = [NL]"
| "csv [v] = dec (unat v) @ [NL]"
| "csv (v # w # vs) = dec (unat v) @ CHR '','' # csv (w # vs)"

lemma length_csv: "length (csv vs) \<le> 21 * length vs + 1"
proof (induction vs rule: csv.induct)
  case 1
  then show ?case by simp
next
  case (2 v)
  then show ?case using length_dec_u64 [of v] by simp
next
  case (3 v w vs)
  then show ?case using length_dec_u64 [of v] by simp
qed

lemma fattr_out_eq:
  "sprintf_buf LINE_MAX fattr_out_fmt (map PInt (fattr_args sb)) = Some (csv (fattr_args sb))"
proof -
  have "printf fattr_out_fmt (map PInt (fattr_args sb)) = Some (csv (fattr_args sb))"
    by (simp add: fattr_out_fmt_def fattr_args_def eval_nat_numeral)
  moreover have "length (csv (fattr_args sb)) < LINE_MAX"
    using length_csv [of "fattr_args sb"] by (simp add: fattr_args_def)
  ultimately show ?thesis by (simp add: sprintf_buf_def)
qed

lemma scan_go_number:
  assumes "rest = [] \<or> \<not> isdigit (hd rest)" and "length vs < n"
  shows "scan_go (SNum 0 False b # ds) n (dec k @ rest) vs
    = scan_go ds n rest (vs @ [num_assign False b (dec k)])"
proof -
  have "dropWhile isspace (dec k @ rest) = dec k @ rest" by simp
  moreover obtain x xs where "dec k @ rest = x # xs"
    by (metis append_is_Nil_conv dec_nonempty neq_Nil_conv)
  ultimately show ?thesis
    using num_field_dec [OF assms(1), of k] assms(2) by (simp del: dec_no_prefix)
qed

lemma num_assign_narrow: "unat (w :: u64) < 2 ^ 32 \<Longrightarrow> num_assign False 32 (dec (unat w)) = w"
proof -
  assume small: "unat w < 2 ^ 32"
  have "unat (ucast w :: u32) = unat w"
    using small by (simp add: unsigned_ucast_eq take_bit_nat_eq_self)
  then have "num_assign False 32 (dec (unat w)) = ucast (ucast w :: u32)"
    using num_assign_dec32 [of "ucast w"] by simp
  also have "\<dots> = w"
    using \<open>unat (ucast w :: u32) = unat w\<close>
    by (intro word_unat_eq_iff [THEN iffD2]) (simp add: unsigned_ucast_eq unsigned_take_bit_eq)
  finally show ?thesis .
qed

lemma scan_fattr_fmt:
  "scan_fmt fattr_scan_fmt =
     [SNum 0 False 64, SLit CHR '','', SNum 0 False 32, SLit CHR '','', SNum 0 False 32,
      SLit CHR '','', SNum 0 False 32, SLit CHR '','', SNum 0 False 32, SLit CHR '','',
      SNum 0 False 64, SLit CHR '','', SNum 0 False 32, SLit CHR '','', SNum 0 False 32,
      SLit CHR '','', SNum 0 False 64, SLit CHR '','', SNum 0 False 64, SLit CHR '','',
      SNum 0 False 64, SLit CHR '','', SNum 0 False 64, SLit CHR '','', SNum 0 False 32]"
  unfolding fattr_scan_fmt_def by code_simp

lemma parse_fattr_csv:
  assumes "\<forall>w\<in>{ty, up, gp, opr, uid, gid}. unat w < 2 ^ 32"
  shows "hpssix_builder_parse_fattr (csv [oid, ty, up, gp, opr, nl, uid, gid, sz, at, mt, ct])
    = Some (Inr (stat_of_fields [oid, ty, up, gp, opr, nl, uid, gid, sz, at, mt, ct]))"
proof -
  have "sscanf fattr_scan_fmt 12 (csv [oid, ty, up, gp, opr, nl, uid, gid, sz, at, mt, ct])
      = Some (12, [oid, ty, up, gp, opr, nl, uid, gid, sz, at, mt, ct])"
    using assms
    by (simp add: sscanf_def scan_fattr_fmt scan_go_number num_assign_dec num_assign_narrow
        del: scan_go.simps(3))
  then show ?thesis by (simp add: hpssix_builder_parse_fattr_def)
qed

text \<open>A line with a thirteenth number is undefined behaviour.\<close>

lemma parse_fattr_extra_field:
  assumes "\<forall>w\<in>{ty, up, gp, opr, uid, gid}. unat w < 2 ^ 32"
  shows "hpssix_builder_parse_fattr (csv [oid, ty, up, gp, opr, nl, uid, gid, sz, at, mt, ct, extra]) = None"
proof -
  have thirteenth: "scan_go [SNum 0 False 32] 12 (dec k @ [NL]) vs = None" if "length vs = 12" for k vs
  proof -
    obtain x xs where "dec k @ [NL] = x # xs"
      by (metis append_is_Nil_conv dec_nonempty neq_Nil_conv)
    then show ?thesis
      using that num_field_dec [of "[NL]" k] dec_no_prefix(1) [of k "[NL]"]
      by (simp del: dec_no_prefix)
  qed
  have "sscanf fattr_scan_fmt 12 (csv [oid, ty, up, gp, opr, nl, uid, gid, sz, at, mt, ct, extra]) = None"
    using assms
    by (simp add: sscanf_def scan_fattr_fmt scan_go_number num_assign_dec num_assign_narrow
        thirteenth del: scan_go.simps(3))
  then show ?thesis by (simp add: hpssix_builder_parse_fattr_def)
qed

section \<open>The attribute loader is a line translator\<close>

definition fattr_ok :: "string \<Rightarrow> bool" where
  "fattr_ok l \<longleftrightarrow> (case hpssix_builder_parse_fattr l of Some (Inr _) \<Rightarrow> True | _ \<Rightarrow> False)"

definition fattr_out :: "string \<Rightarrow> string" where
  "fattr_out l = (case hpssix_builder_parse_fattr l of Some (Inr sb) \<Rightarrow> csv (fattr_args sb) | _ \<Rightarrow> [])"

definition count_processed :: "hpssix_builder \<Rightarrow> hpssix_builder" where
  "count_processed self = self\<lparr>b_n_processed := b_n_processed self + 1\<rparr>"

interpretation fattr: line_translator "Some builder_fattr_line_processor" fattr_ok fattr_out count_processed
proof (unfold_locales, goal_cases)
  case (1 l d tr)
  then obtain sb where "hpssix_builder_parse_fattr l = Some (Inr sb)"
    by (auto simp: fattr_ok_def split: option.splits sum.splits)
  then have "run_processor (Some builder_fattr_line_processor) l d tr
      = (Ret (1, fattr_out l, count_processed d), tr)"
    by (simp add: run_processor_def builder_fattr_line_processor_def fattr_out_eq fattr_out_def
        count_processed_def)
  then show ?case by (intro exI [of _ 1] exI [of _ "fattr_out l"]) simp
next
  case (2 l d tr r buf d' tr')
  then show ?case
    by (auto simp: fattr_ok_def run_processor_def builder_fattr_line_processor_def lift_io_def
        split: option.splits sum.splits)
qed

lemma count_processed_pow:
  "(count_processed ^^ n) self = self\<lparr>b_n_processed := b_n_processed self + of_nat n\<rparr>"
  by (induction n) (simp_all add: count_processed_def add.assoc add.commute)

text \<open>The statements of a load, as the server sees them.\<close>

definition load_served :: "env \<Rightarrow> hpssix_db \<Rightarrow> string \<Rightarrow> string \<Rightarrow> string \<Rightarrow> bool" where
  "load_served E db ini cpy fin \<longleftrightarrow>
     (\<forall>tr. res_status (env_pq_exec E tr (dbconn db) cpy) = PGRES_COPY_IN) \<and>
     (\<forall>tr s. s \<in> {ini, fin, ''BEGIN;'', ''END;''} \<longrightarrow>
        res_status (env_pq_exec E tr (dbconn db) s) = PGRES_COMMAND_OK) \<and>
     (\<forall>tr s. env_pq_put E tr (dbconn db) s = 1) \<and>
     (\<forall>tr. env_pq_result E tr (dbconn db) = PGRES_COMMAND_OK)"

lemma load_served_copy:
  "load_served E db ini cpy fin \<Longrightarrow> copy_served E db
     \<lparr>atomic = at, stmt_init = Some ini, stmt_copy = Some cpy, stmt_fini = Some fin, input_csv = inp,
      copy_n_processed = n, line_processor = proc\<rparr>"
  unfolding load_served_def copy_served_def by auto

section \<open>Properties of the loads\<close>


definition sample_builder :: hpssix_builder where
  "sample_builder = \<lparr>b_config = config_zero\<lparr>extractor_maxfilesize := 4096\<rparr>, b_db = \<lparr>dbconn = Some 1\<rparr>,
     b_filter = \<lparr>n_exts = 1, exts = [''pdf'']\<rparr>, b_task_id = 7, b_datadir = ''/d'',
     b_n_processed = 0, b_n_regular_files = 0\<rparr>"

definition sample_fattr_line :: string where
  "sample_fattr_line = ''5,129,224,32,0,1,10,20,513,1,2,3'' @ [NL]"

definition sample_fattr_env :: env where
  "sample_fattr_env = quiet_env\<lparr>env_fopen := \<lambda>_ _. Inr (sample_fattr_line, 0),
     env_pq_exec := \<lambda>_ _ s. \<lparr>res_status = if take 4 s = ''COPY'' then PGRES_COPY_IN else PGRES_COMMAND_OK,
        res_rows = []\<rparr>\<rparr>"

lemma sample_load_served:
  "load_served sample_fattr_env (b_db sample_builder) builder_fattr_init_stmt builder_fattr_copy_stmt
     builder_fattr_fini_stmt"
  by (simp add: load_served_def sample_fattr_env_def sample_builder_def quiet_env_def
      builder_fattr_init_stmt_def builder_fattr_copy_stmt_def builder_fattr_fini_stmt_def)


text \<open>
  The translation of one line.  A scanner line that prints the twelve
  attributes (the 32-bit ones within their width) is translated, without leaving
  the buffers, to the line that prints the object id, the default device, the
  POSIX mode decoded from type and permissions, the other attributes unchanged,
  the default block size and the number of 512-byte blocks.
\<close>

lemma fattr_line_translation:
  assumes "\<forall>w\<in>{ty, up, gp, opr, uid, gid}. unat w < 2 ^ 32"
  shows "builder_fattr_line_processor (csv [oid, ty, up, gp, opr, nl, uid, gid, sz, at, mt, ct]) self tr
    = (Ret (1, csv [oid, 44, ucast (get_st_mode (ucast ty) (ucast up) (ucast gp) (ucast opr)), nl, uid, gid,
           0, sz, 512, (sz + 511) div 512, at, mt, ct],
         self\<lparr>b_n_processed := b_n_processed self + 1\<rparr>), tr)"
proof -
  let ?sb = "stat_of_fields [oid, ty, up, gp, opr, nl, uid, gid, sz, at, mt, ct]"
  have wide: "ucast (ucast w :: u32) = w" if "unat w < 2 ^ 32" for w :: u64
    using that by (intro word_unat_eq_iff [THEN iffD2])
      (simp add: unsigned_ucast_eq unsigned_take_bit_eq take_bit_nat_eq_self)
  have "fattr_args ?sb = [oid, 44, ucast (get_st_mode (ucast ty) (ucast up) (ucast gp) (ucast opr)), nl,
      uid, gid, 0, sz, 512, (sz + 511) div 512, at, mt, ct]"
    using assms wide [of uid] wide [of gid]
    by (simp add: fattr_args_def stat_of_fields_def HPSSIX_DEFAULT_DEV_def HPSSIX_DEFAULT_RDEV_def
        HPSSIX_DEFAULT_BLKSIZE_def CEILING_def add.commute)
  then show ?thesis
    using fattr_out_eq [of ?sb]
    by (simp add: builder_fattr_line_processor_def parse_fattr_csv [OF assms] del: csv.simps)
qed

lemma or_if_other: "bits AND k = 0 \<Longrightarrow> or_if perm flag bits mode AND k = mode AND k"
  by (simp add: or_if_def bit.conj_disj_distrib2)

lemma or_if_same: "or_if perm flag k mode AND k = (if perm AND flag \<noteq> 0 then k else mode AND k)"
  by (simp add: or_if_def bit.conj_disj_distrib2)

lemmas mode_bits = S_IRUSR_def S_IWUSR_def S_IXUSR_def S_IRGRP_def S_IWGRP_def S_IXGRP_def
  S_IROTH_def S_IWOTH_def S_IXOTH_def

text \<open>
  C12: the mode.  Of the mode the builder computes, the file type is that of the
  HPSS object type (regular file, directory, symbolic link, nothing for the other
  types), and each of the nine permission bits is set exactly when the HPSS
  permission of that class and kind is.
\<close>

theorem get_st_mode_decodes:
  "get_st_mode ty up gp opr AND S_IFMT =
     (if ty = NS_OBJECT_TYPE_FILE then S_IFREG else if ty = NS_OBJECT_TYPE_SYM_LINK then S_IFLNK
      else if ty = NS_OBJECT_TYPE_DIRECTORY then S_IFDIR else 0) \<and>
   (get_st_mode ty up gp opr AND S_IRUSR \<noteq> 0) = (up AND NS_PERMS_RD \<noteq> 0) \<and>
   (get_st_mode ty up gp opr AND S_IWUSR \<noteq> 0) = (up AND NS_PERMS_WR \<noteq> 0) \<and>
   (get_st_mode ty up gp opr AND S_IXUSR \<noteq> 0) = (up AND NS_PERMS_XS \<noteq> 0) \<and>
   (get_st_mode ty up gp opr AND S_IRGRP \<noteq> 0) = (gp AND NS_PERMS_RD \<noteq> 0) \<and>
   (get_st_mode ty up gp opr AND S_IWGRP \<noteq> 0) = (gp AND NS_PERMS_WR \<noteq> 0) \<and>
   (get_st_mode ty up gp opr AND S_IXGRP \<noteq> 0) = (gp AND NS_PERMS_XS \<noteq> 0) \<and>
   (get_st_mode ty up gp opr AND S_IROTH \<noteq> 0) = (opr AND NS_PERMS_RD \<noteq> 0) \<and>
   (get_st_mode ty up gp opr AND S_IWOTH \<noteq> 0) = (opr AND NS_PERMS_WR \<noteq> 0) \<and>
   (get_st_mode ty up gp opr AND S_IXOTH \<noteq> 0) = (opr AND NS_PERMS_XS \<noteq> 0)"
  unfolding get_st_mode_def Let_def
  by (intro conjI)
    (simp_all add: or_if_other or_if_same mode_bits S_IFMT_def S_IFREG_def S_IFLNK_def S_IFDIR_def)

lemma prefix_strneq: "strneq a b (length a) \<longleftrightarrow> prefix a b"
  by (metis append_eq_conv_conj prefix_def strneq_def take_all_iff order_refl)

text \<open>
  C13: which files go to the extractor.  A path with an extension that fits its
  buffer is selected exactly when it is a regular file of at most the configured
  size and its extension, in lower case, is a prefix of one of the filter's
  extensions: comparing only \<open>strlen(ext)\<close> characters lets a shorter extension
  through, an empty one always.
\<close>

theorem filter_meta_extract_spec:
  assumes "SLASH \<notin> set base" and "SLASH \<notin> set sfx" and "CHR ''.'' \<notin> set sfx"
    and "length sfx < NAME_MAX"
  shows "builder_filter_meta_extract self (dir @ SLASH # base @ CHR ''.'' # sfx) mode fsize
    = Some (S_ISREG mode \<and> fsize \<le> extractor_maxfilesize (b_config self) \<and>
        (\<exists>e\<in>set (take (n_exts (b_filter self)) (exts (b_filter self))). prefix (map tolower sfx) e))"
proof -
  have "strrchr (dir @ SLASH # base @ CHR ''.'' # sfx) SLASH = Some (SLASH # base @ CHR ''.'' # sfx)"
    using assms(1,2) by (intro strrchr_append) auto
  moreover have "strrchr (base @ CHR ''.'' # sfx) (CHR ''.'') = Some (CHR ''.'' # sfx)"
    using assms(3) by (rule strrchr_append)
  moreover have "strneq (map tolower sfx) e (length sfx) \<longleftrightarrow> prefix (map tolower sfx) e" for e
    using prefix_strneq [of "map tolower sfx" e] by simp
  ultimately show ?thesis
    using assms(4) by (auto simp: builder_filter_meta_extract_def Let_def)
qed

theorem filter_meta_extract_spec_witness:
  "builder_filter_meta_extract sample_builder (''/x'' @ SLASH # ''rep'' @ CHR ''.'' # ''PD'') 0x81A4 100 = Some True"
proof -
  have "S_ISREG 0x81A4" by code_simp
  moreover have "map tolower ''PD'' = ''pd''" by code_simp
  moreover have "prefix ''pd'' ''pdf''" by simp
  ultimately show ?thesis
    using filter_meta_extract_spec [of "''rep''" "''PD''" sample_builder "''/x''" "0x81A4" 100]
    by (simp add: sample_builder_def)
qed

end
