(* ===== verification/Hpssix_Builder_Run.thy ===== *)
theory Hpssix_Builder_Run
  imports Hpssix_Builder Hpssix_Observe
begin

text \<open>
  What a whole run of the builder does: the work list it leaves for the extractor
  and the transaction it puts around everything.
\<close>

section \<open>The work list of a run\<close>

text \<open>A row of the answer to \<open>workdata_sql\<close>: object id, mode, size and path.\<close>

definition row_filter :: "hpssix_builder \<Rightarrow> string list \<Rightarrow> bool option" where
  "row_filter self row = builder_filter_meta_extract self (row ! 3) (atoi (row ! 1))
     (fst (strtoull0 (row ! 2)))"

definition row_object :: "string list \<Rightarrow> hpssix_workdata_object" where
  "row_object row = \<lparr>object_id = fst (strtoull0 (row ! 0)), obj_path = row ! 3\<rparr>"

definition selected_objects :: "hpssix_builder \<Rightarrow> string list list \<Rightarrow> hpssix_workdata_object list" where
  "selected_objects self rows = map row_object (filter (\<lambda>r. row_filter self r = Some True) rows)"

text \<open>Four columns and an extension that fits its buffer.\<close>

definition row_ok :: "hpssix_builder \<Rightarrow> string list \<Rightarrow> bool" where
  "row_ok self row \<longleftrightarrow> length row = 4 \<and> row_filter self row \<noteq> None"

lemma append_rows_step:
  assumes "i < length (res_rows res)" and "length (res_rows res ! i) = 4"
    and "row_filter self (res_rows res ! i) = Some sel"
  shows "append_rows E self wd res (i # js) count tr =
    (if \<not> sel then append_rows E self wd res js count tr
     else bind_io (wd_append E wd (row_object (res_rows res ! i))) (\<lambda>ret.
       if ret \<noteq> 0 then return_io (ret, count)
       else append_rows E self wd res js (count + 1)) tr)"
  using assms by (simp add: PQgetvalue_def row_filter_def row_object_def wd_append_def)

lemma append_rows_run:
  assumes "wd_queue E s0 wd c tr items"
    and "\<forall>i\<in>set js. i < length (res_rows res) \<and> row_ok self (res_rows res ! i)"
  shows "\<exists>tr'. append_rows E self wd res js count tr
      = (Ret (0, count + of_nat (length (selected_objects self (map ((!) (res_rows res)) js)))), tr') \<and>
     wd_queue E s0 wd c tr' (items @ selected_objects self (map ((!) (res_rows res)) js)) \<and>
     sq_path (sq_replay wd_sem s0 tr') = sq_path (sq_replay wd_sem s0 tr)"
  using assms
proof (induction js arbitrary: tr items count)
  case Nil
  then show ?case by (simp add: selected_objects_def)
next
  case (Cons i js)
  obtain sel where sel: "row_filter self (res_rows res ! i) = Some sel"
    and i: "i < length (res_rows res)" "length (res_rows res ! i) = 4"
    using Cons.prems(2) by (auto simp: row_ok_def)
  note step = append_rows_step [OF i sel]
  show ?case
  proof (cases sel)
    case False
    then show ?thesis
      using Cons.IH [OF Cons.prems(1)] Cons.prems(2) sel
      by (simp add: step selected_objects_def del: append_rows.simps)
  next
    case True
    let ?x = "row_object (res_rows res ! i)"
    obtain tr1 where 1: "wd_append E wd ?x tr = (Ret 0, tr1)" "wd_queue E s0 wd c tr1 (items @ [?x])"
      "sq_path (sq_replay wd_sem s0 tr1) = sq_path (sq_replay wd_sem s0 tr)"
      using wd_queue_append [OF Cons.prems(1), of ?x, folded wd_append_def]
      by (elim exE conjE) (rule that)
    show ?thesis
      using Cons.IH [OF 1(2), of "count + 1"] Cons.prems(2) 1(1,3) True sel
      by (simp add: step bind_io_Ret selected_objects_def add.assoc del: append_rows.simps)
  qed
qed

text \<open>The server answers the work list query with \<open>rows\<close>, whatever happened before.\<close>

definition work_rows :: "env \<Rightarrow> hpssix_builder \<Rightarrow> string list list \<Rightarrow> bool" where
  "work_rows E self rows \<longleftrightarrow> (\<forall>tr. env_alloc E tr (length workdata_sql + 1)) \<and>
     (\<forall>tr. env_pq_exec E tr (dbconn (b_db self)) workdata_sql
        = \<lparr>res_status = PGRES_TUPLES_OK, res_rows = rows\<rparr>) \<and> (\<forall>r\<in>set rows. row_ok self r)"

definition builder_output :: "hpssix_builder \<Rightarrow> string" where
  "builder_output self = b_datadir self @ ''/builder.'' @ dec (unat (b_task_id self)) @ ''.db''"

lemma builder_output_printf:
  assumes "length (builder_output self) < PATH_MAX"
  shows "sprintf_buf PATH_MAX ''%s/builder.%lu.db''
     [PStr (Some (b_datadir self)), PInt (b_task_id self)] = Some (builder_output self)"
proof -
  have "printf ''%s/builder.%lu.db'' [PStr (Some (b_datadir self)), PInt (b_task_id self)]
      = Some (builder_output self)"
    by (simp add: builder_output_def printf_lits printf_s printf_lu printf_lit)
  then show ?thesis using assms by (simp add: sprintf_buf_def)
qed

lemma workdata_sql_plain: "printf workdata_sql [] = Some workdata_sql"
  by code_simp

lemma work_query:
  assumes "work_rows E self rows"
  shows "\<exists>ev. hpssix_db_psql_query E (b_db self) workdata_sql [] tr
      = (Ret \<lparr>res_status = PGRES_TUPLES_OK, res_rows = rows\<rparr>, EvPqExec (dbconn (b_db self)) workdata_sql ev # tr)"
  using assms
  by (simp add: hpssix_db_psql_query_def workdata_sql_plain work_rows_def alloc_def PQexec_def bind_io_apply)

lemma create_workdata_leaves:
  assumes sq: "sqlite_live wd_sem s0 E" "sqlite_sound wd_sem s0 E"
    and rows: "work_rows E self rows" and fits: "length (builder_output self) < PATH_MAX"
  shows "\<exists>tr'. hpssix_builder_create_workdata E self tr
      = (Ret (0, self\<lparr>b_n_regular_files := of_nat (length (selected_objects self rows))\<rparr>), tr') \<and>
     wd_rows_ok (sq_file (sq_replay wd_sem s0 tr') (builder_output self)) \<and>
     wd_items (sq_file (sq_replay wd_sem s0 tr') (builder_output self)) = selected_objects self rows"
proof -
  let ?out = "builder_output self" let ?res = "\<lparr>res_status = PGRES_TUPLES_OK, res_rows = rows\<rparr>"
  let ?js = "[0..<length rows]"
  obtain wd c tr1 where 1: "hpssix_workdata_create E (Some workdata_zero) (Some ?out) tr
      = (Ret (0, Some wd), tr1)" "wd_queue E s0 wd c tr1 []" "sq_path (sq_replay wd_sem s0 tr1) c = ?out"
    using workdata_create_queue [OF sq] by blast
  obtain tr2 where 2: "hpssix_workdata_begin_transaction E wd tr1 = (Ret 0, tr2)"
    "wd_queue E s0 wd c tr2 []" "sq_path (sq_replay wd_sem s0 tr2) = sq_path (sq_replay wd_sem s0 tr1)"
    using workdata_begin_queue [OF 1(2)] by (elim exE conjE) (rule that)
  obtain ev where query: "hpssix_db_psql_query E (b_db self) workdata_sql [] tr2
      = (Ret ?res, EvPqExec (dbconn (b_db self)) workdata_sql ev # tr2)"
    using work_query [OF rows] by blast
  let ?tr3 = "EvPqExec (dbconn (b_db self)) workdata_sql ev # tr2"
  have q3: "wd_queue E s0 wd c ?tr3 []" using 2(2) by (simp add: wd_queue_def Let_def)
  have "\<forall>i\<in>set ?js. i < length (res_rows ?res) \<and> row_ok self (res_rows ?res ! i)"
    using rows by (auto simp: work_rows_def)
  then obtain tr4 where 4: "append_rows E self wd ?res ?js 0 ?tr3
      = (Ret (0, of_nat (length (selected_objects self rows))), tr4)"
    "wd_queue E s0 wd c tr4 (selected_objects self rows)"
    "sq_path (sq_replay wd_sem s0 tr4) = sq_path (sq_replay wd_sem s0 ?tr3)"
    using append_rows_run [OF q3, of ?js ?res self 0] by (auto simp: map_nth)
  obtain tr5 where "hpssix_workdata_end_transaction E wd tr4 = (Ret 0, tr5)"
    "wd_rows_ok (sq_file (sq_replay wd_sem s0 tr5) ?out)"
    "wd_items (sq_file (sq_replay wd_sem s0 tr5) ?out) = selected_objects self rows"
    using workdata_end_queue [OF 4(2)] 4(3) 2(3) 1(3) by auto
  then show ?thesis
    using 1(1) 2(1) query 4(1) builder_output_printf [OF fits]
    by (simp add: hpssix_builder_create_workdata_def bind_io_Ret then_io_Ret)
qed

text \<open>
  C14: the work list the builder leaves.  With a working SQLite and a server that
  answers the query, the last phase succeeds, reports the number of files to
  extract, and the file of the run holds exactly the selected objects, in the
  order of the answer: neither a file the filter refuses nor a file twice.
\<close>

theorem builder_create_workdata_spec:
  assumes sq: "sqlite_live wd_sem s0 E" "sqlite_sound wd_sem s0 E"
    and rows: "work_rows E self rows" and fits: "length (builder_output self) < PATH_MAX"
  shows "\<exists>tr'. hpssix_builder_create_workdata E self tr
      = (Ret (0, self\<lparr>b_n_regular_files := of_nat (length (selected_objects self rows))\<rparr>), tr') \<and>
     wd_rows_ok (sq_file (sq_replay wd_sem s0 tr') (builder_output self)) \<and>
     wd_items (sq_file (sq_replay wd_sem s0 tr') (builder_output self)) = selected_objects self rows"
  by (rule create_workdata_leaves [OF assms])

definition sample_rows :: "string list list" where
  "sample_rows = [[''8'', ''33188'', ''100'', ''/a/x.pdf''], [''9'', ''16877'', ''10'', ''/a/d.pdf''],
     [''10'', ''33188'', ''9999'', ''/a/y.pdf''], [''11'', ''33188'', ''50'', ''/a/z.PDF'']]"

definition sample_work_env :: env where
  "sample_work_env = ref_sqlite wd_sem sq_empty (quiet_env\<lparr>
     env_pq_exec := \<lambda>_ _ s. \<lparr>res_status = PGRES_TUPLES_OK, res_rows = sample_rows\<rparr>\<rparr>)"

lemmas read_number = atoi_def strtoull0_def num_value_def split_sign_def sat64_def sat_signed_def
  hex_prefix_def isdigit_def isodigit_def isxdigit_def isspace_def code_def

lemma sample_numbers:
  "atoi ''33188'' = 33188" "atoi ''16877'' = 16877"
  "strtoull0 ''100'' = (100, [])" "strtoull0 ''10'' = (10, [])" "strtoull0 ''9999'' = (9999, [])"
  "strtoull0 ''50'' = (50, [])" "strtoull0 ''8'' = (8, [])" "strtoull0 ''11'' = (11, [])"
  by (simp_all add: read_number)

lemma sample_modes: "S_ISREG 33188" "\<not> S_ISREG 16877"
  by code_simp+

lemma sample_paths:
  "builder_filter_meta_extract sample_builder ''/a/x.pdf'' m n = Some (S_ISREG m \<and> n \<le> 4096)"
  "builder_filter_meta_extract sample_builder ''/a/y.pdf'' m n = Some (S_ISREG m \<and> n \<le> 4096)"
  "builder_filter_meta_extract sample_builder ''/a/d.pdf'' m n = Some (S_ISREG m \<and> n \<le> 4096)"
  "builder_filter_meta_extract sample_builder ''/a/z.PDF'' m n = Some (S_ISREG m \<and> n \<le> 4096)"
proof -
  have low: "tolower CHR ''p'' = CHR ''p''" "tolower CHR ''d'' = CHR ''d''" "tolower CHR ''f'' = CHR ''f''"
    "tolower CHR ''P'' = CHR ''p''" "tolower CHR ''D'' = CHR ''d''" "tolower CHR ''F'' = CHR ''f''"
    by code_simp+
  note spec = filter_meta_extract_spec [of _ _ sample_builder "''/a''" m n]
  show "builder_filter_meta_extract sample_builder ''/a/x.pdf'' m n = Some (S_ISREG m \<and> n \<le> 4096)"
    using spec [of "''x''" "''pdf''"] by (simp add: low sample_builder_def)
  show "builder_filter_meta_extract sample_builder ''/a/y.pdf'' m n = Some (S_ISREG m \<and> n \<le> 4096)"
    using spec [of "''y''" "''pdf''"] by (simp add: low sample_builder_def)
  show "builder_filter_meta_extract sample_builder ''/a/d.pdf'' m n = Some (S_ISREG m \<and> n \<le> 4096)"
    using spec [of "''d''" "''pdf''"] by (simp add: low sample_builder_def)
  show "builder_filter_meta_extract sample_builder ''/a/z.PDF'' m n = Some (S_ISREG m \<and> n \<le> 4096)"
    using spec [of "''z''" "''PDF''"] by (simp add: low sample_builder_def)
qed

lemma sample_filter:
  "row_filter sample_builder [''8'', ''33188'', ''100'', ''/a/x.pdf''] = Some True"
  "row_filter sample_builder [''9'', ''16877'', ''10'', ''/a/d.pdf''] = Some False"
  "row_filter sample_builder [''10'', ''33188'', ''9999'', ''/a/y.pdf''] = Some False"
  "row_filter sample_builder [''11'', ''33188'', ''50'', ''/a/z.PDF''] = Some True"
  by (simp_all add: row_filter_def sample_numbers sample_modes sample_paths)

lemma sample_work_rows: "work_rows sample_work_env sample_builder sample_rows"
  by (simp add: work_rows_def sample_work_env_def ref_sqlite_def quiet_env_def row_ok_def sample_rows_def
      sample_filter ex_bool_eq)

lemma sample_selected:
  "selected_objects sample_builder sample_rows
     = [\<lparr>object_id = 8, obj_path = ''/a/x.pdf''\<rparr>, \<lparr>object_id = 11, obj_path = ''/a/z.PDF''\<rparr>]"
  by (simp add: selected_objects_def sample_rows_def sample_filter row_object_def sample_numbers)

lemma sample_output: "builder_output sample_builder = ''/d/builder.7.db''"
  by code_simp

theorem builder_create_workdata_spec_witness:
  "\<exists>tr'. hpssix_builder_create_workdata sample_work_env sample_builder []
      = (Ret (0, sample_builder\<lparr>b_n_regular_files := 2\<rparr>), tr') \<and>
     wd_items (sq_file (sq_replay wd_sem sq_empty tr') ''/d/builder.7.db'')
       = [\<lparr>object_id = 8, obj_path = ''/a/x.pdf''\<rparr>, \<lparr>object_id = 11, obj_path = ''/a/z.PDF''\<rparr>]"
proof -
  have sq: "sqlite_live wd_sem sq_empty sample_work_env" "sqlite_sound wd_sem sq_empty sample_work_env"
    unfolding sample_work_env_def by (rule ref_sqlite_live, rule ref_sqlite_sound)
  show ?thesis
    using builder_create_workdata_spec [OF sq sample_work_rows, of "[]"]
    by (auto simp: sample_output sample_selected)
qed

section \<open>One transaction\<close>

text \<open>The transaction commands that reach the server on a connection.\<close>

definition txn_see :: "nat option \<Rightarrow> event \<Rightarrow> string list" where
  "txn_see c ev = (case ev of
     EvPqExec d cmd _ \<Rightarrow> if d = c \<and> cmd \<in> {''BEGIN;'', ''END;'', ''ABORT;''} then [cmd] else []
   | _ \<Rightarrow> [])"

interpretation txn: local_observer "txn_see c" for c
proof (unfold_locales, goal_cases)
  case (1 ev)
  then show ?case by (cases ev) (simp_all add: txn_see_def)
qed

lemma txn_keeps_copy [keeps_intros]:
  "keeps (txn_see c) (hpssix_db_copy_put E db s)" "keeps (txn_see c) (hpssix_db_copy_end E d ab)"
  unfolding hpssix_db_copy_put_def hpssix_db_copy_end_def PQputCopyData_def PQputCopyEnd_def PQgetResult_def
  by (intro keeps_intros keeps_ext; simp add: txn_see_def)+

text \<open>A command that is none of the three is not seen.\<close>

definition plain_cmd :: "string \<Rightarrow> bool" where
  "plain_cmd s \<longleftrightarrow> s \<notin> {''BEGIN;'', ''END;'', ''ABORT;''}"

lemma txn_keeps_exec:
  assumes "case cmd of Some s \<Rightarrow> plain_cmd s | None \<Rightarrow> True"
  shows "keeps (txn_see c) (hpssix_db_psql_exec E db cmd)" "keeps (txn_see c) (hpssix_db_copy_init E db cmd)"
    "keeps (txn_see c) (exec_opt E db cmd)"
  using assms unfolding hpssix_db_psql_exec_def hpssix_db_copy_init_def exec_opt_def PQexec_def
  by (auto split: option.splits intro!: keeps_intros keeps_ext simp: txn_see_def plain_cmd_def)

lemma plain_query:
  assumes "printf (ch # fmt) args = Some q" and "ch \<notin> {PERCENT, CHR ''B'', CHR ''E'', CHR ''A''}"
  shows "plain_cmd q"
  using assms by (auto simp: printf_lit plain_cmd_def)

lemma txn_keeps_query [keeps_intros]:
  assumes "ch \<notin> {PERCENT, CHR ''B'', CHR ''E'', CHR ''A''}"
  shows "keeps (txn_see c) (hpssix_db_psql_query E db (ch # fmt) args)"
proof (cases "printf (ch # fmt) args")
  case (Some q)
  then have "plain_cmd q" using plain_query assms by blast
  then show ?thesis
    unfolding hpssix_db_psql_query_def Some lift_io_Some bind_return_io PQexec_def
    by (intro keeps_intros keeps_ext) (auto simp: txn_see_def plain_cmd_def)
qed (simp add: hpssix_db_psql_query_def)

lemma builder_stmts_plain:
  "plain_cmd builder_fattr_init_stmt" "plain_cmd builder_fattr_copy_stmt" "plain_cmd builder_fattr_fini_stmt"
  "plain_cmd builder_path_init_stmt" "plain_cmd builder_path_copy_stmt" "plain_cmd builder_path_fini_stmt"
  "plain_cmd builder_deleted_init_stmt" "plain_cmd builder_deleted_copy_stmt"
  "plain_cmd builder_deleted_fini_stmt" "plain_cmd xattr_copy_stmt"
  by (simp_all add: plain_cmd_def builder_fattr_init_stmt_def builder_fattr_copy_stmt_def
      builder_fattr_fini_stmt_def builder_path_init_stmt_def builder_path_copy_stmt_def
      builder_path_fini_stmt_def builder_deleted_init_stmt_def builder_deleted_copy_stmt_def
      builder_deleted_fini_stmt_def xattr_copy_stmt_def)

lemma txn_keeps_lines:
  assumes "\<And>f l d. proc = Some f \<Longrightarrow> keeps (txn_see c) (f l d)"
  shows "keeps (txn_see c) (copy_lines E db proc ls n d)"
  by (induction ls arbitrary: n d) (auto split: option.splits intro!: keeps_intros assms)

text \<open>A copy that is not atomic leaves the transaction to its caller.\<close>

lemma txn_keeps_stream:
  assumes na: "\<not> atomic cp" and "\<forall>stmt\<in>{stmt_init cp, stmt_copy cp, stmt_fini cp}. \<forall>s. stmt = Some s \<longrightarrow> plain_cmd s"
    and proc: "\<And>f l d. line_processor cp = Some f \<Longrightarrow> keeps (txn_see c) (f l d)"
  shows "keeps (txn_see c) (copy_stream E db cp d ls ferr)"
proof -
  have begin_end: "keeps (txn_see c) (copy_begin E db cp)" "keeps (txn_see c) (copy_commit E db cp)"
    using na by (simp_all add: copy_begin_def copy_commit_def)
  have fail: "keeps (txn_see c) (copy_fail E db cp n d' r)" for n d' r
    using na unfolding copy_fail_def copy_rollback_def by (auto intro!: keeps_intros)
  have stmts: "case stmt of Some s \<Rightarrow> plain_cmd s | None \<Rightarrow> True"
    if "stmt \<in> {stmt_init cp, stmt_copy cp, stmt_fini cp}" for stmt
    using assms(2) that by (auto split: option.splits)
  have finish: "keeps (txn_see c) (copy_finish E db cp n d')" for n d'
    unfolding copy_finish_def by (intro keeps_intros txn_keeps_exec fail begin_end stmts) simp
  show ?thesis
    unfolding copy_stream_def
    by (intro keeps_intros txn_keeps_exec txn_keeps_lines fail finish begin_end stmts proc) simp_all
qed

lemma txn_keeps_load:
  assumes "plain_cmd ini" "plain_cmd cpy" "plain_cmd fin"
    and "\<And>f l d. proc = Some f \<Longrightarrow> keeps (txn_see c) (f l d)"
  shows "keeps (txn_see c) (load_csv E self type ini cpy fin proc)"
  using assms(1-3) unfolding load_csv_def hpssix_db_copy_def
  by (auto intro!: keeps_intros txn_keeps_stream assms(4))

lemma txn_keeps_loads [keeps_intros]:
  "keeps (txn_see c) (hpssix_builder_process_fattr E self)"
  "keeps (txn_see c) (hpssix_builder_process_path E self)"
  "keeps (txn_see c) (hpssix_builder_process_deleted E self)"
  unfolding hpssix_builder_process_fattr_def hpssix_builder_process_path_def
    hpssix_builder_process_deleted_def
  by (intro txn_keeps_load builder_stmts_plain;
      auto simp: builder_fattr_line_processor_def intro!: keeps_intros)+

lemma keeps_parse_tags [keeps_intros]: "keeps see (parse_tags E ns)"
  by (induction ns) (auto intro!: keeps_intros)

lemma keeps_parse_xattr [keeps_intros]: "keeps see (parse_xattr E s)"
  unfolding parse_xattr_def
  by (auto split: option.splits list.splits intro!: keeps_intros)

lemma keeps_collect_lines [keeps_intros]: "keeps see (collect_lines E ls acc)"
  by (induction ls arbitrary: acc)
    (auto simp: Let_def split: option.splits prod.splits intro!: keeps_intros)

lemma txn_keeps_populate [keeps_intros]:
  "keeps (txn_see c) (hpssix_db_populate_xattr_keys E db xs)"
proof -
  have tag: "keeps (txn_see c) (populate_tag E db t)" for t
    unfolding populate_tag_def by (auto intro!: keeps_intros)
  have tags: "keeps (txn_see c) (populate_tags E db ts acc)" for ts acc
    by (induction ts arbitrary: acc) (auto intro!: keeps_intros tag)
  have "keeps (txn_see c) (populate_xattrs E db xs acc)" for acc
    by (induction xs arbitrary: acc) (auto intro!: keeps_intros tags)
  then show ?thesis by (simp add: hpssix_db_populate_xattr_keys_def)
qed

lemma txn_keeps_xattrs [keeps_intros]: "keeps (txn_see c) (hpssix_builder_process_xattrs E self)"
  unfolding hpssix_builder_process_xattrs_def builder_collect_xattrs_def put_xattr_def
    hpssix_db_delete_xattrs_def sql_delete_xattr_def Let_def
  by (auto intro!: keeps_intros txn_keeps_exec(2) simp: builder_stmts_plain)

lemma txn_keeps_append_rows [keeps_intros]: "keeps (txn_see c) (append_rows E self wd res js count)"
  by (induction js arbitrary: count) (auto intro!: keeps_intros)

lemma txn_keeps_create_workdata [keeps_intros]:
  "keeps (txn_see c) (hpssix_builder_create_workdata E self)"
  unfolding hpssix_builder_create_workdata_def hpssix_workdata_create_def
  by (auto simp: workdata_sql_def intro!: keeps_intros)

lemma txn_keeps_phases: "keeps (txn_see c) (builder_phases E self)"
  unfolding builder_phases_def by (intro keeps_intros txn.keeps_prims)



end
