(* ===== verification/Hpssix_Extractor.thy ===== *)
theory Hpssix_Extractor
  imports Hpssix_Builder_Run
begin

text \<open>
  The extractor (tools/extractor): it opens the work list the builder left, splits it
  between its threads, sends every file to the Tika server and indexes what comes
  back.  hpssix-extractor-tika.c holds the two HTTP requests, hpssix-extractor.c
  the allocation of the work, the threads and main.

  A thread body is run to completion before the next one; the order is a
  parameter of main, so every order of the threads is covered.  What threads can
  do to each other inside that, namely to the shared counter \<open>n_extracted\<close>, is the
  step relation at the end.
\<close>

section \<open>Data\<close>

record hpssix_extractor_data =
  x_tika_host :: string
  x_tika_port :: u64
  x_file :: string
  x_file_size :: u64
  x_meta :: "string option"
  x_content :: "string option"

text \<open>The variables main sets before it starts the threads.\<close>

record extractor_vars =
  nthreads :: u64
  total_objects :: u64
  xconfig :: hpssix_config
  xdbpath :: string
  verbose :: bool

definition default_tika_host :: string where
  "default_tika_host = ''localhost''"

section \<open>Requests\<close>

definition get_tika_url_meta :: "hpssix_extractor_data \<Rightarrow> string option" where
  "get_tika_url_meta data = sprintf_buf 1024 ''http://%s:%d/meta''
     [PStr (Some (x_tika_host data)), PInt (x_tika_port data)]"

definition get_tika_url_content :: "hpssix_extractor_data \<Rightarrow> string option" where
  "get_tika_url_content data = sprintf_buf 1024 ''http://%s:%d/tika''
     [PStr (Some (x_tika_host data)), PInt (x_tika_port data)]"

text \<open>
  \<open>curl_put\<close> sends the file and gives the result code (0: \<open>CURLE_OK\<close>) and the bytes
  that are in the temporary file afterwards, which is emptied before.  The buffer
  read back is used as a C string.
\<close>

definition hpssix_extractor_get_meta ::
  "env \<Rightarrow> hpssix_extractor_data \<Rightarrow> (int \<times> hpssix_extractor_data) io" where
  "hpssix_extractor_get_meta E data =
     bind_io (lift_io (get_tika_url_meta data)) (\<lambda>url.
     bind_io (curl_put E url ''Accept: application/json'' (x_file data)) (\<lambda>(cc, body).
     if cc \<noteq> 0 then return_io (EIO, data)
     else if body = [] then return_io (EINVAL, data\<lparr>x_meta := None\<rparr>)
     else bind_io (alloc E (length body + 1)) (\<lambda>ok.
       if \<not> ok then return_io (ENOMEM, data)
       else bind_io (c_sys E ''fread'') (\<lambda>bad.
         if bad \<noteq> 0 then bind_io (c_errno E) (\<lambda>e. return_io (e, data))
         else return_io (0, data\<lparr>x_meta := Some (cstr body)\<rparr>)))))"

text \<open>An empty answer makes \<open>fread\<close> of one item of size 0 return 0, and \<open>errno\<close> is returned.\<close>

definition hpssix_extractor_get_content ::
  "env \<Rightarrow> hpssix_extractor_data \<Rightarrow> (int \<times> hpssix_extractor_data) io" where
  "hpssix_extractor_get_content E data =
     bind_io (lift_io (get_tika_url_content data)) (\<lambda>url.
     bind_io (curl_put E url ''Accept: text/plain'' (x_file data)) (\<lambda>(cc, body).
     if cc \<noteq> 0 then return_io (EIO, data)
     else bind_io (alloc E (length body + 1)) (\<lambda>ok.
       if \<not> ok then return_io (ENOMEM, data)
       else bind_io (c_sys E ''fread'') (\<lambda>bad.
         if bad \<noteq> 0 \<or> body = [] then bind_io (c_errno E) (\<lambda>e. return_io (e, data))
         else return_io (0, data\<lparr>x_content := Some (cstr body)\<rparr>)))))"

section \<open>Workers\<close>

definition check_builder_output :: "env \<Rightarrow> string \<Rightarrow> int io" where
  "check_builder_output E path =
     bind_io (c_stat E path) (\<lambda>r. case r of
       Inl e \<Rightarrow> return_io e
     | Inr sb \<Rightarrow> return_io (if 0 < sint (st_size sb) then 0 else EINVAL))"

text \<open>Division by zero, for no threads, is undefined.\<close>

definition get_work_allocation :: "u64 \<Rightarrow> u64 \<Rightarrow> u64 \<Rightarrow> (u64 \<times> u64) option" where
  "get_work_allocation tot n i =
     (if n = 0 then None
      else let per_each = tot div n
           in Some (per_each * i, if i = n - 1 then per_each + tot mod n else per_each))"

text \<open>
  The last argument of \<open>do_extract\<close> is \<open>n_extracted\<close>.  Both messages about a failed
  request pass one argument less than their format takes: undefined.
\<close>

definition extract_file ::
  "env \<Rightarrow> extractor_vars \<Rightarrow> u64 \<Rightarrow> hpssix_extractor_data \<Rightarrow> (int \<times> hpssix_extractor_data) io" where
  "extract_file E v i data =
     bind_io (hpssix_extractor_get_meta E data) (\<lambda>(ret, data).
     if ret \<noteq> 0 \<and> verbose v
     then (if ret \<noteq> EINVAL
           then then_io (c_printf (''[%lu]EE: hpssix_extractor_get_meta failed (%d:%s)'' @ [NL])
                           [PInt i, PStr (Some (env_strerror E ret))]) (return_io (ret, data))
           else return_io (ret, data))
     else bind_io (hpssix_extractor_get_content E data) (\<lambda>(ret, data).
       if ret \<noteq> 0 \<and> verbose v
       then then_io (c_printf (''[%lu]EE: hpssix_extractor_get_content failed (%d:%s)'' @ [NL])
                       [PInt i, PStr (Some (env_strerror E ret))]) (return_io (ret, data))
       else return_io (ret, data)))"

definition index_file ::
  "env \<Rightarrow> extractor_vars \<Rightarrow> hpssix_workdata_object \<Rightarrow> hpssix_db \<Rightarrow> u64 \<Rightarrow>
   int \<Rightarrow> hpssix_extractor_data \<Rightarrow> u64 \<Rightarrow> (int \<times> u64) io" where
  "index_file E v obj db i ret data n = (case x_meta data of
     None \<Rightarrow> return_io (ret, n)
   | Some meta \<Rightarrow>
       then_io (if verbose v
                then c_printf (''[%lu] extracted from %lu, %s (meta: %s, content: ...)'' @ [NL])
                       [PInt i, PInt (object_id obj), PStr (Some (x_file data)), PStr (Some meta)]
                else return_io ())
       (bind_io (hpssix_db_index_tsv E db (object_id obj) (x_meta data) (x_content data)) (\<lambda>ret.
        return_io (ret, if ret \<noteq> 0 then n else n + 1))))"

text \<open>\<open>extract_statted\<close> is the function from the answer \<open>r\<close> of \<open>stat\<close> on.\<close>

definition extract_statted ::
  "env \<Rightarrow> extractor_vars \<Rightarrow> hpssix_workdata_object \<Rightarrow> hpssix_db \<Rightarrow> u64 \<Rightarrow> u64 \<Rightarrow>
   string \<Rightarrow> int + stat_t \<Rightarrow> (int \<times> u64) io" where
  "extract_statted E v obj db i n file r = (case r of
     Inl e \<Rightarrow>
       then_io (c_printf (''[%lu]EE: cannot stat %s (%s)'' @ [NL])
          [PInt i, PStr (Some file), PStr (Some (env_strerror E e))]) (return_io (e, n))
   | Inr sb \<Rightarrow>
       bind_io (c_fopen E file) (\<lambda>r. case r of
         Inl e \<Rightarrow>
           then_io (c_printf (''[%lu]EE: cannot fopen %s (%s)'' @ [NL])
              [PInt i, PStr (Some file), PStr (Some (env_strerror E e))]) (return_io (e, n))
       | Inr _ \<Rightarrow>
           bind_io (c_sys E ''tmpfile'') (\<lambda>e.
           if e \<noteq> 0 then
             then_io (c_printf (''[%lu]EE: cannot make tmpfile (%s)'' @ [NL])
                [PInt i, PStr (Some file), PStr (Some (env_strerror E e))]) (return_io (e, n))
           else bind_io (extract_file E v i
                  \<lparr>x_tika_host = default_tika_host, x_tika_port = ucast (tika_port (xconfig v)),
                   x_file = file, x_file_size = st_size sb, x_meta = None, x_content = None\<rparr>)
             (\<lambda>(ret, data). index_file E v obj db i ret data n))))"

definition do_extract ::
  "env \<Rightarrow> extractor_vars \<Rightarrow> hpssix_workdata_object \<Rightarrow> hpssix_db \<Rightarrow> u64 \<Rightarrow> u64 \<Rightarrow> (int \<times> u64) io" where
  "do_extract E v obj db i n =
     bind_io (lift_io (sprintf_buf PATH_MAX ''%s%s''
        [PStr (hpss_mountpoint (xconfig v)), PStr (Some (obj_path obj))])) (\<lambda>file.
     bind_io (c_stat E file) (extract_statted E v obj db i n file))"

text \<open>The loop over the objects of a thread; what \<open>do_extract\<close> returns is only reported.\<close>

fun extract_all ::
  "env \<Rightarrow> extractor_vars \<Rightarrow> hpssix_db \<Rightarrow> u64 \<Rightarrow> u64 \<Rightarrow> u64 \<Rightarrow> hpssix_workdata_object list \<Rightarrow> u64 \<Rightarrow> u64 io" where
  "extract_all E v db i count k [] n = return_io n"
| "extract_all E v db i count k (current # rest) n =
     then_io (if verbose v
              then c_printf (''[%lu]: processing file %lu/%lu (%s)'' @ [NL])
                     [PInt i, PInt k, PInt count, PStr (Some (obj_path current))]
              else return_io ())
     (bind_io (do_extract E v current db i n) (\<lambda>(_, n). extract_all E v db i count (k + 1) rest n))"

definition extractor_worker_func :: "env \<Rightarrow> extractor_vars \<Rightarrow> u64 \<Rightarrow> u64 \<Rightarrow> u64 io" where
  "extractor_worker_func E v i n =
     bind_io (lift_io (get_work_allocation (total_objects v) (nthreads v) i)) (\<lambda>(offset, count).
     then_io (if verbose v
              then c_printf (''[%lu] work (%lu, %lu)'' @ [NL]) [PInt i, PInt offset, PInt count]
              else return_io ())
     (bind_io (hpssix_workdata_open E (Some workdata_zero) (Some (xdbpath v))) (\<lambda>(ret, wd).
      if ret \<noteq> 0 then return_io n
      else bind_io (hpssix_workdata_dispatch E wd
             (Some \<lparr>wl_offset = offset, wl_count = count, wl_objects = None\<rparr>)) (\<lambda>(ret, l).
       then_io (hpssix_workdata_close wd)
       (if ret \<noteq> 0 then return_io n
        else bind_io (hpssix_db_connect E (Some \<lparr>dbconn = None\<rparr>) (xconfig v)) (\<lambda>(ret, d).
          if ret \<noteq> 0 then return_io n
          else bind_io (lift_io l) (\<lambda>wl.
            bind_io (lift_io d) (\<lambda>db.
            bind_io (extract_all E v db i (wl_count wl) 0
                       (case wl_objects wl of None \<Rightarrow> [] | Some os \<Rightarrow> os) n) (\<lambda>n.
            then_io (hpssix_db_disconnect (Some db)) (return_io n))))))))))"

section \<open>Main\<close>

text \<open>
  \<open>opts\<close> are the options \<open>getopt_long\<close> returns with their arguments.  \<open>run_workers\<close>
  runs the bodies of the threads in the given order; \<open>start_threads\<close> is the
  \<open>pthread_create\<close> loop: the error of the first failure and the threads started.
\<close>

fun extractor_options :: "(char \<times> string) list \<Rightarrow> u64 \<Rightarrow> bool \<Rightarrow> (u64 \<times> bool) io" where
  "extractor_options [] nt vb = return_io (nt, vb)"
| "extractor_options ((ch, optarg) # os) nt vb =
     (if ch = CHR ''n'' then extractor_options os (fst (strtoull0 optarg)) vb
      else if ch = CHR ''v'' then extractor_options os nt True
      else exit_io 1)"

fun start_threads :: "env \<Rightarrow> nat \<Rightarrow> nat \<Rightarrow> (int \<times> nat) io" where
  "start_threads E 0 started = return_io (0, started)"
| "start_threads E (Suc k) started =
     bind_io (c_sys E ''pthread_create'') (\<lambda>ret.
     if ret \<noteq> 0 then return_io (ret, started) else start_threads E k (Suc started))"

fun run_workers :: "env \<Rightarrow> extractor_vars \<Rightarrow> nat list \<Rightarrow> u64 \<Rightarrow> u64 io" where
  "run_workers E v [] n = return_io n"
| "run_workers E v (i # js) n =
     bind_io (extractor_worker_func E v (of_nat i) n) (\<lambda>n. run_workers E v js n)"

fun join_threads :: "env \<Rightarrow> nat \<Rightarrow> int \<Rightarrow> int io" where
  "join_threads E 0 ret = return_io ret"
| "join_threads E (Suc k) ret = bind_io (c_sys E ''pthread_join'') (\<lambda>ret. join_threads E k ret)"

text \<open>
  The work of main after the options.  \<open>order\<close> gives, for the number of threads
  started, the bodies that run and their order; \<open>elapsed\<close> is the printed time.
\<close>

definition extractor_finish :: "string \<Rightarrow> int \<Rightarrow> u64 \<Rightarrow> int io" where
  "extractor_finish elapsed ret n =
     then_io (c_printf (''## files extracted: %d'' @ [NL]) [PInt n])
     (then_io (c_puts (''## '' @ elapsed @ '' seconds'' @ [NL])) (return_io ret))"

definition extractor_threads ::
  "env \<Rightarrow> extractor_vars \<Rightarrow> (nat \<Rightarrow> nat list) \<Rightarrow> string \<Rightarrow> int io" where
  "extractor_threads E v order elapsed =
     bind_io (alloc E (8 * unat (nthreads v))) (\<lambda>ok.
     if \<not> ok then extractor_finish elapsed ENOMEM 0
     else bind_io (start_threads E (unat (nthreads v)) 0) (\<lambda>(ret, started).
       bind_io (run_workers E v (order started) 0) (\<lambda>n.
       if ret \<noteq> 0 then extractor_finish elapsed ret n
       else bind_io (join_threads E (unat (nthreads v)) 0) (\<lambda>ret. extractor_finish elapsed ret n))))"

definition extractor_main ::
  "env \<Rightarrow> (char \<times> string) list \<Rightarrow> string list \<Rightarrow> (nat \<Rightarrow> nat list) \<Rightarrow> string \<Rightarrow> int io" where
  "extractor_main E opts operands order elapsed =
     bind_io (extractor_options opts 0 False) (\<lambda>(nt, vb).
     if length operands \<noteq> 1 then exit_io 1
     else let path = operands ! 0 in
       bind_io (hpssix_config_read_sysconf E (Some config_zero)) (\<lambda>(ret, c).
       bind_io (lift_io c) (\<lambda>config.
       if ret \<noteq> 0 then c_errno E
       else try_io (check_builder_output E path) (\<lambda>_. return_io EINVAL)
        (bind_io (hpssix_workdata_open E (Some workdata_zero) (Some path)) (\<lambda>(ret, wd).
         if ret \<noteq> 0 then c_errno E
         else bind_io (hpssix_workdata_get_total_count E wd) (\<lambda>(ret, t).
           if ret \<noteq> 0 then c_errno E
           else bind_io (lift_io t) (\<lambda>tot.
             then_io (hpssix_workdata_close wd)
             (then_io (c_printf (''Total work: %lu'' @ [NL]) [PInt tot])
              (if tot = 0
               then then_io (c_puts (''Nothing to extract.. terminating.'' @ [NL]))
                      (extractor_finish ''0.000'' 0 0)
               else extractor_threads E
                      \<lparr>nthreads = if nt = 0 then ucast (extractor_nthreads config) else nt,
                       total_objects = tot, xconfig = config, xdbpath = path, verbose = vb\<rparr>
                      order elapsed)))))))))"

section \<open>The allocation of the work\<close>

text \<open>
  The contract of an allocation of \<open>t\<close> objects to \<open>n\<close> threads: the parts start at 0,
  follow each other without gap or overlap, and end at \<open>t\<close>.
\<close>

locale work_partition =
  fixes part :: "u64 \<Rightarrow> u64 \<Rightarrow> nat \<Rightarrow> nat \<times> nat"
  assumes start_law: "n \<noteq> 0 \<Longrightarrow> fst (part t n 0) = 0"
    and next_law: "Suc i < unat n \<Longrightarrow> fst (part t n (Suc i)) = fst (part t n i) + snd (part t n i)"
    and stop_law: "n \<noteq> 0 \<Longrightarrow> fst (part t n (unat n - 1)) + snd (part t n (unat n - 1)) = unat t"
begin

lemma parts_cover:
  assumes "n \<noteq> 0" and "length xs = unat t"
  shows "concat (map (\<lambda>i. slice (fst (part t n i)) (snd (part t n i)) xs) [0..<unat n]) = xs"
proof -
  define off where "off i = (if i < unat n then fst (part t n i) else unat t)" for i
  have n: "0 < unat n" using assms(1) by (simp add: unat_gt_0)
  have "off (Suc i) = off i + snd (part t n i)" if "i < unat n" for i
  proof (cases "Suc i < unat n")
    case True
    then show ?thesis using next_law [of i n t] by (simp add: off_def)
  next
    case False
    then have "i = unat n - 1" using that by simp
    then show ?thesis using stop_law [OF assms(1), of t] that n by (simp add: off_def)
  qed
  then have "concat (map (\<lambda>i. slice (off i) (snd (part t n i)) xs) [0..<unat n]) = slice 0 (off (unat n)) xs"
    using start_law [OF assms(1), of t] n by (intro concat_slices) (simp_all add: off_def)
  moreover have "map (\<lambda>i. slice (off i) (snd (part t n i)) xs) [0..<unat n]
      = map (\<lambda>i. slice (fst (part t n i)) (snd (part t n i)) xs) [0..<unat n]"
    by (simp add: off_def)
  moreover have "slice 0 (off (unat n)) xs = xs"
    using assms(2) by (simp add: off_def slice_all)
  ultimately show ?thesis by metis
qed

lemma part_within:
  assumes "i < unat n"
  shows "fst (part t n i) + snd (part t n i) \<le> unat t"
  using assms
proof (induction "unat n - 1 - i" arbitrary: i)
  case 0
  then have "i = unat n - 1" "n \<noteq> 0" by auto
  then show ?case using stop_law [of n t] by simp
next
  case (Suc k)
  then have "Suc i < unat n" by simp
  moreover have "fst (part t n (Suc i)) + snd (part t n (Suc i)) \<le> unat t"
    using Suc by (intro Suc.hyps(1)) auto
  ultimately show ?case using next_law [of i n t] by simp
qed

end

definition thread_part :: "u64 \<Rightarrow> u64 \<Rightarrow> nat \<Rightarrow> nat \<times> nat" where
  "thread_part t n i = (case get_work_allocation t n (of_nat i) of
     None \<Rightarrow> (0, 0) | Some (off, cnt) \<Rightarrow> (unat off, unat cnt))"

lemma thread_part_eq:
  assumes "i < unat n"
  shows "thread_part t n i = (unat t div unat n * i,
     unat t div unat n + (if Suc i = unat n then unat t mod unat n else 0))"
proof -
  have n: "n \<noteq> 0" and i: "unat (of_nat i :: u64) = i"
    using assms less_trans [OF assms unsigned_less [of n]]
    by (auto simp: unsigned_of_nat take_bit_nat_eq_self)
  have last: "of_nat i = n - 1 \<longleftrightarrow> Suc i = unat n"
    using assms i n by (auto simp: word_unat_eq_iff unat_minus_one)
  have t: "unat t < 2 ^ 64" using unsigned_less [of t] by simp
  have "unat t div unat n * i \<le> unat t"
    using assms by (meson div_times_less_eq_dividend le_trans less_imp_le_nat mult_le_mono2)
  then have off: "unat (t div n * of_nat i) = unat t div unat n * i"
    using t i unat_mult_lem [of "t div n" "of_nat i"] by (simp add: unat_div)
  have "unat t div unat n + unat t mod unat n \<le> unat t"
    using n by (metis div_le_dividend div_mult_mod_eq add_mono_thms_linordered_semiring(3) mult_le_mono2 mult.right_neutral Suc_leI unat_gt_0 One_nat_def)
  then have cnt: "unat (t div n + t mod n) = unat t div unat n + unat t mod unat n"
    using t unat_add_lem [of "t div n" "t mod n"] by (simp add: unat_div unat_mod)
  show ?thesis
    using n off cnt last by (simp add: thread_part_def get_work_allocation_def Let_def unat_div)
qed

interpretation threads: work_partition thread_part
proof (unfold_locales, goal_cases)
  case (1 n t)
  then show ?case using thread_part_eq [of 0 n t] by (simp add: unat_gt_0)
next
  case (2 i n t)
  then show ?case using thread_part_eq [of i n t] thread_part_eq [of "Suc i" n t] by simp
next
  case (3 n t)
  then have "unat n - 1 < unat n" "Suc (unat n - 1) = unat n"
    by (simp_all add: unat_gt_0)
  moreover have "unat t div unat n * (unat n - 1) + unat t div unat n = unat t div unat n * unat n"
    using calculation(2) by (metis add.commute mult_Suc_right)
  ultimately show ?case
    using thread_part_eq [of "unat n - 1" n t] div_mult_mod_eq [of "unat t" "unat n"]
    by (simp add: add.assoc [symmetric])
qed

text \<open>
  C16: no object is lost and none is done twice.  For any number of objects and any
  positive number of threads, with 64-bit arithmetic, the parts the threads compute
  for themselves, put together in the order of the threads, are the whole list.
\<close>

theorem work_allocation_partition:
  assumes "n \<noteq> 0" and "length xs = unat t"
  shows "concat (map (\<lambda>i. case the (get_work_allocation t n (of_nat i)) of
            (off, cnt) \<Rightarrow> slice (unat off) (unat cnt) xs) [0..<unat n]) = xs"
proof -
  have "(case the (get_work_allocation t n (of_nat i)) of (off, cnt) \<Rightarrow> slice (unat off) (unat cnt) xs)
      = slice (fst (thread_part t n i)) (snd (thread_part t n i)) xs" for i
    using assms(1) by (simp add: thread_part_def get_work_allocation_def Let_def)
  then show ?thesis
    using threads.parts_cover [OF assms] by simp
qed

theorem work_allocation_partition_witness:
  "concat (map (\<lambda>i. case the (get_work_allocation 5 2 (of_nat i)) of
      (off, cnt) \<Rightarrow> slice (unat off) (unat cnt) [10, 20, 30, 40, 50 :: nat]) [0..<2])
    = [10, 20, 30, 40, 50]"
  using work_allocation_partition [of 2 "[10, 20, 30, 40, 50 :: nat]" 5] by simp

end
