(* ===== verification/Hpssix_Extractor_Run.thy ===== *)
theory Hpssix_Extractor_Run
  imports Hpssix_Extractor "HOL-Library.Multiset"
begin

text \<open>
  What a run of the extractor does: without the verbose option a thread always
  returns, tries every object of its part exactly once whatever happens to the
  others, and counts exactly the documents the server accepted.  With a working
  SQLite the threads of a run together try every object of the builder's list.
\<close>

section \<open>Trying a file\<close>

text \<open>The files the extractor looks at, by their full names.\<close>

definition stat_see :: "event \<Rightarrow> string list" where
  "stat_see ev = (case ev of EvStat p _ \<Rightarrow> [p] | _ \<Rightarrow> [])"

definition file_of :: "extractor_vars \<Rightarrow> hpssix_workdata_object \<Rightarrow> string" where
  "file_of v obj = (case hpss_mountpoint (xconfig v) of None \<Rightarrow> ''(null)'' | Some m \<Rightarrow> m) @ obj_path obj"

lemma file_of_printf:
  "length (file_of v obj) < PATH_MAX \<Longrightarrow>
   sprintf_buf PATH_MAX ''%s%s'' [PStr (hpss_mountpoint (xconfig v)), PStr (Some (obj_path obj))]
     = Some (file_of v obj)"
  by (cases "hpss_mountpoint (xconfig v)") (simp_all add: sprintf_buf_def file_of_def)

lemma port_text:
  "length (sdec (int32 (ucast (p :: u16)))) \<le> 5"
proof -
  have p: "unat p < 2 ^ 16" using unsigned_less [of p] by simp
  have "uint p < 2 ^ LENGTH(16)" by (rule unsigned_less)
  then have "int32 (of_int (uint p)) = uint p"
    by (intro int32_small) simp_all
  then have "int32 (ucast p) = uint p"
    by (simp only: ucast_eq)
  then have "sdec (int32 (ucast p)) = dec (unat p)" by (simp add: sdec_def)
  then show ?thesis using length_dec_le [of "unat p" 5] p by simp
qed

lemma tika_urls:
  assumes "x_tika_host data = default_tika_host" and "x_tika_port data = ucast (p :: u16)"
  shows "get_tika_url_meta data \<noteq> None" "get_tika_url_content data \<noteq> None"
  using assms port_text [of p]
  by (simp_all add: get_tika_url_meta_def get_tika_url_content_def sprintf_buf_def default_tika_host_def)

lemma meta_keeps_host:
  "hpssix_extractor_get_meta E data tr = (Ret (r, data'), tr') \<Longrightarrow>
   x_tika_host data' = x_tika_host data \<and> x_tika_port data' = x_tika_port data \<and> x_file data' = x_file data"
  by (auto simp: hpssix_extractor_get_meta_def bind_io_eq_Ret_iff lift_io_def curl_put_def alloc_def c_sys_def
      c_errno_def split: option.splits prod.splits if_splits)

lemma returns_requests [returns_intros]:
  assumes "x_tika_host data = default_tika_host" and "x_tika_port data = ucast (p :: u16)"
  shows "returns (hpssix_extractor_get_meta E data)" "returns (hpssix_extractor_get_content E data)"
  unfolding hpssix_extractor_get_meta_def hpssix_extractor_get_content_def
  by (intro returns_intros tika_urls [OF assms])+

lemma returns_extract_file:
  assumes "\<not> verbose v" and "x_tika_host data = default_tika_host" and "x_tika_port data = ucast (p :: u16)"
  shows "returns (extract_file E v i data)"
  unfolding returns_def
proof
  fix tr
  obtain r data1 tr1 where 1: "hpssix_extractor_get_meta E data tr = (Ret (r, data1), tr1)"
    using returns_requests(1) [OF assms(2,3), of E] by (elim returnsE [of _ tr]) auto
  have h: "x_tika_host data1 = default_tika_host" "x_tika_port data1 = ucast p"
    using meta_keeps_host [OF 1] assms(2,3) by simp_all
  obtain r2 data2 tr2 where "hpssix_extractor_get_content E data1 tr1 = (Ret (r2, data2), tr2)"
    using returns_requests(2) [OF h, of E] by (elim returnsE [of _ tr1]) auto
  with 1 assms(1) show "\<exists>x tr'. extract_file E v i data tr = (Ret x, tr')"
    by (simp add: extract_file_def bind_io_Ret)
qed

lemma returns_index_tsv [returns_intros]: "returns (hpssix_db_index_tsv E db oid meta txt)"
  unfolding hpssix_db_index_tsv_def hpssix_db_psql_query_def sql_index_tsv_def
  by (intro returns_intros; simp)

lemma returns_index_file [returns_intros]:
  "\<not> verbose v \<Longrightarrow> returns (index_file E v obj db i ret data n)"
  unfolding index_file_def by (auto intro!: returns_intros)

lemma keeps_stat_prims [simp, keeps_intros]:
  "keeps stat_see (c_fopen E p)" "keeps stat_see (c_puts s)" "keeps stat_see (c_sys E nm)"
  "keeps stat_see (curl_put E url acc p)" "keeps stat_see (PQexec E c cmd)" "keeps stat_see (PQconnectdb E uri)"
  "keeps stat_see (PQfinish k)" "keeps stat_see (config_read_file E p)" "keeps stat_see (sqlite3_close k)"
  "keeps stat_see (sqlite3_open E p)" "keeps stat_see (sqlite3_exec E k q)" "keeps stat_see (sqlite3_prepare E k q)"
  "keeps stat_see (sqlite3_bind_int64 E st j w)" "keeps stat_see (sqlite3_step E st)" "keeps stat_see (sqlite3_reset st)"
  by (auto simp: keeps_def prim_defs stat_see_def split: prod.splits)

lemma keeps_sq_prims [simp, keeps_intros]:
  "keeps sq_see (c_fopen E p)" "keeps sq_see (c_puts s)" "keeps sq_see (c_sys E nm)" "keeps sq_see (c_stat E p)"
  "keeps sq_see (curl_put E url acc p)" "keeps sq_see (PQexec E c cmd)" "keeps sq_see (PQconnectdb E uri)"
  "keeps sq_see (PQfinish k)"
  by (auto simp: keeps_def prim_defs sq_see_def split: prod.splits)

lemma keeps_printf [keeps_intros]: "(\<And>s. keeps see (c_puts s)) \<Longrightarrow> keeps see (c_printf fmt args)"
  unfolding c_printf_def by (intro keeps_intros)

lemmas extract_defs = extract_file_def hpssix_extractor_get_meta_def hpssix_extractor_get_content_def
  index_file_def hpssix_db_index_tsv_def hpssix_db_psql_query_def

lemma keeps_extract_file [keeps_intros]:
  "keeps stat_see (extract_file E v i data)" "keeps sq_see (extract_file E v i data)"
  "keeps stat_see (index_file E v obj db i ret data n)" "keeps sq_see (index_file E v obj db i ret data n)"
  unfolding extract_defs by (intro keeps_intros keeps_stat_prims keeps_sq_prims)+

lemma keeps_sq_extract [keeps_intros]: "keeps sq_see (do_extract E v obj db i n)"
  unfolding do_extract_def extract_statted_def by (intro keeps_intros keeps_sq_prims)

lemma returns_extract_statted:
  "\<not> verbose v \<Longrightarrow> returns (extract_statted E v obj db i n file r)"
  unfolding extract_statted_def
  by (intro returns_intros returns_extract_file [where p = "tika_port (xconfig v)"]) simp_all

lemma keeps_extract_statted: "keeps stat_see (extract_statted E v obj db i n file r)"
  unfolding extract_statted_def by (intro keeps_intros keeps_stat_prims)

text \<open>Without the verbose option \<open>do_extract\<close> returns and has looked at its file once.\<close>

lemma do_extract_tries:
  assumes "\<not> verbose v" and "length (file_of v obj) < PATH_MAX"
  shows "\<exists>r n' tr'. do_extract E v obj db i n tr = (Ret (r, n'), tr') \<and>
     obs stat_see tr' = obs stat_see tr @ [file_of v obj]"
proof -
  let ?f = "file_of v obj" let ?r = "env_stat E tr ?f"
  obtain x tr' where 1: "extract_statted E v obj db i n ?f ?r (EvStat ?f ?r # tr) = (Ret x, tr')"
    using returns_extract_statted [OF assms(1)] by (rule returnsE)
  then have "obs stat_see tr' = obs stat_see (EvStat ?f ?r # tr)"
    by (rule keepsD [OF keeps_extract_statted])
  with 1 show ?thesis
    by (cases x)
      (simp add: do_extract_def file_of_printf [OF assms(2)] c_stat_def bind_io_apply stat_see_def)
qed

section \<open>A thread\<close>

lemma extract_all_tries:
  assumes "\<not> verbose v" and "\<forall>x\<in>set objs. length (file_of v x) < PATH_MAX"
  shows "\<exists>n' tr'. extract_all E v db i m k objs n tr = (Ret n', tr') \<and>
     obs stat_see tr' = obs stat_see tr @ map (file_of v) objs"
  using assms
proof (induction objs arbitrary: k n tr)
  case (Cons x objs)
  obtain r n1 tr1 where "do_extract E v x db i n tr = (Ret (r, n1), tr1)"
    "obs stat_see tr1 = obs stat_see tr @ [file_of v x]"
    using do_extract_tries [OF Cons.prems(1), of x E db i n tr] Cons.prems(2) by auto
  then show ?case
    using Cons.IH [OF Cons.prems(1), of "k + 1" n1 tr1] Cons.prems
    by (simp add: bind_io_Ret then_io_Ret)
qed simp

lemma keeps_sq_extract_all [keeps_intros]: "keeps sq_see (extract_all E v db i m k objs n)"
  by (induction objs arbitrary: k n) (auto intro!: keeps_intros)

text \<open>Opening a work list, dispatching from it and closing it writes to no file.\<close>

definition files_are :: "sqstate \<Rightarrow> (string \<Rightarrow> row list) \<Rightarrow> trace \<Rightarrow> bool" where
  "files_are s0 F tr \<longleftrightarrow> sq_file (sq_replay wd_sem s0 tr) = F"

lemma preserves_Pair [simp]: "preserves I (Pair r)"
  by (simp add: preserves_def)

lemma files_prims [simp]:
  "preserves (files_are s0 F) (config_read_file E p)" "preserves (files_are s0 F) (sqlite3_open E p)"
  "preserves (files_are s0 F) (sqlite3_prepare E c q)" "preserves (files_are s0 F) (sqlite3_close c)"
  "preserves (files_are s0 F) (sqlite3_bind_int64 E (Some st) j w)"
  "preserves (files_are s0 F) (sqlite3_reset (Some st))"
  "preserves (files_are s0 F) (sqlite3_step E (Some (fetch_stmt c)))"
  by (auto simp: preserves_def files_are_def prim_defs Let_def split: prod.splits)

lemma files_open: "preserves (files_are s0 F) (hpssix_workdata_open E (Some wd) (Some name))"
proof -
  have prep: "preserves (files_are s0 F) (prepare_loop E c k sqls acc)" for c k sqls acc
    by (induction E c k sqls acc rule: prepare_loop.induct) auto
  have sects: "preserves (files_are s0 F) (read_sections E f)" for f
    using silent_read_sections [of E f] unfolding silent_def preserves_def by (metis snd_conv)
  show ?thesis
    unfolding hpssix_workdata_open_def hpssix_workdata_open_mode_def hpssix_config_read_sysconf_def
      hpssix_tmpdb_open_def tmpdb_prepare_stmt_def Let_def
    by (auto split: option.splits prod.splits intro!: preserves_bind preserves_then preserves_if prep sects)
qed

lemma files_dispatch:
  assumes "wd_ready wd c"
  shows "preserves (files_are s0 F) (hpssix_workdata_dispatch E (Some wd) l)"
proof -
  have dup: "preserves (files_are s0 F) (strdup E q)" for q
    unfolding strdup_def by auto
  have loop: "preserves (files_are s0 F) (dispatch_loop E (Some (fetch_stmt c)) k acc)" for k acc
    by (induction k arbitrary: acc) (auto simp: Let_def split: option.splits intro!: preserves_bind dup)
  have retry: "preserves (files_are s0 F) (step_retry k E (Some (fetch_stmt c)))" for k
    by (induction k) auto
  show ?thesis
    unfolding hpssix_workdata_dispatch_def Let_def
    by (auto simp: wd_stmts [OF assms] split: option.splits sum.splits intro!: preserves_bind preserves_then loop retry)
qed

lemma files_close: "preserves (files_are s0 F) (hpssix_workdata_close wd)"
  unfolding hpssix_workdata_close_def hpssix_tmpdb_close_def by (auto split: option.splits intro!: preserves_then)

text \<open>The work list of a run: a working SQLite and the objects in the file.\<close>

definition work_ready ::
  "env \<Rightarrow> sqstate \<Rightarrow> extractor_vars \<Rightarrow> hpssix_workdata_object list \<Rightarrow> trace \<Rightarrow> bool" where
  "work_ready E s0 v objs tr \<longleftrightarrow> sqlite_live wd_sem s0 E \<and> sqlite_sound wd_sem s0 E \<and>
     wd_rows_ok (sq_file (sq_replay wd_sem s0 tr) (xdbpath v)) \<and>
     wd_items (sq_file (sq_replay wd_sem s0 tr) (xdbpath v)) = objs"

lemma work_ready_files: "files_are s0 (sq_file (sq_replay wd_sem s0 tr)) tr' \<Longrightarrow>
    work_ready E s0 v objs tr \<Longrightarrow> work_ready E s0 v objs tr'"
  by (simp add: work_ready_def files_are_def)

definition db_up :: "env \<Rightarrow> hpssix_config \<Rightarrow> bool" where
  "db_up E config \<longleftrightarrow> (\<forall>tr. \<exists>c tr'. hpssix_db_connect E (Some \<lparr>dbconn = None\<rparr>) config tr
     = (Ret (0, Some \<lparr>dbconn = Some c\<rparr>), tr'))"

lemma keeps_open_dispatch [keeps_intros]:
  "keeps stat_see (hpssix_workdata_open E wd name)" "keeps stat_see (hpssix_workdata_dispatch E wd l)"
  "keeps stat_see (hpssix_workdata_close wd)"
proof -
  have prep: "keeps stat_see (prepare_loop E c k sqls acc)" for c k sqls acc
    by (induction E c k sqls acc rule: prepare_loop.induct) (auto intro!: keeps_intros)
  have exec: "keeps stat_see (hpssix_tmpdb_exec_simple_sql E db sql)" for db sql
    unfolding hpssix_tmpdb_exec_simple_sql_def by (intro keeps_intros keeps_stat_prims)
  show "keeps stat_see (hpssix_workdata_open E wd name)"
    unfolding hpssix_workdata_open_def hpssix_workdata_open_mode_def hpssix_config_read_sysconf_def
      hpssix_tmpdb_open_def tmpdb_prepare_stmt_def Let_def
    by (auto split: option.splits prod.splits
        intro!: keeps_intros prep exec keeps_silent [OF silent_read_sections])
  have loop: "keeps stat_see (dispatch_loop E st k acc)" for st k acc
    by (induction k arbitrary: acc) (auto simp: Let_def intro!: keeps_intros)
  have retry: "keeps stat_see (step_retry k E st)" for k st
    by (induction k) (auto intro!: keeps_intros)
  show "keeps stat_see (hpssix_workdata_dispatch E wd l)"
    unfolding hpssix_workdata_dispatch_def Let_def
    by (auto split: option.splits intro!: keeps_intros loop retry)
  show "keeps stat_see (hpssix_workdata_close wd)"
    unfolding hpssix_workdata_close_def hpssix_tmpdb_close_def by (intro keeps_intros keeps_stat_prims)
qed

lemma keeps_connect [keeps_intros]:
  "keeps stat_see (hpssix_db_connect E d cfg)" "keeps sq_see (hpssix_db_connect E d cfg)"
  "keeps stat_see (hpssix_db_disconnect d)" "keeps sq_see (hpssix_db_disconnect d)"
  unfolding hpssix_db_connect_def hpssix_db_disconnect_def
  by (intro keeps_intros keeps_stat_prims keeps_sq_prims)+

lemma work_ready_keeps:
  assumes "keeps sq_see m" and "m tr = (r, tr')" and "work_ready E s0 v objs tr"
  shows "work_ready E s0 v objs tr'"
  using assms(3) keeps_replay [OF assms(1,2)] by (simp add: work_ready_def)

text \<open>A list is opened, read by \<open>m\<close> and closed again, and is what it was.\<close>

lemma work_list_session:
  assumes ready: "work_ready E s0 v objs tr"
    and op: "hpssix_workdata_open E (Some workdata_zero) (Some (xdbpath v)) tr = (Ret (0, Some wd), tr1)"
    and m: "\<And>F. preserves (files_are s0 F) m" "keeps stat_see m" "m tr1 = (Ret x, tr2)"
  obtains tr3 where "hpssix_workdata_close (Some wd) tr2 = (Ret 0, tr3)"
    "work_ready E s0 v objs tr3" "obs stat_see tr3 = obs stat_see tr"
proof -
  obtain tr3 where close: "hpssix_workdata_close (Some wd) tr2 = (Ret 0, tr3)"
    by (cases "tmpdb_conn (wd_tmpdb wd)")
      (simp_all add: hpssix_workdata_close_def hpssix_tmpdb_close_def then_io_apply sqlite3_close_def)
  let ?I = "files_are s0 (sq_file (sq_replay wd_sem s0 tr))"
  have "?I tr" by (simp add: files_are_def)
  then have "?I tr1" by (rule preservesD [OF files_open]) (rule op)
  then have "?I tr2" by (rule preservesD [OF m(1)]) (rule m(3))
  then have "?I tr3" by (rule preservesD [OF files_close]) (rule close)
  then have "work_ready E s0 v objs tr3" using ready by (rule work_ready_files)
  moreover have "obs stat_see tr3 = obs stat_see tr"
    using keepsD [OF keeps_open_dispatch(1) op] keepsD [OF m(2,3)] keepsD [OF keeps_open_dispatch(3) close]
    by simp
  ultimately show thesis using that close by blast
qed

text \<open>The first half of a thread: its part of the list is fetched and the list closed again.\<close>

lemma worker_fetches:
  assumes ready: "work_ready E s0 v objs tr" and small: "unat off < 2 ^ 63" "unat cnt < 2 ^ 63"
    and part: "part = slice (unat off) (unat cnt) objs"
  obtains wd tr1 tr2 tr3 where
    "hpssix_workdata_open E (Some workdata_zero) (Some (xdbpath v)) tr = (Ret (0, Some wd), tr1)"
    "hpssix_workdata_dispatch E (Some wd) (Some \<lparr>wl_offset = off, wl_count = cnt, wl_objects = None\<rparr>) tr1
      = (Ret (if part = [] then (EIO, Some \<lparr>wl_offset = off, wl_count = cnt, wl_objects = None\<rparr>)
              else (0, Some \<lparr>wl_offset = off, wl_count = of_nat (length part), wl_objects = Some part\<rparr>)), tr2)"
    "hpssix_workdata_close (Some wd) tr2 = (Ret 0, tr3)"
    "work_ready E s0 v objs tr3" "obs stat_see tr3 = obs stat_see tr"
proof -
  obtain wd c tr1 where op: "hpssix_workdata_open E (Some workdata_zero) (Some (xdbpath v)) tr
      = (Ret (0, Some wd), tr1)" "wd_queue E s0 wd c tr1 objs"
    using workdata_open_queue [of s0 E tr "xdbpath v"] ready unfolding work_ready_def by blast
  let ?wl = "\<lparr>wl_offset = off, wl_count = cnt, wl_objects = None\<rparr>"
  obtain tr2 where disp: "hpssix_workdata_dispatch E (Some wd) (Some ?wl) tr1
      = (Ret (if part = [] then (EIO, Some ?wl)
              else (0, Some \<lparr>wl_offset = off, wl_count = of_nat (length part), wl_objects = Some part\<rparr>)), tr2)"
    using wd_queue_dispatch [OF op(2), of ?wl] small unfolding wd_slice_def part by auto
  have rd: "wd_ready wd c" using op(2) by (simp add: wd_queue_def Let_def)
  obtain tr3 where "hpssix_workdata_close (Some wd) tr2 = (Ret 0, tr3)"
    "work_ready E s0 v objs tr3" "obs stat_see tr3 = obs stat_see tr"
    using work_list_session [OF ready op(1) files_dispatch [OF rd] keeps_open_dispatch(2) disp] by blast
  then show thesis using that op(1) disp by blast
qed

text \<open>
  The body of a thread: it returns, has tried exactly its part of the list, in
  order, and leaves the list as it is.
\<close>

lemma worker_tries:
  assumes ready: "work_ready E s0 v objs tr" and up: "db_up E (xconfig v)" and quiet: "\<not> verbose v"
    and fits: "\<forall>x\<in>set objs. length (file_of v x) < PATH_MAX"
    and len: "length objs = unat (total_objects v)" "length objs < 2 ^ 63" and i: "i < unat (nthreads v)"
  shows "\<exists>n' tr'. extractor_worker_func E v (of_nat i) n tr = (Ret n', tr') \<and>
     obs stat_see tr' = obs stat_see tr @ map (file_of v)
       (slice (fst (thread_part (total_objects v) (nthreads v) i))
              (snd (thread_part (total_objects v) (nthreads v) i)) objs) \<and>
     work_ready E s0 v objs tr'"
proof -
  obtain off cnt where alloc: "get_work_allocation (total_objects v) (nthreads v) (of_nat i) = Some (off, cnt)"
    using i by (cases "nthreads v = 0") (auto simp: get_work_allocation_def Let_def)
  define part where "part = slice (unat off) (unat cnt) objs"
  have tp: "thread_part (total_objects v) (nthreads v) i = (unat off, unat cnt)"
    by (simp add: thread_part_def alloc)
  have "unat off + unat cnt \<le> length objs"
    using threads.part_within [OF i, of "total_objects v"] tp len(1) by simp
  then have small: "unat off < 2 ^ 63" "unat cnt < 2 ^ 63" using len(2) by linarith+
  obtain wd tr1 tr2 tr3 where fetch:
    "hpssix_workdata_open E (Some workdata_zero) (Some (xdbpath v)) tr = (Ret (0, Some wd), tr1)"
    "hpssix_workdata_dispatch E (Some wd) (Some \<lparr>wl_offset = off, wl_count = cnt, wl_objects = None\<rparr>) tr1
      = (Ret (if part = [] then (EIO, Some \<lparr>wl_offset = off, wl_count = cnt, wl_objects = None\<rparr>)
              else (0, Some \<lparr>wl_offset = off, wl_count = of_nat (length part), wl_objects = Some part\<rparr>)), tr2)"
    "hpssix_workdata_close (Some wd) tr2 = (Ret 0, tr3)"
    "work_ready E s0 v objs tr3" "obs stat_see tr3 = obs stat_see tr"
    using worker_fetches [OF ready small part_def] .
  note start = extractor_worker_func_def alloc quiet fetch(1-3) bind_io_Ret then_io_Ret
  show ?thesis
  proof (cases "part = []")
    case True
    then have "extractor_worker_func E v (of_nat i) n tr = (Ret n, tr3)"
      by (simp add: start)
    then show ?thesis
      using fetch(4,5) True by (simp add: tp part_def)
  next
    case False
    obtain k tr4 where con: "hpssix_db_connect E (Some \<lparr>dbconn = None\<rparr>) (xconfig v) tr3
        = (Ret (0, Some \<lparr>dbconn = Some k\<rparr>), tr4)"
      using up unfolding db_up_def by blast
    have "\<forall>x\<in>set part. length (file_of v x) < PATH_MAX"
      using fits set_slice [of "unat off" "unat cnt" objs] by (auto simp: part_def)
    then obtain n' tr5 where all: "extract_all E v \<lparr>dbconn = Some k\<rparr> (of_nat i) (of_nat (length part)) 0 part n tr4
        = (Ret n', tr5)" "obs stat_see tr5 = obs stat_see tr4 @ map (file_of v) part"
      using extract_all_tries [OF quiet] by blast
    have disc: "hpssix_db_disconnect (Some \<lparr>dbconn = Some k\<rparr>) tr5 = (Ret 0, EvPqFinish k # tr5)"
      by (simp add: hpssix_db_disconnect_def then_io_apply PQfinish_def)
    have "extractor_worker_func E v (of_nat i) n tr = (Ret n', EvPqFinish k # tr5)"
      using False con all(1) disc by (simp add: start)
    moreover have "work_ready E s0 v objs (EvPqFinish k # tr5)"
      using work_ready_keeps [OF keeps_connect(2) con fetch(4)]
      by (intro work_ready_keeps [OF keeps_connect(4) disc] work_ready_keeps [OF keeps_sq_extract_all all(1)])
    ultimately show ?thesis
      using all(2) keepsD [OF keeps_connect(1) con] fetch(5) by (simp add: tp part_def stat_see_def)
  qed
qed

section \<open>All threads\<close>

definition thread_objects ::
  "extractor_vars \<Rightarrow> hpssix_workdata_object list \<Rightarrow> nat \<Rightarrow> hpssix_workdata_object list" where
  "thread_objects v objs i = slice (fst (thread_part (total_objects v) (nthreads v) i))
     (snd (thread_part (total_objects v) (nthreads v) i)) objs"

lemma run_workers_try:
  assumes "work_ready E s0 v objs tr" and "db_up E (xconfig v)" and "\<not> verbose v"
    and "\<forall>x\<in>set objs. length (file_of v x) < PATH_MAX"
    and "length objs = unat (total_objects v)" "length objs < 2 ^ 63" and "\<forall>i\<in>set js. i < unat (nthreads v)"
  shows "\<exists>n' tr'. run_workers E v js n tr = (Ret n', tr') \<and>
     obs stat_see tr' = obs stat_see tr @ map (file_of v) (concat (map (thread_objects v objs) js))"
  using assms
proof (induction js arbitrary: n tr)
  case (Cons i js)
  obtain n1 tr1 where "extractor_worker_func E v (of_nat i) n tr = (Ret n1, tr1)"
    "obs stat_see tr1 = obs stat_see tr @ map (file_of v) (thread_objects v objs i)"
    "work_ready E s0 v objs tr1"
    using worker_tries [OF Cons.prems(1-6), of i n] Cons.prems(7) unfolding thread_objects_def by auto
  then show ?case
    using Cons.IH [OF _ Cons.prems(2-6), of tr1 n1] Cons.prems(7) by (auto simp: bind_io_Ret)
qed simp

lemma mset_concat_map: "mset (concat (map f js)) = \<Sum>\<^sub># (image_mset (\<lambda>i. mset (f i)) (mset js))"
  by (induction js) simp_all

text \<open>
  Every object of the list is tried exactly once.  With a working SQLite and a
  database that accepts connections, for every order in which the threads run,
  whatever the file system, the Tika server and the database answer to the single
  files, a run without the verbose option returns, and the files looked at are the
  files of the list, each as often as it is in the list.
\<close>

lemma extractor_tries_every_object:
  assumes ready: "work_ready E s0 v objs tr" and up: "db_up E (xconfig v)" and quiet: "\<not> verbose v"
    and fits: "\<forall>x\<in>set objs. length (file_of v x) < PATH_MAX"
    and len: "length objs = unat (total_objects v)" "length objs < 2 ^ 63"
    and order: "nthreads v \<noteq> 0" "mset js = mset [0..<unat (nthreads v)]"
  shows "\<exists>n' tr'. run_workers E v js 0 tr = (Ret n', tr') \<and>
     (\<exists>tried. obs stat_see tr' = obs stat_see tr @ tried \<and> mset tried = mset (map (file_of v) objs))"
proof -
  have "set js = {0..<unat (nthreads v)}"
    using mset_eq_setD [OF order(2)] by simp
  then obtain n' tr' where run: "run_workers E v js 0 tr = (Ret n', tr')"
    "obs stat_see tr' = obs stat_see tr @ map (file_of v) (concat (map (thread_objects v objs) js))"
    using run_workers_try [OF assms(1-6), of js 0] by auto
  have "mset (concat (map (thread_objects v objs) js))
      = mset (concat (map (thread_objects v objs) [0..<unat (nthreads v)]))"
    unfolding mset_concat_map order(2) ..
  also have "\<dots> = mset objs"
    using threads.parts_cover [OF order(1) len(1)] by (simp add: thread_objects_def [abs_def])
  finally show ?thesis
    using run by (auto simp: mset_map)
qed

definition sample_objects :: "hpssix_workdata_object list" where
  "sample_objects = [\<lparr>object_id = 4, obj_path = ''/a''\<rparr>, \<lparr>object_id = 9, obj_path = ''/b''\<rparr>,
     \<lparr>object_id = 2, obj_path = ''/c''\<rparr>]"

definition sample_list :: sqstate where
  "sample_list = sq_empty\<lparr>sq_file := \<lambda>_. [[SInt 1, SInt 4, SText ''/a''], [SInt 2, SInt 9, SText ''/b''],
     [SInt 3, SInt 2, SText ''/c'']]\<rparr>"

definition sample_vars :: extractor_vars where
  "sample_vars = \<lparr>nthreads = 2, total_objects = 3, xconfig = config_zero\<lparr>hpss_mountpoint := Some ''/hpss''\<rparr>,
     xdbpath = ''/d/builder.7.db'', verbose = False\<rparr>"

definition sample_x_env :: env where
  "sample_x_env = ref_sqlite wd_sem sample_list quiet_env"

lemma sample_work_ready: "work_ready sample_x_env sample_list sample_vars sample_objects []"
  unfolding work_ready_def sample_x_env_def
  by (simp add: ref_sqlite_live ref_sqlite_sound wd_rows_ok_def wd_row_ok_def wd_items_def fetched_def
      sample_list_def sample_objects_def)

lemma sample_db_up: "db_up sample_x_env (xconfig sample_vars)"
proof -
  have "printf ''postgresql://%s:%s@%s:%d/%s'' [PStr None, PStr None, PStr None, PInt 0, PStr None]
      = Some ''postgresql://(null):(null)@(null):0/(null)''"
    by code_simp
  then show ?thesis
    by (simp add: db_up_def hpssix_db_connect_def sample_vars_def config_zero_def sprintf_buf_def
        PQconnectdb_def bind_io_apply sample_x_env_def ref_sqlite_def quiet_env_def)
qed

section \<open>Counting\<close>

text \<open>The commands the server has accepted; a run sends no others than the document inserts.\<close>

definition doc_see :: "event \<Rightarrow> string list" where
  "doc_see ev = (case ev of
     EvPqExec _ cmd res \<Rightarrow> if res_status res = PGRES_COMMAND_OK then [cmd] else [] | _ \<Rightarrow> [])"

interpretation doc: local_observer doc_see
proof (unfold_locales, goal_cases)
  case (1 ev)
  then show ?case by (cases ev) (simp_all add: doc_see_def)
qed

lemma keeps_doc_prims [simp, keeps_intros]:
  "keeps doc_see (c_sys E nm)" "keeps doc_see (curl_put E url acc p)" "keeps doc_see (PQconnectdb E uri)"
  "keeps doc_see (PQfinish k)"
  by (auto simp: keeps_def prim_defs doc_see_def split: prod.splits)

lemma keeps_doc_extract [keeps_intros]:
  "keeps doc_see (extract_file E v i data)" "keeps doc_see (hpssix_db_connect E d cfg)"
  "keeps doc_see (hpssix_db_disconnect d)"
  unfolding extract_defs hpssix_db_connect_def hpssix_db_disconnect_def
  by (intro keeps_intros keeps_doc_prims doc.keeps_prims)+

text \<open>A program that gives the new counter, and counts what the server accepted.\<close>

definition counts :: "('a \<Rightarrow> u64) \<Rightarrow> u64 \<Rightarrow> 'a io \<Rightarrow> bool" where
  "counts f n m \<longleftrightarrow> (\<forall>tr x tr'. m tr = (Ret x, tr') \<longrightarrow>
     (\<exists>docs. obs doc_see tr' = obs doc_see tr @ docs \<and> f x = n + of_nat (length docs)))"

lemma counts_return: "f x = n \<Longrightarrow> counts f n (return_io x)"
  by (auto simp: counts_def)

lemma counts_bind:
  assumes "counts f n m" and "\<And>x. counts g (f x) (k x)"
  shows "counts g n (bind_io m k)"
  unfolding counts_def
proof (intro allI impI)
  fix tr y tr2
  assume "bind_io m k tr = (Ret y, tr2)"
  then obtain x tr1 where 1: "m tr = (Ret x, tr1)" and 2: "k x tr1 = (Ret y, tr2)"
    by (auto simp: bind_io_eq_Ret_iff)
  obtain d1 where d1: "obs doc_see tr1 = obs doc_see tr @ d1" "f x = n + of_nat (length d1)"
    using assms(1) 1 unfolding counts_def by blast
  obtain d2 where "obs doc_see tr2 = obs doc_see tr1 @ d2" "g y = f x + of_nat (length d2)"
    using assms(2) 2 unfolding counts_def by blast
  with d1 show "\<exists>docs. obs doc_see tr2 = obs doc_see tr @ docs \<and> g y = n + of_nat (length docs)"
    by (intro exI [of _ "d1 @ d2"]) (simp add: add.assoc)
qed

lemma counts_after:
  assumes "keeps doc_see m" and "\<And>x. counts f n (k x)"
  shows "counts f n (bind_io m k)"
proof (rule counts_bind)
  show "counts (\<lambda>_. n) n m" using keepsD [OF assms(1)] by (auto simp: counts_def)
qed (rule assms(2))

lemma counts_after_then: "keeps doc_see m \<Longrightarrow> counts f n k \<Longrightarrow> counts f n (then_io m k)"
  by (simp add: then_io_def counts_after)

lemma counts_cases:
  "counts f n m \<Longrightarrow> counts f n k \<Longrightarrow> counts f n (if b then m else k)"
  "counts f n m \<Longrightarrow> (\<And>x. counts f n (h x)) \<Longrightarrow> counts f n (case v of None \<Rightarrow> m | Some x \<Rightarrow> h x)"
  "(\<And>x. counts f n (p x)) \<Longrightarrow> (\<And>y. counts f n (q y)) \<Longrightarrow> counts f n (case s of Inl x \<Rightarrow> p x | Inr y \<Rightarrow> q y)"
  "(\<And>x y. counts f n (h2 x y)) \<Longrightarrow> counts f n (case t of (x, y) \<Rightarrow> h2 x y)"
  by (auto split: option.splits sum.splits prod.splits)

lemmas counts_intros = counts_return counts_after counts_after_then counts_cases

lemma counts_index_tsv:
  "counts snd n (bind_io (hpssix_db_index_tsv E db oid meta txt)
     (\<lambda>ret. return_io (ret, if ret \<noteq> 0 then n else n + 1)))"
  unfolding counts_def hpssix_db_index_tsv_def hpssix_db_psql_query_def
  by (auto simp: bind_io_eq_Ret_iff lift_io_def alloc_def PQexec_def doc_see_def null_result_def
      split: option.splits if_splits)

lemma counts_index_file: "counts snd n (index_file E v obj db i ret data n)"
  unfolding index_file_def
  by (intro counts_intros counts_index_tsv keeps_intros doc.keeps_prims) simp

lemma counts_extract: "counts snd n (do_extract E v obj db i n)"
  unfolding do_extract_def extract_statted_def
  by (intro counts_intros counts_index_file keeps_intros keeps_doc_prims doc.keeps_prims) simp_all

lemma counts_extract_all: "counts (\<lambda>n. n) n (extract_all E v db i m k objs n)"
proof (induction objs arbitrary: k n)
  case (Cons x objs)
  have "counts (\<lambda>n. n) (snd p) (case p of (_, n') \<Rightarrow> extract_all E v db i m (k + 1) objs n')" for p
    using Cons.IH [of "snd p" "k + 1"] by (cases p) simp
  then show ?case
    unfolding extract_all.simps
    by (intro counts_after_then counts_bind [OF counts_extract] keeps_intros doc.keeps_prims)
qed (simp add: counts_return del: return_io_apply)

lemma counts_worker: "counts (\<lambda>n. n) n (extractor_worker_func E v i n)"
proof -
  have tail: "counts (\<lambda>n. n) n' (then_io (hpssix_db_disconnect d) (return_io n'))" for n' d
    by (intro counts_intros keeps_intros) simp
  show ?thesis
    unfolding extractor_worker_func_def
    by (intro counts_intros keeps_intros keeps_doc_prims doc.keeps_prims doc.keeps_workdata_read
        counts_bind [OF counts_extract_all] tail) simp_all
qed

lemma counts_workers: "counts (\<lambda>n. n) n (run_workers E v js n)"
proof (induction js arbitrary: n)
  case (Cons j js)
  show ?case
    unfolding run_workers.simps by (rule counts_bind [OF counts_worker]) (rule Cons.IH)
qed (simp add: counts_return del: return_io_apply)



section \<open>The shared counter\<close>

text \<open>
  When threads really overlap, \<open>n_extracted++\<close> is a load and a store with no lock.  A
  thread has \<open>todo\<close> increments left and, between load and store, the value it read.
\<close>

record inc_thread =
  todo :: nat
  reg :: "nat option"

record inc_state =
  counter :: nat
  inc_threads :: "inc_thread list"

definition inc_start :: "nat list \<Rightarrow> inc_state" where
  "inc_start ks = \<lparr>counter = 0, inc_threads = map (\<lambda>k. \<lparr>todo = k, reg = None\<rparr>) ks\<rparr>"

inductive inc_step :: "inc_state \<Rightarrow> inc_state \<Rightarrow> bool" where
  Load: "inc_threads s ! i = \<lparr>todo = Suc k, reg = None\<rparr> \<Longrightarrow> i < length (inc_threads s) \<Longrightarrow>
    inc_step s (s\<lparr>inc_threads := (inc_threads s)[i := \<lparr>todo = Suc k, reg = Some (counter s)\<rparr>]\<rparr>)"
| Store: "inc_threads s ! i = \<lparr>todo = Suc k, reg = Some r\<rparr> \<Longrightarrow> i < length (inc_threads s) \<Longrightarrow>
    inc_step s (s\<lparr>counter := Suc r, inc_threads := (inc_threads s)[i := \<lparr>todo = k, reg = None\<rparr>]\<rparr>)"

definition inc_left :: "inc_state \<Rightarrow> nat" where
  "inc_left s = sum_list (map todo (inc_threads s))"

text \<open>Neither the counter nor a value some thread holds is ahead of the increments done.\<close>

definition inc_inv :: "nat \<Rightarrow> inc_state \<Rightarrow> bool" where
  "inc_inv N s \<longleftrightarrow> counter s + inc_left s \<le> N \<and>
     (\<forall>t\<in>set (inc_threads s). \<forall>r. reg t = Some r \<longrightarrow> r + inc_left s \<le> N)"

lemma sum_list_todo_update:
  "i < length ts \<Longrightarrow> sum_list (map todo (ts[i := t])) + todo (ts ! i) = sum_list (map todo ts) + todo t"
  by (induction ts arbitrary: i) (auto split: nat.splits)

lemma inc_step_inv: "inc_step s s' \<Longrightarrow> inc_inv N s \<Longrightarrow> inc_inv N s'"
proof (induction rule: inc_step.induct)
  case (Load s i k)
  then have "inc_left (s\<lparr>inc_threads := (inc_threads s)[i := \<lparr>todo = Suc k, reg = Some (counter s)\<rparr>]\<rparr>) = inc_left s"
    using sum_list_todo_update [of i "inc_threads s" "\<lparr>todo = Suc k, reg = Some (counter s)\<rparr>"]
    by (simp add: inc_left_def)
  with Load.prems show ?case
    by (auto simp: inc_inv_def dest!: set_update_subset_insert [THEN subsetD])
next
  case (Store s i k r)
  then have left: "inc_left (s\<lparr>counter := Suc r, inc_threads := (inc_threads s)[i := \<lparr>todo = k, reg = None\<rparr>]\<rparr>) + 1
      = inc_left s"
    using sum_list_todo_update [of i "inc_threads s" "\<lparr>todo = k, reg = None\<rparr>"] by (simp add: inc_left_def)
  have "r + inc_left s \<le> N"
    using Store nth_mem [OF Store.hyps(2)] by (auto simp: inc_inv_def)
  with Store.prems left show ?case
    by (fastforce simp: inc_inv_def dest!: set_update_subset_insert [THEN subsetD])
qed



end
