(* ===== verification/Hpssix_Services.thy ===== *)
theory Hpssix_Services
  imports Hpssix_Daemon Hpssix_Extractor_Run
begin

text \<open>
  The builder and the extractor daemon (hpssixd-builder.c, hpssixd-extractor.c): a
  service that runs one task at a time by starting the program and reading the
  numbers it prints, and the signal loop around it.  The state of a service is its
  two static variables: the id of the last task and the result.
\<close>

section \<open>Running the programs\<close>

record worker_service =
  current_task :: u64
  run_result :: int

definition builder_exe :: "env \<Rightarrow> string" where
  "builder_exe E = env_libexecdir E @ ''/hpssix-builder''"

definition extractor_exe :: "env \<Rightarrow> string" where
  "extractor_exe E = env_libexecdir E @ ''/hpssix-extractor''"

text \<open>
  From \<open>popen\<close> on, the same in both files: the lines are echoed and read, and unless
  reading failed \<open>*result\<close> becomes the first number, cut to an int.  The exit status
  of the program is not looked at.
\<close>

definition run_program :: "env \<Rightarrow> string \<Rightarrow> string list \<Rightarrow> int \<Rightarrow> (int \<times> int) io" where
  "run_program E cmd keys result =
     bind_io (c_popen E cmd) (\<lambda>r. case r of
       Inl e \<Rightarrow> return_io (if e \<noteq> 0 then e else ENOMEM, result)
     | Inr (text, ferr, status) \<Rightarrow>
         bind_io (read_output (fgets_lines (LINE_MAX - 1) text) (map (\<lambda>k. (k, 0)) keys)) (\<lambda>kvs.
         then_io (c_pclose status)
           (return_io (0, if ferr \<noteq> 0 then result else int32 (snd (hd kvs))))))"

definition svc_do_builder :: "env \<Rightarrow> u64 \<Rightarrow> int \<Rightarrow> (int \<times> int) io" where
  "svc_do_builder E task_id result =
     bind_io (hpssix_get_datadir_today E (Some (of_nat PATH_MAX))) (\<lambda>(ret, datadir).
     if ret \<noteq> 0 then return_io (ret, result)
     else bind_io (lift_io (sprintf_buf LINE_MAX ''%s %s %lu''
            [PStr (Some (builder_exe E)), PStr (Some datadir), PInt task_id])) (\<lambda>cmd.
       run_program E cmd [''## files indexed'', ''## regular files''] result))"

definition svc_do_extractor :: "env \<Rightarrow> hpssix_config \<Rightarrow> u64 \<Rightarrow> int \<Rightarrow> (int \<times> int) io" where
  "svc_do_extractor E config task_id result =
     bind_io (hpssix_get_datadir_today E (Some (of_nat PATH_MAX))) (\<lambda>(ret, datadir).
     if ret \<noteq> 0 then return_io (ret, result)
     else bind_io (lift_io (sprintf_buf (PATH_MAX - length datadir) ''/builder.%lu.db'' [PInt task_id])) (\<lambda>name.
       bind_io (lift_io (sprintf_buf LINE_MAX ''%s --nthreads=%lu %s''
            [PStr (Some (extractor_exe E)), PInt (ucast (extractor_nthreads config)),
             PStr (Some (datadir @ name))])) (\<lambda>cmd.
       run_program E cmd [''## files extracted''] result)))"

section \<open>The services\<close>

definition run_task ::
  "(u64 \<Rightarrow> int \<Rightarrow> (int \<times> int) io) \<Rightarrow> u64 \<Rightarrow> worker_service \<Rightarrow> (int \<times> worker_service) io" where
  "run_task program task_id st =
     (if task_id = current_task st then return_io (run_result st, st)
      else bind_io (program task_id (run_result st)) (\<lambda>(_, result).
        return_io (result, st\<lparr>current_task := task_id, run_result := result\<rparr>)))"

definition builder_run_1_svc :: "env \<Rightarrow> u64 \<Rightarrow> worker_service \<Rightarrow> (int \<times> worker_service) io" where
  "builder_run_1_svc E = run_task (svc_do_builder E)"

definition builder_cleanup :: "env \<Rightarrow> unit io" where
  "builder_cleanup E = then_io (c_sys E ''pthread_kill SIGTERM'') (return_io ())"

definition builder_alive_1_svc :: "u64 \<Rightarrow> worker_service \<Rightarrow> (int \<times> worker_service) io" where
  "builder_alive_1_svc _ st = return_io (0, st)"

definition builder_terminate_1_svc :: "env \<Rightarrow> u64 \<Rightarrow> worker_service \<Rightarrow> (int \<times> worker_service) io" where
  "builder_terminate_1_svc E _ st = then_io (builder_cleanup E) (return_io (0, st))"

definition builder_procs :: "env \<Rightarrow> nat \<Rightarrow> (u64 \<Rightarrow> worker_service \<Rightarrow> (int \<times> worker_service) io) option" where
  "builder_procs E p = (if p = 1 then Some (builder_run_1_svc E)
     else if p = 2 then Some builder_alive_1_svc
     else if p = 3 then Some (builder_terminate_1_svc E) else None)"

definition hpssixd_builder_1 ::
  "env \<Rightarrow> nat \<Rightarrow> u64 option \<Rightarrow> worker_service \<Rightarrow> (rpc_reply \<times> worker_service) io" where
  "hpssixd_builder_1 E = svc_dispatch (builder_procs E)"

definition extractor_run_1_svc ::
  "env \<Rightarrow> hpssix_config \<Rightarrow> u64 \<Rightarrow> worker_service \<Rightarrow> (int \<times> worker_service) io" where
  "extractor_run_1_svc E config = run_task (svc_do_extractor E config)"

definition extractor_cleanup :: "env \<Rightarrow> unit io" where
  "extractor_cleanup E = then_io (c_sys E ''pthread_kill SIGTERM'') (return_io ())"

definition extractor_alive_1_svc :: "u64 \<Rightarrow> worker_service \<Rightarrow> (int \<times> worker_service) io" where
  "extractor_alive_1_svc _ st = return_io (0, st)"

definition extractor_terminate_1_svc :: "env \<Rightarrow> u64 \<Rightarrow> worker_service \<Rightarrow> (int \<times> worker_service) io" where
  "extractor_terminate_1_svc E _ st = then_io (extractor_cleanup E) (return_io (0, st))"

definition extractor_procs ::
  "env \<Rightarrow> hpssix_config \<Rightarrow> nat \<Rightarrow> (u64 \<Rightarrow> worker_service \<Rightarrow> (int \<times> worker_service) io) option" where
  "extractor_procs E config p = (if p = 1 then Some (extractor_run_1_svc E config)
     else if p = 2 then Some extractor_alive_1_svc
     else if p = 3 then Some (extractor_terminate_1_svc E) else None)"

definition hpssixd_extractor_1 ::
  "env \<Rightarrow> hpssix_config \<Rightarrow> nat \<Rightarrow> u64 option \<Rightarrow> worker_service \<Rightarrow> (rpc_reply \<times> worker_service) io" where
  "hpssixd_extractor_1 E config = svc_dispatch (extractor_procs E config)"

section \<open>Daemons\<close>

text \<open>
  The control thread of the program named \<open>prg\<close> registers its service for both
  transports; any failure ends the process.
\<close>

definition svc_calls :: "string \<Rightarrow> string list" where
  "svc_calls prg = [''svcudp_create'', ''svc_register udp '' @ prg, ''svctcp_create'', ''svc_register tcp '' @ prg]"

definition svc_control :: "env \<Rightarrow> string \<Rightarrow> int io" where
  "svc_control E prg =
     then_io (c_sys E (''pmap_unset '' @ prg))
     (try_io (for_each (c_sys E) (svc_calls prg)) (\<lambda>_. exit_io 1)
       (then_io (c_sys E ''svc_run'') (return_io 0)))"

definition builder_control :: "env \<Rightarrow> int io" where
  "builder_control E = svc_control E ''HPSSIXD_BUILDER''"

definition extractor_control :: "env \<Rightarrow> int io" where
  "extractor_control E = svc_control E ''HPSSIXD_EXTRACTOR''"

text \<open>
  The signal loop of a worker daemon, for at most \<open>k\<close> signals; \<open>ret\<close> of the last
  \<open>sigwait\<close> is returned.
\<close>

fun worker_loop :: "nat \<Rightarrow> env \<Rightarrow> unit io \<Rightarrow> int io" where
  "worker_loop 0 E cleanup = spin_io"
| "worker_loop (Suc k) E cleanup =
     bind_io (c_sigwait E) (\<lambda>(ret, signum).
     if signum = SIGTERM then then_io cleanup (then_io (c_sys E ''pthread_join'') (return_io ret))
     else worker_loop k E cleanup)"

definition worker_signals :: "int set" where
  "worker_signals = {SIGUSR1, SIGUSR2, SIGALRM, SIGHUP}"

definition worker_daemon :: "env \<Rightarrow> hpssixd_daemon_data \<Rightarrow> int \<Rightarrow> unit io \<Rightarrow> int io" where
  "worker_daemon E data ident cleanup =
     try_io (c_sys E ''pthread_sigmask'') return_io
     (try_io (c_sys E ''pthread_create'') return_io
     (try_io (connect_scanner E (scanner_host (dd_config data)) ident) return_io
       (worker_loop (env_fuel E) E cleanup)))"

definition hpssixd_daemon_builder :: "env \<Rightarrow> hpssixd_daemon_data \<Rightarrow> int io" where
  "hpssixd_daemon_builder E data = worker_daemon E data HPSSIXD_ID_BUILDER (builder_cleanup E)"

definition hpssixd_daemon_extractor :: "env \<Rightarrow> hpssixd_daemon_data \<Rightarrow> int io" where
  "hpssixd_daemon_extractor E data = worker_daemon E data HPSSIXD_ID_EXTRACTOR (extractor_cleanup E)"

section \<open>A task is run once\<close>

text \<open>The contract of a task service: it answers a repeated task from memory and remembers its last task.\<close>

locale task_service =
  fixes svc :: "u64 \<Rightarrow> 's \<Rightarrow> (int \<times> 's) io" and task_of :: "'s \<Rightarrow> u64" and result_of :: "'s \<Rightarrow> int"
  assumes same_law: "task_of st = t \<Longrightarrow> svc t st tr = (Ret (result_of st, st), tr)"
    and new_law: "svc t st tr = (Ret (r, st'), tr') \<Longrightarrow> task_of st' = t \<and> result_of st' = r"
begin

lemma repeat_law:
  assumes "svc t st tr = (Ret (r, st'), tr')"
  shows "svc t st' tr' = (Ret (r, st'), tr')"
  using new_law [OF assms] same_law by simp

lemma dispatch_repeat:
  assumes procs: "procs p = Some svc" "p \<noteq> 0"
    and run: "svc_dispatch procs p (Some t) st tr = (Ret (reply, st'), tr')"
  shows "svc_dispatch procs p (Some t) st' tr' = (Ret (reply, st'), tr')"
proof -
  obtain r where "svc t st tr = (Ret (r, st'), tr')" "reply = ReplyInt r"
    using run procs by (auto simp: svc_dispatch_def bind_io_eq_Ret_iff)
  then show ?thesis
    using repeat_law procs by (simp add: svc_dispatch_def bind_io_Ret)
qed

end

lemma run_task_laws:
  "current_task st = t \<Longrightarrow> run_task program t st tr = (Ret (run_result st, st), tr)"
  "run_task program t st tr = (Ret (r, st'), tr') \<Longrightarrow> current_task st' = t \<and> run_result st' = r"
  by (auto simp: run_task_def bind_io_eq_Ret_iff split: if_splits)

interpretation builder_svc: task_service "builder_run_1_svc E" current_task run_result for E
  by unfold_locales (unfold builder_run_1_svc_def, (erule run_task_laws)+)

interpretation extractor_svc: task_service "extractor_run_1_svc E config" current_task run_result for E config
  by unfold_locales (unfold extractor_run_1_svc_def, (erule run_task_laws)+)

text \<open>
  C26: a repeated request changes nothing.  When a run request for a task has been
  answered, asking again for the same task gives the same answer, leaves the
  service as it is and starts no program, for the builder and the extractor.
\<close>

theorem run_request_idempotent:
  assumes "hpssixd_builder_1 E 1 (Some t) st tr = (Ret (reply, st'), tr')"
    and "hpssixd_extractor_1 E config 1 (Some u) xst xtr = (Ret (xreply, xst'), xtr')"
  shows "hpssixd_builder_1 E 1 (Some t) st' tr' = (Ret (reply, st'), tr') \<and>
     hpssixd_extractor_1 E config 1 (Some u) xst' xtr' = (Ret (xreply, xst'), xtr')"
proof
  show "hpssixd_builder_1 E 1 (Some t) st' tr' = (Ret (reply, st'), tr')"
    using assms(1) unfolding hpssixd_builder_1_def
    by (rule builder_svc.dispatch_repeat [rotated 2]) (simp_all add: builder_procs_def)
  show "hpssixd_extractor_1 E config 1 (Some u) xst' xtr' = (Ret (xreply, xst'), xtr')"
    using assms(2) unfolding hpssixd_extractor_1_def
    by (rule extractor_svc.dispatch_repeat [rotated 2]) (simp_all add: extractor_procs_def)
qed

definition sample_service :: worker_service where
  "sample_service = \<lparr>current_task = 4, run_result = 9\<rparr>"

text \<open>A day whose directory cannot be looked at: the program is not started.\<close>

definition blind_env :: env where
  "blind_env = sample_env\<lparr>env_stat := \<lambda>_ _. Inl EIO\<rparr>"

lemma sample_runs:
  "fst (hpssixd_builder_1 blind_env 1 (Some 5) sample_service [])
     = Ret (ReplyInt 9, \<lparr>current_task = 5, run_result = 9\<rparr>)"
  "fst (hpssixd_extractor_1 blind_env config_zero 1 (Some 4) sample_service [])
     = Ret (ReplyInt 9, sample_service)"
  using sample_day_valid
  by (simp_all add: hpssixd_builder_1_def hpssixd_extractor_1_def svc_dispatch_def builder_procs_def
      extractor_procs_def builder_run_1_svc_def extractor_run_1_svc_def run_task_def svc_do_builder_def
      hpssix_get_datadir_today_def hpssix_get_work_root_def bind_io_apply dirname_today_def c_time_def
      dirname_of_eq c_stat_def blind_env_def sample_env_def quiet_env_def sample_service_def)

theorem run_request_idempotent_witness:
  "\<exists>tr'. hpssixd_builder_1 blind_env 1 (Some 5) sample_service []
        = (Ret (ReplyInt 9, \<lparr>current_task = 5, run_result = 9\<rparr>), tr') \<and>
     hpssixd_builder_1 blind_env 1 (Some 5) \<lparr>current_task = 5, run_result = 9\<rparr> tr'
        = (Ret (ReplyInt 9, \<lparr>current_task = 5, run_result = 9\<rparr>), tr')"
proof -
  obtain tr' xtr' where "hpssixd_builder_1 blind_env 1 (Some 5) sample_service []
      = (Ret (ReplyInt 9, \<lparr>current_task = 5, run_result = 9\<rparr>), tr')"
    "hpssixd_extractor_1 blind_env config_zero 1 (Some 4) sample_service [] = (Ret (ReplyInt 9, sample_service), xtr')"
    using sample_runs by (metis prod.collapse)
  then show ?thesis using run_request_idempotent by blast
qed

section \<open>The numbers come back\<close>

lemma int32_unat:
  assumes "unat n < 2 ^ 31"
  shows "int32 n = int (unat n)"
proof -
  have n: "int (unat n) = uint n" by simp
  have "int (unat n) < int (2 ^ 31)" using assms by (simp only: of_nat_less_iff)
  then have small: "uint n < 2 ^ 31" using n by simp
  moreover have "- (2 ^ 31) \<le> uint n" using uint_ge_0 [of n] by (rule order_trans [rotated]) simp
  ultimately have "signed_take_bit 31 (uint n) = uint n" by (intro signed_take_bit_int_eq_self)
  then have "signed_take_bit 31 (uint (ucast n :: u32)) = uint n"
    using small by (simp add: unsigned_ucast_eq take_bit_int_eq_self)
  then show ?thesis by (simp add: int32_def sint_uint n)
qed

lemma run_program_report:
  assumes popen: "env_popen E tr cmd = Inr (concat (pr @ map report_line ls @ post), 0, status)"
    and keys: "report_keys (map fst ls)" "ls \<noteq> []"
    and others: "\<forall>l\<in>set (pr @ post). whole_line l \<and> (\<forall>kv\<in>set ls. \<not> prefix (fst kv) l)"
  shows "\<exists>tr'. run_program E cmd (map fst ls) result tr = (Ret (0, int32 (snd (hd ls))), tr')"
proof -
  let ?ls = "pr @ map report_line ls @ post"
  define tx where "tx = concat ?ls"
  have "\<forall>l\<in>set ?ls. whole_line l" using others whole_report [OF keys(1)] by auto
  then have lines: "fgets_lines (LINE_MAX - 1) tx = ?ls" unfolding tx_def by (rule fgets_whole_lines)
  have zeros: "map fst (map (\<lambda>k. (k, 0)) (map fst ls)) = map fst ls" by simp
  obtain t1 where "read_output (fgets_lines (LINE_MAX - 1) tx) (map (\<lambda>k. (k, 0)) (map fst ls)) (EvPopen cmd # tr)
      = (Ret ls, t1)"
    unfolding lines
    using read_report [OF keys(1) zeros] others by blast
  then show ?thesis
    using popen unfolding tx_def [symmetric]
    by (simp add: run_program_def then_io_def bind_io_apply c_popen_def c_pclose_def)
qed

lemma builder_report_lines:
  "builder_report self = concat (map report_line
     [(''## files indexed'', b_n_processed self), (''## regular files'', b_n_regular_files self)])"
  by (simp add: builder_report_def report_line_def)

lemma builder_keys: "report_keys [''## files indexed'', ''## regular files'']"
  by (simp add: report_keys_def parallel_def)

lemma run_new_task:
  assumes "program t (run_result st) tr = (Ret (ret, r), tr')" and "t \<noteq> current_task st"
    and "procs 1 = Some (run_task program)"
  shows "svc_dispatch procs 1 (Some t) st tr = (Ret (ReplyInt r, \<lparr>current_task = t, run_result = r\<rparr>), tr')"
  using assms by (cases st) (simp add: svc_dispatch_def run_task_def bind_io_apply)

text \<open>
  C27: the count of the builder arrives.  When the program the builder daemon starts
  prints the report of hpssix-builder, the answer to the run request of a new task
  is the number of indexed files of that report, cut to an int: the number itself
  below \<open>2 ^ 31\<close>.
\<close>

theorem builder_count_arrives:
  assumes dir: "hpssix_get_datadir_today E (Some (of_nat PATH_MAX)) tr = (Ret (0, dir), tr1)"
    and room: "length (builder_exe E) + length dir + 22 < LINE_MAX"
    and popen: "env_popen E tr1 (builder_exe E @ '' '' @ dir @ '' '' @ dec (unat t)) = Inr (builder_report self, 0, status)"
    and new: "t \<noteq> current_task st"
  shows "\<exists>n tr'. hpssixd_builder_1 E 1 (Some t) st tr
       = (Ret (ReplyInt n, \<lparr>current_task = t, run_result = n\<rparr>), tr') \<and>
     n = int32 (b_n_processed self) \<and>
     (unat (b_n_processed self) < 2 ^ 31 \<longrightarrow> n = int (unat (b_n_processed self)))"
proof -
  let ?cmd = "builder_exe E @ '' '' @ dir @ '' '' @ dec (unat t)"
  have fits: "sprintf_buf LINE_MAX ''%s %s %lu''
      [PStr (Some (builder_exe E)), PStr (Some dir), PInt t] = Some ?cmd"
    using room length_dec_u64 [of t] by (simp add: sprintf_buf_def)
  obtain tr' where "run_program E ?cmd [''## files indexed'', ''## regular files''] (run_result st) tr1
      = (Ret (0, int32 (b_n_processed self)), tr')"
    using run_program_report [of E tr1 ?cmd "[]" "[(''## files indexed'', b_n_processed self),
      (''## regular files'', b_n_regular_files self)]" "[]"] popen builder_keys
    unfolding builder_report_lines by auto
  then have "svc_do_builder E t (run_result st) tr = (Ret (0, int32 (b_n_processed self)), tr')"
    using dir fits by (simp add: svc_do_builder_def bind_io_apply)
  from run_new_task [of "svc_do_builder E", OF this new] show ?thesis
    using int32_unat by (auto simp: hpssixd_builder_1_def builder_procs_def builder_run_1_svc_def)
qed

text \<open>The witness: a directory that exists, and a report of 7 indexed files, 3 of them regular.\<close>

definition sample_stat :: stat_t where
  "sample_stat = \<lparr>st_dev = 0, st_ino = 1, st_mode = 16877, st_nlink = 2, st_uid = 0, st_gid = 0, st_rdev = 0,
     st_size = 0, st_blksize = 0, st_blocks = 0, st_atime = 0, st_mtime = 0, st_ctime = 0\<rparr>"

definition report_env :: "string \<Rightarrow> env" where
  "report_env output = sample_env\<lparr>env_stat := \<lambda>_ _. Inr sample_stat, env_popen := \<lambda>_ _. Inr (output, 0, 0)\<rparr>"

definition counted_builder :: hpssix_builder where
  "counted_builder = sample_builder\<lparr>b_n_processed := 7, b_n_regular_files := 3\<rparr>"

lemma report_env_dir:
  "hpssix_get_datadir_today (report_env output) (Some (of_nat PATH_MAX)) []
     = (Ret (0, year_dir sample_env sample_day @ SLASH # day_name sample_day),
        [EvStat (year_dir sample_env sample_day @ SLASH # day_name sample_day) (Inr sample_stat), EvTime 0])"
  using sample_day_valid
  by (simp add: hpssix_get_datadir_today_def hpssix_get_work_root_def bind_io_apply dirname_today_def c_time_def
      dirname_of_eq c_stat_def report_env_def sample_env_def quiet_env_def year_dir_def)

lemmas report_dir = report_env_dir [unfolded sample_day_path]

theorem builder_count_arrives_witness:
  "\<exists>tr'. hpssixd_builder_1 (report_env (builder_report counted_builder)) 1 (Some 5) sample_service []
     = (Ret (ReplyInt 7, \<lparr>current_task = 5, run_result = 7\<rparr>), tr')"
proof -
  let ?E = "report_env (builder_report counted_builder)"
  have "length (builder_exe ?E) + length ''/var/hpssix/data/2019/20190227'' + 22 < LINE_MAX"
    by (simp add: builder_exe_def report_env_def sample_env_def quiet_env_def)
  moreover have "env_popen ?E tr c = Inr (builder_report counted_builder, 0, 0)" for tr c
    by (simp add: report_env_def)
  moreover have "5 \<noteq> current_task sample_service" by (simp add: sample_service_def)
  ultimately have "\<exists>n tr'. hpssixd_builder_1 ?E 1 (Some 5) sample_service []
       = (Ret (ReplyInt n, \<lparr>current_task = 5, run_result = n\<rparr>), tr') \<and>
     n = int32 (b_n_processed counted_builder) \<and>
     (unat (b_n_processed counted_builder) < 2 ^ 31 \<longrightarrow> n = int (unat (b_n_processed counted_builder)))"
    by (intro builder_count_arrives [OF report_dir])
  then show ?thesis by (auto simp: counted_builder_def)
qed

text \<open>What hpssix-extractor prints at the end.\<close>

lemma extractor_finish_prints:
  "extractor_finish elapsed ret n tr
     = (Ret ret, EvOut (''## '' @ elapsed @ '' seconds'' @ [NL]) #
          EvOut (''## files extracted: '' @ sdec (int32 n) @ [NL]) # tr)"
  by (simp add: extractor_finish_def c_printf_def c_puts_def then_io_def bind_io_apply)

lemma sdec_small: "unat n < 2 ^ 31 \<Longrightarrow> sdec (int32 n) = dec (unat n)"
  by (simp add: int32_unat sdec_def)

text \<open>
  C28: the count of the extractor arrives.  When the program the extractor daemon
  starts prints lines of its own and then what hpssix-extractor prints at its end
  for \<open>n\<close> documents, fewer than \<open>2 ^ 31\<close>, the answer to the run request of a new task is \<open>n\<close>.
\<close>

theorem extractor_count_arrives:
  assumes dir: "hpssix_get_datadir_today E (Some (of_nat PATH_MAX)) tr = (Ret (0, dir), tr1)"
    and room: "length dir + 40 < PATH_MAX" "length (extractor_exe E) + length dir + 80 < LINE_MAX"
    and finish: "extractor_finish elapsed ret n tr0 = (Ret ret, EvOut seconds # EvOut counted # tr0)"
    and popen: "env_popen E tr1 (extractor_exe E @ '' --nthreads='' @ dec (unat (extractor_nthreads config)) @ '' '' @
        dir @ ''/builder.'' @ dec (unat t) @ ''.db'') = Inr (concat pr @ counted @ seconds, 0, status)"
    and others: "\<forall>l\<in>set pr. whole_line l \<and> \<not> prefix ''## files extracted'' l"
    and elapsed: "whole_line seconds" "\<not> prefix ''## files extracted'' seconds"
    and small: "unat n < 2 ^ 31" and new: "t \<noteq> current_task st"
  shows "\<exists>tr'. hpssixd_extractor_1 E config 1 (Some t) st tr
     = (Ret (ReplyInt (int (unat n)), \<lparr>current_task = t, run_result = int (unat n)\<rparr>), tr')"
proof -
  let ?db = "dir @ ''/builder.'' @ dec (unat t) @ ''.db''"
  let ?nt = "ucast (extractor_nthreads config) :: u64"
  let ?cmd = "extractor_exe E @ '' --nthreads='' @ dec (unat (extractor_nthreads config)) @ '' '' @ ?db"
  have "unat (extractor_nthreads config) < 2 ^ 64"
    using unsigned_less [of "extractor_nthreads config"] by (rule less_trans) simp
  then have nt: "unat ?nt = unat (extractor_nthreads config)"
    by (simp add: unsigned_ucast_eq take_bit_nat_eq_self)
  have name: "sprintf_buf (PATH_MAX - length dir) ''/builder.%lu.db'' [PInt t] = Some (''/builder.'' @ dec (unat t) @ ''.db'')"
    using room length_dec_u64 [of t] by (simp add: sprintf_buf_def)
  have fits: "sprintf_buf LINE_MAX ''%s --nthreads=%lu %s''
      [PStr (Some (extractor_exe E)), PInt ?nt, PStr (Some ?db)] = Some ?cmd"
    using room length_dec_u64 [of t] length_dec_u64 [of ?nt] by (simp add: sprintf_buf_def nt)
  have counted: "counted = report_line (''## files extracted'', n)"
    using finish small by (simp add: extractor_finish_prints sdec_small report_line_def)
  have "report_keys [''## files extracted'']" by (simp add: report_keys_def)
  then obtain tr' where "run_program E ?cmd [''## files extracted''] (run_result st) tr1
      = (Ret (0, int32 n), tr')"
    using run_program_report [of E tr1 ?cmd pr "[(''## files extracted'', n)]" "[seconds]" status "run_result st"]
      popen others elapsed unfolding counted by auto
  then have "svc_do_extractor E config t (run_result st) tr = (Ret (0, int (unat n)), tr')"
    using dir name fits int32_unat [OF small] by (simp add: svc_do_extractor_def bind_io_apply)
  from run_new_task [of "svc_do_extractor E config", OF this new] show ?thesis
    by (auto simp: hpssixd_extractor_1_def extractor_procs_def extractor_run_1_svc_def)
qed

theorem extractor_count_arrives_witness:
  "\<exists>tr'. hpssixd_extractor_1
       (report_env (''Total work: 5'' @ [NL] @ ''## files extracted: 4'' @ [NL] @ ''## 1.25 seconds'' @ [NL]))
       config_zero 1 (Some 5) sample_service []
     = (Ret (ReplyInt 4, \<lparr>current_task = 5, run_result = 4\<rparr>), tr')"
proof -
  let ?out = "concat [''Total work: 5'' @ [NL]] @ (''## files extracted: 4'' @ [NL]) @ ''## 1.25 seconds'' @ [NL]"
  let ?E = "report_env ?out"
  have room: "length ''/var/hpssix/data/2019/20190227'' + 40 < PATH_MAX"
    "length (extractor_exe ?E) + length ''/var/hpssix/data/2019/20190227'' + 80 < LINE_MAX"
    by (simp_all add: extractor_exe_def report_env_def sample_env_def quiet_env_def)
  have finish: "extractor_finish ''1.25'' 0 4 []
      = (Ret 0, EvOut (''## 1.25 seconds'' @ [NL]) # EvOut (''## files extracted: 4'' @ [NL]) # [])"
    unfolding extractor_finish_prints by code_simp
  have popen: "env_popen ?E tr c = Inr (?out, 0, 0)" for tr c by (simp add: report_env_def)
  have lines: "\<forall>l\<in>set [''Total work: 5'' @ [NL]]. whole_line l \<and> \<not> prefix ''## files extracted'' l"
    "whole_line (''## 1.25 seconds'' @ [NL])" "\<not> prefix ''## files extracted'' (''## 1.25 seconds'' @ [NL])"
    by (simp_all add: whole_line_def)
  have "5 \<noteq> current_task sample_service" "unat (4 :: u64) < 2 ^ 31" by (simp_all add: sample_service_def)
  from extractor_count_arrives [OF report_dir room finish popen lines this(2, 1), of config_zero]
  show ?thesis by simp
qed

section \<open>The daemons do not end\<close>



end
