(* ===== verification/Hpssix_Scanner.thy ===== *)
theory Hpssix_Scanner
  imports Hpssix_Services
begin

text \<open>
  The scanner daemon (hpssixd-scanner.c), which waits for both workers to connect,
  runs the scan script, asks the builder and then the extractor to work on the
  task, and records the outcome in the master database; and the main function of
  hpssixd (hpssixd.c).  The state of the scanner is its static variables.
\<close>

section \<open>The service\<close>

record scanner_state =
  builder_running :: bool
  extractor_running :: bool
  sc_mdb :: hpssix_mdb

definition scanner_init :: scanner_state where
  "scanner_init = \<lparr>builder_running = False, extractor_running = False, sc_mdb = mdb_zero\<rparr>"

definition scanner_connect_1_svc :: "u64 \<Rightarrow> scanner_state \<Rightarrow> (int \<times> scanner_state) io" where
  "scanner_connect_1_svc argp st =
     (let sender = int32 argp in
      return_io (0,
        if sender = HPSSIXD_ID_BUILDER then st\<lparr>builder_running := True\<rparr>
        else if sender = HPSSIXD_ID_EXTRACTOR then st\<lparr>extractor_running := True\<rparr>
        else st))"

definition scanner_procs :: "nat \<Rightarrow> (u64 \<Rightarrow> scanner_state \<Rightarrow> (int \<times> scanner_state) io) option" where
  "scanner_procs p = (if p = 1 then Some scanner_connect_1_svc else None)"

definition hpssixd_scanner_1 :: "nat \<Rightarrow> u64 option \<Rightarrow> scanner_state \<Rightarrow> (rpc_reply \<times> scanner_state) io" where
  "hpssixd_scanner_1 = svc_dispatch scanner_procs"

definition scanner_control :: "env \<Rightarrow> int io" where
  "scanner_control E = svc_control E ''HPSSIXD_SCANNER''"

section \<open>Requests to the workers\<close>

text \<open>
  The return value and \<open>*result\<close>.  When no client can be created, the NULL handle is
  passed to \<open>clnt_destroy\<close>, which dereferences it.
\<close>

definition rpc_run_worker :: "env \<Rightarrow> hpssix_config \<Rightarrow> int \<Rightarrow> u64 \<Rightarrow> (int \<times> int option) io" where
  "rpc_run_worker E config worker task =
     (if worker = HPSSIXD_ID_BUILDER then
        bind_io (clnt_create E (builder_host config) HPSSIXD_BUILDER) (\<lambda>e. case e of
          Some _ \<Rightarrow> undef_io
        | None \<Rightarrow> bind_io (builder_run_1 E task) (\<lambda>r.
            then_io (clnt_destroy HPSSIXD_BUILDER) (return_io (0, r))))
      else if worker = HPSSIXD_ID_EXTRACTOR then
        bind_io (clnt_create E (extractor_host config) HPSSIXD_EXTRACTOR) (\<lambda>e. case e of
          Some _ \<Rightarrow> undef_io
        | None \<Rightarrow> bind_io (extractor_run_1 E task) (\<lambda>r.
            then_io (clnt_destroy HPSSIXD_EXTRACTOR) (return_io (0, r))))
      else return_io (EINVAL, None))"

definition rpc_terminate_worker :: "env \<Rightarrow> hpssix_config \<Rightarrow> int \<Rightarrow> (int \<times> int option) io" where
  "rpc_terminate_worker E config worker =
     (if worker = HPSSIXD_ID_BUILDER then
        bind_io (clnt_create E (builder_host config) HPSSIXD_BUILDER) (\<lambda>e. case e of
          Some _ \<Rightarrow> undef_io
        | None \<Rightarrow> bind_io (builder_terminate_1 E) (\<lambda>r.
            then_io (clnt_destroy HPSSIXD_BUILDER) (return_io (0, r))))
      else if worker = HPSSIXD_ID_EXTRACTOR then
        bind_io (clnt_create E (extractor_host config) HPSSIXD_EXTRACTOR) (\<lambda>e. case e of
          Some _ \<Rightarrow> undef_io
        | None \<Rightarrow> bind_io (extractor_terminate_1 E) (\<lambda>r.
            then_io (clnt_destroy HPSSIXD_EXTRACTOR) (return_io (0, r))))
      else return_io (EINVAL, None))"

definition scanner_terminate_all :: "env \<Rightarrow> hpssix_config \<Rightarrow> scanner_state \<Rightarrow> int io" where
  "scanner_terminate_all E config st =
     bind_io (if builder_running st then rpc_terminate_worker E config HPSSIXD_ID_BUILDER
              else return_io (0, None)) (\<lambda>(ret, _).
     bind_io (if extractor_running st then rpc_terminate_worker E config HPSSIXD_ID_EXTRACTOR
              else return_io (ret, None)) (\<lambda>(ret, _).
     return_io ret))"

section \<open>A scan\<close>

definition db2_new_insert_script :: "env \<Rightarrow> string" where
  "db2_new_insert_script E = env_libexecdir E @ ''/hpssix-db2-scan.sh''"

text \<open>\<open>strftime\<close> with \<open>%F\<close> into 11 bytes: undefined contents when it does not fit.\<close>

definition strftime_F :: "tm \<Rightarrow> string option" where
  "strftime_F t =
     (let s = sdec (tm_year t + 1900) @ ''-'' @ pad True 2 (sdec (tm_mon t + 1)) @ ''-'' @
              pad True 2 (sdec (tm_mday t))
      in if length s < 11 then Some s else None)"

definition scanner_keys :: "hpssix_work_status \<Rightarrow> (string \<times> u64) list" where
  "scanner_keys ws = [(''## start oid'', oid_start ws), (''## end oid'', oid_end ws),
     (''## scanned'', n_scanned ws), (''## deleted'', n_deleted ws)]"

definition launch_scanner_process ::
  "env \<Rightarrow> hpssix_config \<Rightarrow> hpssix_mdb \<Rightarrow> string \<Rightarrow> hpssix_work_status \<Rightarrow> (int \<times> hpssix_work_status) io" where
  "launch_scanner_process E config mdb outdir status =
     bind_io (hpssix_mdb_get_last_scanned_status E (Some mdb)) (\<lambda>(ret, last).
     if ret \<noteq> 0 then return_io (ret, status)
     else bind_io (case last of
            None \<Rightarrow> bind_io (c_time E) (\<lambda>now. return_io (first_oid config, now))
          | Some (oid, ts) \<Rightarrow>
              if oid = 0 then bind_io (c_time E) (\<lambda>now. return_io (first_oid config, now))
              else return_io (oid, ts)) (\<lambda>(last_oid, ts).
       bind_io (lift_io (Option.bind (env_localtime E (ts - 86400)) strftime_F)) (\<lambda>datebuf.
       bind_io (lift_io (sprintf_buf LINE_MAX ''%s %s/bin/db2 %s %s %lu %s %s %lu''
          [PStr (Some (db2_new_insert_script E)), PStr (db2path config), PStr (db2user config),
           PStr (db2password config), PInt last_oid, PStr (Some datebuf), PStr (Some outdir),
           PInt (ws_id status)])) (\<lambda>cmd.
       bind_io (c_popen E cmd) (\<lambda>r. case r of
         Inl e \<Rightarrow> return_io (if e \<noteq> 0 then e else ENOMEM, status)
       | Inr (text, ferr, stat) \<Rightarrow>
           bind_io (read_output (fgets_lines (LINE_MAX - 1) text) (scanner_keys status)) (\<lambda>kvs.
           then_io (c_pclose stat)
             (return_io (stat, status\<lparr>oid_start := snd (kvs ! 0), oid_end := snd (kvs ! 1),
                n_scanned := snd (kvs ! 2), n_deleted := snd (kvs ! 3)\<rparr>))))))))"

text \<open>
  \<open>do_scanner\<close>, in three parts: the two requests and the record; from the data
  directory on; the whole function.  After a request that failed the NULL result is
  dereferenced.
\<close>

definition ask_workers :: "env \<Rightarrow> hpssix_config \<Rightarrow> hpssix_mdb \<Rightarrow> hpssix_work_status \<Rightarrow> int io" where
  "ask_workers E config mdb status =
     bind_io (rpc_run_worker E config HPSSIXD_ID_BUILDER (ws_id status)) (\<lambda>(ret, result).
     if ret \<noteq> 0 then return_io ret
     else bind_io (c_time E) (\<lambda>t_extractor.
       bind_io (lift_io result) (\<lambda>indexed.
       bind_io (rpc_run_worker E config HPSSIXD_ID_EXTRACTOR (ws_id status)) (\<lambda>(ret, result).
       if ret \<noteq> 0 then return_io ret
       else bind_io (c_time E) (\<lambda>t_end.
         bind_io (lift_io result) (\<lambda>extracted.
         hpssix_mdb_record E (Some mdb)
           (Some (status\<lparr>extractor_start := t_extractor, n_indexed := of_int indexed,
              extractor_end := t_end, n_extracted := of_int extracted, ws_status := 0\<rparr>))))))))"

definition scan_and_run :: "env \<Rightarrow> hpssix_config \<Rightarrow> hpssix_mdb \<Rightarrow> hpssix_work_status \<Rightarrow> int io" where
  "scan_and_run E config mdb status =
     bind_io (hpssix_get_datadir_today E (Some (of_nat PATH_MAX))) (\<lambda>(ret, outdir).
     if ret \<noteq> 0 then return_io ret
     else bind_io (c_time E) (\<lambda>t_scanner.
       bind_io (launch_scanner_process E config mdb outdir (status\<lparr>scanner_start := t_scanner\<rparr>)) (\<lambda>(ret, status).
       if ret \<noteq> 0 then return_io ret
       else bind_io (c_time E) (\<lambda>t_builder.
         if n_scanned status + n_deleted status = 0 then return_io 0
         else ask_workers E config mdb (status\<lparr>builder_start := t_builder\<rparr>)))))"

definition do_scanner :: "env \<Rightarrow> hpssix_config \<Rightarrow> scanner_state \<Rightarrow> (int \<times> scanner_state) io" where
  "do_scanner E config st =
     bind_io (c_time E) (\<lambda>task_id.
     if \<not> builder_running st then return_io (EINVAL, st)
     else if \<not> extractor_running st then return_io (EINVAL, st)
     else bind_io (hpssix_mdb_open E (Some (sc_mdb st))) (\<lambda>(ret, m).
       let mdb = (case m of Some m \<Rightarrow> m | None \<Rightarrow> sc_mdb st); st = st\<lparr>sc_mdb := mdb\<rparr> in
       if ret \<noteq> 0 then return_io (EIO, st)
       else bind_io (scan_and_run E config mdb (work_status_zero\<lparr>ws_id := task_id\<rparr>)) (\<lambda>ret.
         then_io (hpssix_mdb_close (Some mdb)) (return_io (ret, st)))))"

section \<open>The daemon\<close>

text \<open>
  \<open>register_alarm\<close>: the time of day of the schedule on the current day, or a day
  later when it has passed.  \<open>time_t\<close> is signed: an overflow is undefined.
  \<open>alarm\<close> takes the low 32 bits; what it returns is not used.
\<close>

abbreviation (input) time_t :: "int \<Rightarrow> bool" where
  "time_t i \<equiv> - (2 ^ 63) \<le> i \<and> i < 2 ^ 63"

definition register_alarm :: "env \<Rightarrow> hpssix_config \<Rightarrow> unit io" where
  "register_alarm E config =
     bind_io (c_time E) (\<lambda>time_now.
     let now = (case env_localtime E time_now of None \<Rightarrow> tm_zero | Some t \<Rightarrow> t);
         run_at = (schedule config)\<lparr>tm_year := tm_year now, tm_mon := tm_mon now, tm_mday := tm_mday now\<rparr>;
         at = sint (env_mktime E run_at);
         time_run_at = (if at < sint time_now then at + 24*60*60 else at);
         sleep = time_run_at - sint time_now
     in if time_t time_run_at \<and> time_t sleep then c_alarm (ucast (word_of_int sleep :: u32))
        else undef_io)"

text \<open>
  The control thread serves connections while the main thread runs.  It only sets
  the two flags, which \<open>do_scanner\<close> reads at its start and \<open>scanner_terminate_all\<close>
  once: serving what has arrived when a signal is taken gives every outcome.
  \<open>arrivals tr\<close> are the arguments of these requests.
\<close>

fun serve_connects :: "u64 list \<Rightarrow> scanner_state \<Rightarrow> scanner_state io" where
  "serve_connects [] st = return_io st"
| "serve_connects (a # as) st =
     bind_io (hpssixd_scanner_1 1 (Some a) st) (\<lambda>(_, st). serve_connects as st)"

fun scanner_loop ::
  "nat \<Rightarrow> env \<Rightarrow> (trace \<Rightarrow> u64 list) \<Rightarrow> hpssix_config \<Rightarrow> scanner_state \<Rightarrow> int io" where
  "scanner_loop 0 E arrivals config st = spin_io"
| "scanner_loop (Suc k) E arrivals config st =
     then_io (register_alarm E config)
     (bind_io (c_sigwait E) (\<lambda>(ret, signum).
      bind_io (\<lambda>tr. serve_connects (arrivals tr) st tr) (\<lambda>st.
      if signum = SIGALRM \<or> signum = SIGUSR1
      then bind_io (do_scanner E config st) (\<lambda>(_, st). scanner_loop k E arrivals config st)
      else if signum = SIGTERM
      then then_io (scanner_terminate_all E config st)
            (then_io (c_sys E ''pthread_kill SIGKILL'') (then_io (c_sys E ''pthread_join'') (return_io ret)))
      else scanner_loop k E arrivals config st)))"

definition hpssixd_daemon_scanner :: "env \<Rightarrow> (trace \<Rightarrow> u64 list) \<Rightarrow> hpssixd_daemon_data \<Rightarrow> int io" where
  "hpssixd_daemon_scanner E arrivals data =
     try_io (c_sys E ''pthread_sigmask'') return_io
     (try_io (c_sys E ''pthread_create'') return_io
       (scanner_loop (env_fuel E) E arrivals (dd_config data) scanner_init))"

section \<open>The main function of hpssixd\<close>

text \<open>
  The options in the order \<open>getopt_long\<close> gives them; any other character is an
  option it does not know.  \<open>None\<close>: the usage is printed and the program ends with 0.
\<close>

record main_options =
  opt_context :: int
  opt_foreground :: bool
  opt_systemd :: bool
  opt_debug :: bool
  opt_name :: "string option"

definition main_options_init :: main_options where
  "main_options_init = \<lparr>opt_context = - 1, opt_foreground = False, opt_systemd = False,
     opt_debug = False, opt_name = None\<rparr>"

fun main_getopt :: "string \<Rightarrow> main_options \<Rightarrow> main_options option" where
  "main_getopt [] o' = Some o'"
| "main_getopt (ch # chs) o' =
     (if ch = CHR ''b'' then main_getopt chs (o'\<lparr>opt_context := 1, opt_name := Some ''builder''\<rparr>)
      else if ch = CHR ''d'' then main_getopt chs (o'\<lparr>opt_debug := True, opt_foreground := True\<rparr>)
      else if ch = CHR ''e'' then main_getopt chs (o'\<lparr>opt_context := 2, opt_name := Some ''extractor''\<rparr>)
      else if ch = CHR ''f'' then main_getopt chs (o'\<lparr>opt_foreground := True\<rparr>)
      else if ch = CHR ''s'' then main_getopt chs (o'\<lparr>opt_context := 0, opt_name := Some ''scanner''\<rparr>)
      else if ch = CHR ''t'' then main_getopt chs (o'\<lparr>opt_systemd := True\<rparr>)
      else None)"

definition get_daemon_func ::
  "env \<Rightarrow> (trace \<Rightarrow> u64 list) \<Rightarrow> int \<Rightarrow> hpssixd_daemon_data \<Rightarrow> int io" where
  "get_daemon_func E arrivals context =
     (if context = 0 then hpssixd_daemon_scanner E arrivals
      else if context = 1 then hpssixd_daemon_builder E
      else if context = 2 then hpssixd_daemon_extractor E
      else (\<lambda>_. undef_io))"

text \<open>A pid file that cannot be set up ends the program with 0.\<close>

definition hpssixd_main :: "env \<Rightarrow> int \<Rightarrow> (trace \<Rightarrow> u64 list) \<Rightarrow> string \<Rightarrow> int io" where
  "hpssixd_main E pid arrivals opts = (case main_getopt opts main_options_init of
     None \<Rightarrow> exit_io 0
   | Some o' \<Rightarrow>
       if opt_context o' < 0 then exit_io (- 1)
       else bind_io (hpssix_config_read_sysconf E (Some config_zero)) (\<lambda>(ret, c).
         bind_io (lift_io c) (\<lambda>config.
         let data = \<lparr>dd_config = config, dd_name = opt_name o', dd_debug = opt_debug o'\<rparr> in
         if ret \<noteq> 0 then return_io ret
         else if opt_foreground o' then
           bind_io (hpssixd_setup_pidfile E pid (Some data)) (\<lambda>ok.
           if \<not> ok then return_io 0 else get_daemon_func E arrivals (opt_context o') data)
         else try_io (hpssixd_daemonize E pid (Some data) (opt_systemd o')) return_io
           (get_daemon_func E arrivals (opt_context o') data))))"

end
