(* ===== verification/Hpssix_Scanner_Run.thy ===== *)
theory Hpssix_Scanner_Run
  imports Hpssix_Scanner
begin

text \<open>
  What the scanner daemon asks of the workers and when, what a complete scan
  records, when the next scan is scheduled, and how the daemon ends.
\<close>

section \<open>Requests seen from outside\<close>

type_synonym rpc_request = "u32 \<times> nat \<times> u64"

definition rpc_see :: "event \<Rightarrow> rpc_request list" where
  "rpc_see ev = (case ev of EvClntCall prg pc arg _ \<Rightarrow> [(prg, pc, arg)] | _ \<Rightarrow> [])"

interpretation rpc: local_observer rpc_see
proof
  show "rpc_see ev = []" if "local_event ev" for ev
    using that by (cases ev) (simp_all add: rpc_see_def)
qed

lemma rpc_keeps [simp, keeps_intros]:
  "keeps rpc_see (c_popen E cmd)" "keeps rpc_see (c_pclose s)" "keeps rpc_see (clnt_create E h p)"
  "keeps rpc_see (clnt_destroy p)" "keeps rpc_see (c_sys E nm)" "keeps rpc_see (c_alarm n)"
  "keeps rpc_see (c_sigwait E)"
  by (auto simp: keeps_def prim_defs rpc_see_def split: prod.splits)

lemma sq_keeps [simp, keeps_intros]:
  "keeps sq_see (c_popen E cmd)" "keeps sq_see (c_pclose s)" "keeps sq_see (clnt_create E h p)"
  "keeps sq_see (clnt_destroy p)" "keeps sq_see (clnt_call E p n a)" "keeps sq_see (c_puts str)"
  by (auto simp: keeps_def prim_defs sq_see_def split: prod.splits)

lemma keeps_read_output [keeps_intros]: "(\<And>s. keeps see (c_puts s)) \<Longrightarrow> keeps see (read_output ls kvs)"
  by (induction ls arbitrary: kvs) (auto intro!: keeps_intros)

definition asks :: "rpc_request list \<Rightarrow> 'a io \<Rightarrow> bool" where
  "asks full m \<longleftrightarrow> (\<forall>tr. \<exists>s. prefix s full \<and> obs rpc_see (snd (m tr)) = obs rpc_see tr @ s)"

lemma asks_keeps: "keeps rpc_see m \<Longrightarrow> asks full m"
  unfolding asks_def keeps_def by (metis append_Nil2 Nil_prefix)

lemma asks_bind:
  assumes "keeps rpc_see m" and "\<And>tr x tr'. m tr = (Ret x, tr') \<Longrightarrow> asks full (f x)"
  shows "asks full (bind_io m f)"
  unfolding asks_def
proof
  fix tr
  obtain r tr1 where m: "m tr = (r, tr1)" by (cases "m tr")
  have same: "obs rpc_see tr1 = obs rpc_see tr" using keepsD [OF assms(1) m] .
  show "\<exists>s. prefix s full \<and> obs rpc_see (snd (bind_io m f tr)) = obs rpc_see tr @ s"
  proof (cases r)
    case (Ret x)
    then have "asks full (f x)" using assms(2) m by blast
    then show ?thesis using m Ret same unfolding asks_def by (metis bind_io_Ret)
  qed (use m same in \<open>simp_all add: bind_io_apply exI [of _ "[]"]\<close>)
qed

lemma asks_bind_keeps:
  assumes "asks full m" and "\<And>x. keeps rpc_see (f x)"
  shows "asks full (bind_io m f)"
  unfolding asks_def
proof
  fix tr
  have "obs rpc_see (snd (bind_io m f tr)) = obs rpc_see (snd (m tr))"
    using assms(2) by (auto simp: bind_io_apply keeps_def split: prod.splits outcome.splits)
  then show "\<exists>s. prefix s full \<and> obs rpc_see (snd (bind_io m f tr)) = obs rpc_see tr @ s"
    using assms(1) unfolding asks_def by simp
qed

lemma bind_ext: "bind_io (ext f ev) g tr = g (f tr) (ev (f tr) # tr)"
  by (simp add: bind_io_apply)

lemma asks_return: "asks full (return_io x)"
  by (rule asks_keeps) simp

lemma asks_if: "asks full m \<Longrightarrow> asks full k \<Longrightarrow> asks full (if b then m else k)"
  by simp

text \<open>The requests of one task.\<close>

definition task_requests :: "u64 \<Rightarrow> rpc_request list" where
  "task_requests t = [(HPSSIXD_BUILDER, 1, t), (HPSSIXD_EXTRACTOR, 1, t)]"

lemma ask_workers_asks: "asks (task_requests (ws_id ws)) (ask_workers E config mdb ws)"
proof -
  have rec: "obs rpc_see (snd (hpssix_mdb_record E m s tr)) = obs rpc_see tr" for m s tr
    using rpc.keeps_mdb(3) unfolding keeps_def by blast
  show ?thesis
    unfolding asks_def ask_workers_def rpc_run_worker_def builder_run_1_def extractor_run_1_def task_requests_def
    by (auto simp: bind_io_apply then_io_apply prim_defs rec rpc_see_def lift_io_def split: option.splits)
qed

text \<open>A property of every value a program returns.\<close>

definition gives :: "('a \<Rightarrow> bool) \<Rightarrow> 'a io \<Rightarrow> bool" where
  "gives P m \<longleftrightarrow> (\<forall>tr x tr'. m tr = (Ret x, tr') \<longrightarrow> P x)"

lemma gives_intros:
  "P x \<Longrightarrow> gives P (return_io x)"
  "(\<And>x. gives P (f x)) \<Longrightarrow> gives P (bind_io m f)"
  "gives P k \<Longrightarrow> gives P (then_io n k)"
  "(b \<Longrightarrow> gives P k1) \<Longrightarrow> (\<not> b \<Longrightarrow> gives P k2) \<Longrightarrow> gives P (if b then k1 else k2)"
  "(\<And>x. gives P (g x)) \<Longrightarrow> (\<And>y. gives P (h y)) \<Longrightarrow> gives P (case s of Inl x \<Rightarrow> g x | Inr y \<Rightarrow> h y)"
  "(\<And>x y. gives P (k3 x y)) \<Longrightarrow> gives P (case p of (x, y) \<Rightarrow> k3 x y)"
  by (auto simp: gives_def bind_io_eq_Ret_iff then_io_def split: sum.splits prod.splits)

lemma launch_task_id: "gives (\<lambda>(_, ws'). ws_id ws' = ws_id ws) (launch_scanner_process E config mdb outdir ws)"
  unfolding launch_scanner_process_def by (intro gives_intros) simp_all

lemma launch_keeps: "keeps rpc_see (launch_scanner_process E config mdb outdir ws)"
  unfolding launch_scanner_process_def
  by (intro keeps_intros rpc.keeps_prims rpc.keeps_mdb rpc_keeps)

lemma scan_asks: "asks (task_requests (ws_id ws)) (scan_and_run E config mdb ws)"
proof -
  have run: "asks (task_requests (ws_id ws)) (ask_workers E config mdb (ws'\<lparr>builder_start := t\<rparr>))"
    if "ws_id ws' = ws_id ws" for ws' t
    using ask_workers_asks [of "ws'\<lparr>builder_start := t\<rparr>"] that by simp
  have launched: "asks (task_requests (ws_id ws)) (bind_io (launch_scanner_process E config mdb outdir (ws\<lparr>scanner_start := t0\<rparr>))
      (\<lambda>(ret, status). if ret \<noteq> 0 then return_io ret
        else bind_io (c_time E) (\<lambda>t_builder. if n_scanned status + n_deleted status = 0 then return_io 0
          else ask_workers E config mdb (status\<lparr>builder_start := t_builder\<rparr>))))" for outdir t0
  proof (rule asks_bind [OF launch_keeps], clarify)
    fix tr ret ws' tr'
    assume "launch_scanner_process E config mdb outdir (ws\<lparr>scanner_start := t0\<rparr>) tr = (Ret (ret, ws'), tr')"
    then have "ws_id ws' = ws_id ws"
      using launch_task_id [of "ws\<lparr>scanner_start := t0\<rparr>" E config mdb outdir] unfolding gives_def by fastforce
    then show "asks (task_requests (ws_id ws)) (if ret \<noteq> 0 then return_io ret
        else bind_io (c_time E) (\<lambda>t_builder. if n_scanned ws' + n_deleted ws' = 0 then return_io 0
          else ask_workers E config mdb (ws'\<lparr>builder_start := t_builder\<rparr>)))"
      by (intro asks_if asks_return asks_bind rpc.keeps_prims run)
  qed
  show ?thesis
    unfolding scan_and_run_def
    by (intro asks_bind [OF rpc.keeps_datadir]) (auto intro!: asks_return asks_bind [OF rpc.keeps_prims(1)] launched)
qed

lemma do_scanner_asks:
  "\<exists>s. prefix s (task_requests (env_time E tr)) \<and>
     (s \<noteq> [] \<longrightarrow> builder_running st \<and> extractor_running st) \<and>
     obs rpc_see (snd (do_scanner E config st tr)) = obs rpc_see tr @ s"
proof (cases "builder_running st \<and> extractor_running st")
  case True
  define k where "k = (\<lambda>(ret :: int, m). let mdb = (case m of Some m \<Rightarrow> m | None \<Rightarrow> sc_mdb st); st = st\<lparr>sc_mdb := mdb\<rparr> in
       if ret \<noteq> 0 then return_io (EIO, st)
       else bind_io (scan_and_run E config mdb (work_status_zero\<lparr>ws_id := env_time E tr\<rparr>)) (\<lambda>ret.
         then_io (hpssix_mdb_close (Some mdb)) (return_io (ret, st))))"
  have "asks (task_requests (env_time E tr)) (k x)" for x
    using scan_asks [of "work_status_zero\<lparr>ws_id := env_time E tr\<rparr>" E config]
    unfolding k_def Let_def
    by (auto split: prod.splits intro!: asks_bind_keeps asks_return keeps_intros rpc.keeps_mdb)
  then have "asks (task_requests (env_time E tr)) (bind_io (hpssix_mdb_open E (Some (sc_mdb st))) k)"
    by (intro asks_bind rpc.keeps_mdb)
  moreover have "do_scanner E config st tr
      = bind_io (hpssix_mdb_open E (Some (sc_mdb st))) k (EvTime (env_time E tr) # tr)"
    using True by (simp add: do_scanner_def k_def c_time_def bind_ext)
  moreover have "obs rpc_see (EvTime (env_time E tr) # tr) = obs rpc_see tr" by (simp add: rpc_see_def)
  ultimately show ?thesis using True unfolding asks_def by metis
next
  case False
  then have "snd (do_scanner E config st tr) = EvTime (env_time E tr) # tr"
    by (auto simp: do_scanner_def bind_io_apply c_time_def)
  then show ?thesis by (intro exI [of _ "[]"]) (simp add: rpc_see_def)
qed

section \<open>The scanner as a state machine\<close>

text \<open>
  The steps of the daemon's two threads: the control thread answers a request, the
  main thread sets the alarm, takes a signal, or runs a scan.  A scan that does not
  return is no step.
\<close>

inductive scanner_step :: "env \<Rightarrow> hpssix_config \<Rightarrow> scanner_state \<times> trace \<Rightarrow> scanner_state \<times> trace \<Rightarrow> bool"
  for E config where
  serve: "hpssixd_scanner_1 p arg st tr = (Ret (reply, st'), tr') \<Longrightarrow> scanner_step E config (st, tr) (st', tr')"
| schedule: "register_alarm E config tr = (Ret (), tr') \<Longrightarrow> scanner_step E config (st, tr) (st, tr')"
| signal: "c_sigwait E tr = (Ret sig, tr') \<Longrightarrow> scanner_step E config (st, tr) (st, tr')"
| scan: "do_scanner E config st tr = (Ret (ret, st'), tr') \<Longrightarrow> scanner_step E config (st, tr) (st', tr')"

lemma serve_connect:
  assumes "hpssixd_scanner_1 p arg st tr = (Ret (reply, st'), tr')"
  shows "tr' = tr" "builder_running st \<longrightarrow> builder_running st'" "extractor_running st \<longrightarrow> extractor_running st'"
  using assms
  by (auto simp: hpssixd_scanner_1_def svc_dispatch_def scanner_procs_def scanner_connect_1_svc_def Let_def
      split: if_splits option.splits)

lemma register_alarm_keeps: "keeps rpc_see (register_alarm E config)"
  unfolding register_alarm_def Let_def by (intro keeps_intros rpc.keeps_prims rpc_keeps)

lemma scan_state:
  assumes "do_scanner E config st tr = (Ret (ret, st'), tr')"
  shows "builder_running st' = builder_running st \<and> extractor_running st' = extractor_running st"
  using assms by (auto simp: do_scanner_def bind_io_eq_Ret_iff then_io_def Let_def split: if_splits)

text \<open>What has been asked since the start: tasks, each the request to the builder alone or followed by the one to the extractor.\<close>

definition task_started :: "rpc_request list \<Rightarrow> bool" where
  "task_started seg \<longleftrightarrow> seg \<noteq> [] \<and> (\<exists>t. prefix seg (task_requests t))"

definition scanner_inv :: "trace \<Rightarrow> scanner_state \<times> trace \<Rightarrow> bool" where
  "scanner_inv tr0 = (\<lambda>(st, tr). \<exists>segs. obs rpc_see tr = obs rpc_see tr0 @ concat segs \<and>
     (\<forall>seg\<in>set segs. task_started seg) \<and>
     (segs \<noteq> [] \<longrightarrow> builder_running st \<and> extractor_running st))"

lemma scanner_inv_same:
  "scanner_inv tr0 (st, tr) \<Longrightarrow> obs rpc_see tr' = obs rpc_see tr \<Longrightarrow>
     (builder_running st \<longrightarrow> builder_running st') \<Longrightarrow> (extractor_running st \<longrightarrow> extractor_running st') \<Longrightarrow>
     scanner_inv tr0 (st', tr')"
  by (auto simp: scanner_inv_def)

lemma scanner_inv_scan:
  assumes inv: "scanner_inv tr0 (st, tr)" and run: "do_scanner E config st tr = (Ret (ret, st'), tr')"
  shows "scanner_inv tr0 (st', tr')"
proof -
  obtain segs where segs: "obs rpc_see tr = obs rpc_see tr0 @ concat segs" "\<forall>seg\<in>set segs. task_started seg"
    "segs \<noteq> [] \<longrightarrow> builder_running st \<and> extractor_running st"
    using inv by (auto simp: scanner_inv_def)
  obtain s where s: "prefix s (task_requests (env_time E tr))"
    "s \<noteq> [] \<longrightarrow> builder_running st \<and> extractor_running st" "obs rpc_see tr' = obs rpc_see tr @ s"
    using do_scanner_asks [of E tr st config] run by auto
  note flags = scan_state [OF run]
  show ?thesis
  proof (cases "s = []")
    case True
    then show ?thesis using inv s flags by (auto intro: scanner_inv_same)
  next
    case False
    then have "task_started s" using s(1) by (auto simp: task_started_def)
    then show ?thesis
      using segs s False flags unfolding scanner_inv_def by (auto intro!: exI [of _ "segs @ [s]"])
  qed
qed

lemma scanner_inv_step: "scanner_step E config s s' \<Longrightarrow> scanner_inv tr0 s \<Longrightarrow> scanner_inv tr0 s'"
proof (induction rule: scanner_step.induct)
  case (serve p arg st tr reply st' tr')
  then show ?case using serve_connect [OF serve(1)] scanner_inv_same by blast
next
  case (schedule tr tr' st)
  then show ?case using keepsD [OF register_alarm_keeps] scanner_inv_same by blast
next
  case (signal tr sig tr' st)
  then show ?case using keepsD [OF rpc_keeps(7)] scanner_inv_same by blast
next
  case (scan st tr ret st' tr')
  then show ?case using scanner_inv_scan by blast
qed


text \<open>The witness: both workers connect, and a signal arrives.\<close>

definition connected :: scanner_state where
  "connected = scanner_init\<lparr>builder_running := True, extractor_running := True\<rparr>"

lemma connected_run:
  assumes "env_sigwait E [] = (0, 15)"
  shows "(scanner_step E config)\<^sup>*\<^sup>* (scanner_init, []) (connected, [EvSigwait 15])"
proof -
  have "hpssixd_scanner_1 1 (Some 1) scanner_init [] = (Ret (ReplyInt 0, scanner_init\<lparr>builder_running := True\<rparr>), [])"
    "hpssixd_scanner_1 1 (Some 2) (scanner_init\<lparr>builder_running := True\<rparr>) [] = (Ret (ReplyInt 0, connected), [])"
    "c_sigwait E [] = (Ret (0, 15), [EvSigwait 15])"
    using assms by (simp_all add: hpssixd_scanner_1_def svc_dispatch_def scanner_procs_def scanner_connect_1_svc_def
        int32_def connected_def c_sigwait_def)
  then show ?thesis
    by (meson scanner_step.intros converse_rtranclp_into_rtranclp rtranclp.rtrancl_refl)
qed


section \<open>A complete scan\<close>

lemma mdb_holds_keeps:
  "mdb_holds E s0 m c tr hist \<Longrightarrow> keeps sq_see p \<Longrightarrow> p tr = (r, tr') \<Longrightarrow> mdb_holds E s0 m c tr' hist"
  by (simp add: mdb_holds_def keeps_replay)

lemma strftime_F_valid:
  assumes "valid_tm t"
  shows "\<exists>d. strftime_F t = Some d \<and> length d = 10"
proof -
  have "length (pad True 2 (sdec (tm_mon t + 1))) = 2" "length (pad True 2 (sdec (tm_mday t))) = 2"
    "length (sdec (tm_year t + 1900)) = 4"
    using assms by (auto simp: valid_tm_def length_pad2 sdec_def [of "tm_year t + 1900"] intro: length_dec4)
  then show ?thesis by (simp add: strftime_F_def Let_def)
qed

lemma scanner_report_keys: "report_keys (map fst (scanner_keys ws))"
  by (simp add: scanner_keys_def report_keys_def parallel_def)

definition scan_config :: "env \<Rightarrow> hpssix_config \<Rightarrow> nat \<Rightarrow> bool" where
  "scan_config E config len \<longleftrightarrow> (case (db2path config, db2user config, db2password config) of
     (Some p, Some u, Some w) \<Rightarrow>
       length (db2_new_insert_script E) + length p + length u + length w + len + 70 < LINE_MAX
   | _ \<Rightarrow> False)"

lemma launch_run:
  assumes holds: "mdb_holds E s0 m c tr hist"
    and days: "\<And>u. \<exists>t. env_localtime E u = Some t \<and> valid_tm t"
    and config: "scan_config E config (length dir)"
    and popen: "\<And>tr args. env_popen E tr (db2_new_insert_script E @ args)
      = Inr (concat (map report_line (scanner_keys out)), 0, 0)"
  shows "\<exists>tr'. launch_scanner_process E config m dir ws tr
      = (Ret (0, ws\<lparr>oid_start := oid_start out, oid_end := oid_end out, n_scanned := n_scanned out,
           n_deleted := n_deleted out\<rparr>), tr') \<and> mdb_holds E s0 m c tr' hist"
proof -
  obtain last tr1 where 1: "hpssix_mdb_get_last_scanned_status E (Some m) tr = (Ret (0, Some last), tr1)"
    "mdb_holds E s0 m c tr1 hist"
    using mdb_last_status_run [OF holds] by blast
  let ?from = "case Some last of
            None \<Rightarrow> bind_io (c_time E) (\<lambda>now. return_io (first_oid config, now))
          | Some (oid, ts) \<Rightarrow>
              if oid = 0 then bind_io (c_time E) (\<lambda>now. return_io (first_oid config, now))
              else return_io (oid, ts)"
  have "keeps sq_see ?from" by (intro keeps_intros sq.keeps_dir_prims)
  moreover obtain oid ts tr2 where 2: "?from tr1 = (Ret (oid, ts), tr2)"
    by (cases last; cases "fst last = 0") (auto simp: bind_ext c_time_def)
  ultimately have h2: "mdb_holds E s0 m c tr2 hist" using mdb_holds_keeps [OF 1(2)] by blast
  obtain t d where t: "env_localtime E (ts - 86400) = Some t" "strftime_F t = Some d" "length d = 10"
    using days strftime_F_valid by blast
  obtain p u w where cfg: "db2path config = Some p" "db2user config = Some u" "db2password config = Some w"
    "length (db2_new_insert_script E) + length p + length u + length w + length dir + 70 < LINE_MAX"
    using config by (auto simp: scan_config_def split: option.splits)
  let ?args = "'' '' @ p @ ''/bin/db2 '' @ u @ '' '' @ w @ '' '' @ dec (unat oid) @ '' '' @ d @ '' '' @ dir @ '' '' @ dec (unat (ws_id ws))"
  let ?cmd = "db2_new_insert_script E @ ?args"
  have cmd: "sprintf_buf LINE_MAX ''%s %s/bin/db2 %s %s %lu %s %s %lu''
      [PStr (Some (db2_new_insert_script E)), PStr (db2path config), PStr (db2user config),
       PStr (db2password config), PInt oid, PStr (Some d), PStr (Some dir), PInt (ws_id ws)] = Some ?cmd"
    using cfg t(3) length_dec_u64 [of oid] length_dec_u64 [of "ws_id ws"] by (simp add: sprintf_buf_def)
  have lines: "fgets_lines (LINE_MAX - 1) (concat (map report_line (scanner_keys out))) = map report_line (scanner_keys out)"
    using fgets_whole_lines [OF whole_report [OF scanner_report_keys]] .
  have fst: "map fst (scanner_keys ws) = map fst (scanner_keys out)" by (simp add: scanner_keys_def)
  obtain tr4 where 4: "read_output (fgets_lines (LINE_MAX - 1) (concat (map report_line (scanner_keys out))))
      (scanner_keys ws) (EvPopen ?cmd # tr2) = (Ret (scanner_keys out), tr4)"
    using read_report [OF scanner_report_keys fst, of "[]" "[]" "EvPopen ?cmd # tr2"] lines by auto
  have "mdb_holds E s0 m c (EvPopen ?cmd # tr2) hist"
    using mdb_holds_keeps [OF h2 sq_keeps(1)] by (simp add: c_popen_def)
  from mdb_holds_keeps [OF this keeps_read_output [OF sq_keeps(6)] 4] have "mdb_holds E s0 m c tr4 hist" .
  then have "mdb_holds E s0 m c (EvPclose 0 # tr4) hist"
    using mdb_holds_keeps [OF _ sq_keeps(2)] by (simp add: c_pclose_def)
  moreover have "launch_scanner_process E config m dir ws tr
      = (Ret (0, ws\<lparr>oid_start := oid_start out, oid_end := oid_end out, n_scanned := n_scanned out,
           n_deleted := n_deleted out\<rparr>), EvPclose 0 # tr4)"
    unfolding launch_scanner_process_def
    using 1(1) 2 t 4 by (simp add: bind_io_Ret cmd bind_ext c_popen_def popen c_pclose_def then_io_def scanner_keys_def
        del: append_assoc)
  ultimately show ?thesis by blast
qed

lemma ask_workers_run:
  assumes holds: "mdb_holds E s0 m c tr hist"
    and clients: "\<And>tr h p. env_clnt_create E tr h p = None"
    and replies: "\<And>tr. env_clnt_call E tr HPSSIXD_BUILDER 1 (ws_id ws) = Some indexed"
      "\<And>tr. env_clnt_call E tr HPSSIXD_EXTRACTOR 1 (ws_id ws) = Some extracted"
  shows "\<exists>t1 t2 tr'. ask_workers E config m ws tr = (Ret 0, tr') \<and>
     mdb_holds E s0 m c tr' (hist @ [ws\<lparr>ws_id := next_id (map mdb_row hist), extractor_start := t1,
       n_indexed := of_int indexed, extractor_end := t2, n_extracted := of_int extracted, ws_status := 0\<rparr>]) \<and>
     obs rpc_see tr' = obs rpc_see tr @ task_requests (ws_id ws)"
proof -
  let ?p = "\<lambda>prg host. bind_io (clnt_create E host prg) (\<lambda>_.
     bind_io (clnt_call E prg 1 (ws_id ws)) (\<lambda>r. then_io (clnt_destroy prg) (c_time E)))"
  have keeps: "keeps sq_see (?p prg host)" for prg host by (intro keeps_intros sq_keeps sq.keeps_dir_prims)
  obtain t1 tr1 where 1: "?p HPSSIXD_BUILDER (builder_host config) tr = (Ret t1, tr1)"
    by (simp add: prim_defs bind_ext then_io_def)
  obtain t2 tr2 where 2: "?p HPSSIXD_EXTRACTOR (extractor_host config) tr1 = (Ret t2, tr2)"
    by (simp add: prim_defs bind_ext then_io_def)
  let ?ws = "ws\<lparr>extractor_start := t1, n_indexed := of_int indexed, extractor_end := t2,
    n_extracted := of_int extracted, ws_status := 0\<rparr>"
  have "mdb_holds E s0 m c tr2 hist"
    using mdb_holds_keeps [OF mdb_holds_keeps [OF holds keeps 1] keeps 2] .
  then obtain tr' where 3: "hpssix_mdb_record E (Some m) (Some ?ws) tr2 = (Ret 0, tr')"
    "mdb_holds E s0 m c tr' (hist @ [?ws\<lparr>ws_id := next_id (map mdb_row hist)\<rparr>])"
    using mdb_record_run by blast
  have "ask_workers E config m ws tr = (Ret 0, tr')"
    using 1 2 3(1)
    by (auto simp: ask_workers_def rpc_run_worker_def builder_run_1_def extractor_run_1_def prim_defs bind_ext
        bind_bind_io then_io_def clients replies [simplified])
  moreover have "obs rpc_see tr' = obs rpc_see tr @ task_requests (ws_id ws)"
    using 1 2 keepsD [OF rpc.keeps_mdb(3) 3(1)]
    by (auto simp: prim_defs bind_ext then_io_def rpc_see_def task_requests_def)
  moreover have "?ws\<lparr>ws_id := next_id (map mdb_row hist)\<rparr> = ws\<lparr>ws_id := next_id (map mdb_row hist), extractor_start := t1,
       n_indexed := of_int indexed, extractor_end := t2, n_extracted := of_int extracted, ws_status := 0\<rparr>"
    by simp
  ultimately show ?thesis using 3(2) by metis
qed

lemma mdb_holds_close: "mdb_holds E s0 m c tr hist \<Longrightarrow> mdb_holds E s0 m c (EvSqClose k # tr) hist"
  by (auto simp: mdb_holds_def Let_def sq_view_def)

lemma scan_run:
  assumes holds: "mdb_holds E s0 m c tr hist"
    and dirs: "\<And>tr. \<exists>tr'. hpssix_get_datadir_today E (Some (of_nat PATH_MAX)) tr = (Ret (0, dir), tr')"
    and days: "\<And>u. \<exists>t. env_localtime E u = Some t \<and> valid_tm t"
    and config: "scan_config E config (length dir)"
    and popen: "\<And>tr args. env_popen E tr (db2_new_insert_script E @ args)
      = Inr (concat (map report_line (scanner_keys out)), 0, 0)"
    and found: "n_scanned out + n_deleted out \<noteq> 0"
    and clients: "\<And>tr h p. env_clnt_create E tr h p = None"
    and replies: "\<And>u. env_clnt_call E u HPSSIXD_BUILDER 1 (ws_id ws) = Some indexed"
      "\<And>u. env_clnt_call E u HPSSIXD_EXTRACTOR 1 (ws_id ws) = Some extracted"
  shows "\<exists>ws' tr'. scan_and_run E config m ws tr = (Ret 0, tr') \<and>
     obs rpc_see tr' = obs rpc_see tr @ task_requests (ws_id ws) \<and>
     mdb_holds E s0 m c tr' (hist @ [ws']) \<and>
     ws_status ws' = 0 \<and> oid_start ws' = oid_start out \<and> oid_end ws' = oid_end out \<and>
     n_scanned ws' = n_scanned out \<and> n_deleted ws' = n_deleted out \<and>
     n_indexed ws' = of_int indexed \<and> n_extracted ws' = of_int extracted"
proof -
  obtain tr1 where 1: "hpssix_get_datadir_today E (Some (of_nat PATH_MAX)) tr = (Ret (0, dir), tr1)"
    using dirs by blast
  let ?tr1 = "EvTime (env_time E tr1) # tr1" let ?ws = "ws\<lparr>scanner_start := env_time E tr1\<rparr>"
  have t: "c_time E u = (Ret (env_time E u), EvTime (env_time E u) # u)" for u by (simp add: c_time_def)
  have "mdb_holds E s0 m c ?tr1 hist"
    using mdb_holds_keeps [OF mdb_holds_keeps [OF holds sq.keeps_datadir 1] sq.keeps_dir_prims(1) t] .
  from launch_run [OF this days config popen, of ?ws]
  obtain tr2 where 2: "launch_scanner_process E config m dir ?ws ?tr1
      = (Ret (0, ?ws\<lparr>oid_start := oid_start out, oid_end := oid_end out, n_scanned := n_scanned out,
           n_deleted := n_deleted out\<rparr>), tr2)" "mdb_holds E s0 m c tr2 hist" by blast
  let ?tr2 = "EvTime (env_time E tr2) # tr2"
  let ?ws2 = "?ws\<lparr>oid_start := oid_start out, oid_end := oid_end out, n_scanned := n_scanned out,
           n_deleted := n_deleted out, builder_start := env_time E tr2\<rparr>"
  have "mdb_holds E s0 m c ?tr2 hist" using mdb_holds_keeps [OF 2(2) sq.keeps_dir_prims(1) t] .
  from ask_workers_run [OF this clients, of ?ws2 indexed extracted config] replies
  obtain t1 t2 tr' where 3: "ask_workers E config m ?ws2 ?tr2 = (Ret 0, tr')"
    "mdb_holds E s0 m c tr' (hist @ [?ws2\<lparr>ws_id := next_id (map mdb_row hist), extractor_start := t1,
       n_indexed := of_int indexed, extractor_end := t2, n_extracted := of_int extracted, ws_status := 0\<rparr>])"
    "obs rpc_see tr' = obs rpc_see ?tr2 @ task_requests (ws_id ws)" by auto
  have "obs rpc_see ?tr2 = obs rpc_see tr"
    using keepsD [OF rpc.keeps_datadir 1] keepsD [OF launch_keeps 2(1)] by (simp add: rpc_see_def)
  moreover have "scan_and_run E config m ws tr = (Ret 0, tr')"
    using 1 2(1) 3(1) found by (simp add: scan_and_run_def bind_io_Ret t)
  ultimately show ?thesis
    using 3(2,3) by (intro exI [of _ "?ws2\<lparr>ws_id := next_id (map mdb_row hist), extractor_start := t1,
       n_indexed := of_int indexed, extractor_end := t2, n_extracted := of_int extracted, ws_status := 0\<rparr>"] exI [of _ tr']) simp
qed

text \<open>
  C20: a scan that finds something is carried through and recorded.  When both
  workers are connected, the master database can be opened and holds \<open>hist\<close>, the data
  directory can be prepared, the script ends well and reports a non-zero number of
  new and deleted objects, and the workers answer, then \<open>do_scanner\<close> returns 0, it has
  asked the builder and then the extractor to run the task, and the history has one
  more entry: a successful one with the object ids and counts the script reported
  and the counts the workers answered.
\<close>

theorem do_scanner_complete:
  assumes flags: "builder_running st" "extractor_running st"
    and opens: "hpssix_mdb_open E (Some (sc_mdb st)) (EvTime (env_time E tr) # tr) = (Ret (0, Some m), tr1)"
    and holds: "mdb_holds E s0 m c tr1 hist"
    and dirs: "\<And>tr. \<exists>tr'. hpssix_get_datadir_today E (Some (of_nat PATH_MAX)) tr = (Ret (0, dir), tr')"
    and days: "\<And>u. \<exists>t. env_localtime E u = Some t \<and> valid_tm t"
    and config: "scan_config E config (length dir)"
    and popen: "\<And>tr args. env_popen E tr (db2_new_insert_script E @ args)
      = Inr (concat (map report_line (scanner_keys out)), 0, 0)"
    and found: "n_scanned out + n_deleted out \<noteq> 0"
    and clients: "\<And>tr h p. env_clnt_create E tr h p = None"
    and replies: "\<And>u. env_clnt_call E u HPSSIXD_BUILDER 1 (env_time E tr) = Some indexed"
      "\<And>u. env_clnt_call E u HPSSIXD_EXTRACTOR 1 (env_time E tr) = Some extracted"
  shows "\<exists>ws tr'. do_scanner E config st tr = (Ret (0, st\<lparr>sc_mdb := m\<rparr>), tr') \<and>
     obs rpc_see tr' = obs rpc_see tr @ task_requests (env_time E tr) \<and>
     mdb_holds E s0 m c tr' (hist @ [ws]) \<and>
     ws_status ws = 0 \<and> oid_start ws = oid_start out \<and> oid_end ws = oid_end out \<and>
     n_scanned ws = n_scanned out \<and> n_deleted ws = n_deleted out \<and>
     n_indexed ws = of_int indexed \<and> n_extracted ws = of_int extracted"
proof -
  let ?ws = "work_status_zero\<lparr>ws_id := env_time E tr\<rparr>"
  have ws: "ws_id ?ws = env_time E tr" by simp
  obtain ws' tr2 where 2: "scan_and_run E config m ?ws tr1 = (Ret 0, tr2)"
    "obs rpc_see tr2 = obs rpc_see tr1 @ task_requests (env_time E tr)" "mdb_holds E s0 m c tr2 (hist @ [ws'])"
    "ws_status ws' = 0" "oid_start ws' = oid_start out" "oid_end ws' = oid_end out"
    "n_scanned ws' = n_scanned out" "n_deleted ws' = n_deleted out"
    "n_indexed ws' = of_int indexed" "n_extracted ws' = of_int extracted"
    using scan_run [OF holds dirs days config popen found clients, of ?ws indexed extracted] replies
    unfolding ws by blast
  have "tmpdb_conn (mdb_db m) = Some c"
    using holds by (simp add: mdb_holds_def mdb_ready_def prepared_def Let_def)
  then have "hpssix_mdb_close (Some m) tr2 = (Ret 0, EvSqClose c # tr2)"
    by (simp add: hpssix_mdb_close_def hpssix_tmpdb_close_def then_io_def sqlite3_close_def bind_io_apply)
  then have "do_scanner E config st tr = (Ret (0, st\<lparr>sc_mdb := m\<rparr>), EvSqClose c # tr2)"
    using flags opens 2(1)
    by (simp add: do_scanner_def c_time_def bind_ext then_io_def bind_io_Ret)
  moreover have "obs rpc_see (EvSqClose c # tr2) = obs rpc_see tr @ task_requests (env_time E tr)"
    using 2(2) keepsD [OF rpc.keeps_mdb(1) opens] by (simp add: rpc_see_def)
  ultimately show ?thesis using mdb_holds_close [OF 2(3)] 2(4-10) by blast
qed

text \<open>The witness: the first scan of a fresh installation on the reference engine.\<close>

definition scan_out :: hpssix_work_status where
  "scan_out = work_status_zero\<lparr>oid_start := 100, oid_end := 170, n_scanned := 71, n_deleted := 2\<rparr>"

definition scan_env :: env where
  "scan_env = ref_sqlite mdb_sem (sample_sq []) (sample_env\<lparr>
     env_stat := \<lambda>_ p. if p = mdb_path sample_env then Inl ENOENT else Inr sample_stat,
     env_popen := \<lambda>_ _. Inr (concat (map report_line (scanner_keys scan_out)), 0, 0),
     env_clnt_call := \<lambda>_ prg _ _. Some (if prg = HPSSIXD_BUILDER then 71 else 40)\<rparr>)"

definition sample_config :: hpssix_config where
  "sample_config = config_zero\<lparr>db2path := Some ''/opt/db2'', db2user := Some ''hpss'', db2password := Some ''secret''\<rparr>"

lemmas scan_env_defs = scan_env_def ref_sqlite_def sample_env_def quiet_env_def

lemma scan_env_opens:
  "\<exists>m c tr1. hpssix_mdb_open scan_env (Some mdb_zero) tr = (Ret (0, Some m), tr1) \<and>
     mdb_holds scan_env (sample_sq []) m c tr1 []"
proof -
  have path: "mdb_path scan_env = mdb_path sample_env"
    by (simp add: mdb_path_def hpssix_get_work_root_def scan_env_def ref_sqlite_def)
  have "length (mdb_path scan_env) < PATH_MAX"
    by (simp add: mdb_path_def hpssix_get_work_root_def mdb_name_def scan_env_defs)
  moreover have "env_stat scan_env u (mdb_path scan_env) = Inl ENOENT" for u
    unfolding path by (simp add: scan_env_def ref_sqlite_def)
  ultimately show ?thesis
    using mdb_open_fresh [of "sample_sq []" scan_env mdb_zero tr] ref_sqlite_live ref_sqlite_sound
    unfolding scan_env_def by metis
qed

lemma scan_env_dir:
  "\<exists>tr'. hpssix_get_datadir_today scan_env (Some (of_nat PATH_MAX)) tr = (Ret (0, ''/var/hpssix/data/2019/20190227''), tr')"
proof -
  have path: "year_dir scan_env sample_day @ SLASH # day_name sample_day = ''/var/hpssix/data/2019/20190227''"
    using sample_day_path by (simp add: year_dir_def scan_env_def ref_sqlite_def)
  have other: "''/var/hpssix/data/2019/20190227'' \<noteq> mdb_path sample_env" by code_simp
  have env: "env_localstatedir scan_env = ''/var/hpssix''" "env_localtime scan_env t = Some sample_day" for t
    by (simp_all add: scan_env_defs)
  have "env_stat scan_env u ''/var/hpssix/data/2019/20190227'' = Inr sample_stat" for u
    using other by (simp add: scan_env_def ref_sqlite_def)
  then show ?thesis
    by (simp add: hpssix_get_datadir_today_def hpssix_get_work_root_def dirname_today_def bind_io_apply c_time_def
        dirname_of_eq [OF sample_day_valid] c_stat_def env path)
qed

theorem do_scanner_complete_witness:
  "\<exists>m c ws tr'. do_scanner scan_env sample_config connected [] = (Ret (0, connected\<lparr>sc_mdb := m\<rparr>), tr') \<and>
     obs rpc_see tr' = task_requests 0 \<and> mdb_holds scan_env (sample_sq []) m c tr' [ws] \<and>
     oid_end ws = 170 \<and> n_scanned ws = 71 \<and> n_indexed ws = 71 \<and> n_extracted ws = 40"
proof -
  obtain m c tr1 where m: "hpssix_mdb_open scan_env (Some mdb_zero) [EvTime 0] = (Ret (0, Some m), tr1)"
    "mdb_holds scan_env (sample_sq []) m c tr1 []"
    using scan_env_opens by blast
  have days: "\<exists>t. env_localtime scan_env u = Some t \<and> valid_tm t" for u
    using sample_env_time by (simp add: scan_env_def ref_sqlite_def)
  have config: "scan_config scan_env sample_config (length ''/var/hpssix/data/2019/20190227'')"
    by (simp add: scan_config_def sample_config_def db2_new_insert_script_def scan_env_defs)
  have popen: "env_popen scan_env tr (db2_new_insert_script scan_env @ args)
      = Inr (concat (map report_line (scanner_keys scan_out)), 0, 0)" for tr args
    by (simp add: scan_env_def ref_sqlite_def)
  have found: "n_scanned scan_out + n_deleted scan_out \<noteq> 0" by (simp add: scan_out_def)
  have env: "env_time scan_env tr = 0" "env_clnt_create scan_env tr h p = None"
    "env_clnt_call scan_env tr HPSSIXD_BUILDER 1 t = Some 71"
    "env_clnt_call scan_env tr HPSSIXD_EXTRACTOR 1 t = Some 40" for tr h p t
    by (simp_all add: scan_env_defs HPSSIXD_BUILDER_def HPSSIXD_EXTRACTOR_def)
  have st: "builder_running connected" "extractor_running connected" "sc_mdb connected = mdb_zero"
    by (simp_all add: connected_def scanner_init_def)
  show ?thesis
    using do_scanner_complete [of connected scan_env "[]" m tr1 "sample_sq []" c "[]", OF st(1,2) _ m(2) scan_env_dir days
        config popen found env(2) env(3,4)] m(1)
    unfolding env(1) st(3) by (fastforce simp: scan_out_def)
qed

section \<open>The schedule\<close>

text \<open>The time \<open>register_alarm\<close> asks \<open>mktime\<close> for: the schedule on the current day.\<close>

definition scheduled :: "hpssix_config \<Rightarrow> tm \<Rightarrow> tm" where
  "scheduled config now = (schedule config)\<lparr>tm_year := tm_year now, tm_mon := tm_mon now, tm_mday := tm_mday now\<rparr>"

text \<open>
  C23: the alarm.  When the scheduled time of the current day is less than a day
  from now, the alarm is set to a number of seconds below a day after which it is
  the scheduled time of day again.  The number is 0, which cancels the alarm
  instead of setting it, exactly when the daemon looks at the clock in the scheduled second.
\<close>

theorem register_alarm_day:
  assumes now: "env_localtime E (env_time E tr) = Some now" "0 \<le> sint (env_time E tr)" "sint (env_time E tr) < 2 ^ 62"
    and at: "at = sint (env_mktime E (scheduled config now))"
      "sint (env_time E tr) - 86400 \<le> at" "at < sint (env_time E tr) + 86400"
  shows "\<exists>d. register_alarm E config tr = (Ret (), EvAlarm (word_of_int d) # EvTime (env_time E tr) # tr) \<and>
     0 \<le> d \<and> d < 86400 \<and> (sint (env_time E tr) + d - at) mod 86400 = 0 \<and>
     (d = 0 \<longleftrightarrow> at = sint (env_time E tr) \<or> at = sint (env_time E tr) - 86400)"
proof -
  let ?n = "sint (env_time E tr)"
  define d where "d = (if at < ?n then at + 86400 - ?n else at - ?n)"
  have bounds: "0 \<le> d" "d < 86400" using at(2,3) by (auto simp: d_def)
  have "ucast (word_of_int d :: u32) = (word_of_int d :: u64)"
    using bounds by (simp add: ucast_eq unsigned_of_int take_bit_int_eq_self)
  moreover have "register_alarm E config tr
      = c_alarm (ucast (word_of_int d :: u32)) (EvTime (env_time E tr) # tr)"
    using now at bounds
    by (simp add: register_alarm_def c_time_def bind_ext Let_def scheduled_def [symmetric] d_def)
  ultimately have "register_alarm E config tr = (Ret (), EvAlarm (word_of_int d) # EvTime (env_time E tr) # tr)"
    by (simp add: c_alarm_def)
  moreover have "(?n + d - at) mod 86400 = 0" by (simp add: d_def)
  ultimately show ?thesis using bounds at(2) by (intro exI [of _ d]) (auto simp: d_def)
qed

theorem register_alarm_day_witness:
  "\<exists>d. register_alarm (sample_env\<lparr>env_time := \<lambda>_. 100000, env_mktime := \<lambda>_. 99000\<rparr>) config_zero []
       = (Ret (), [EvAlarm (word_of_int d), EvTime 100000]) \<and> 0 \<le> d \<and> d < 86400 \<and>
     (100000 + d - 99000) mod 86400 = 0"
proof -
  let ?E = "sample_env\<lparr>env_time := \<lambda>_. 100000, env_mktime := \<lambda>_. 99000\<rparr>"
  have t: "sint (env_time ?E []) = 100000" "99000 = sint (env_mktime ?E (scheduled config_zero sample_day))"
    by simp_all
  have now: "env_localtime ?E (env_time ?E []) = Some sample_day" by (simp add: sample_env_def)
  have "\<exists>d. register_alarm ?E config_zero [] = (Ret (), EvAlarm (word_of_int d) # EvTime (env_time ?E []) # []) \<and>
     0 \<le> d \<and> d < 86400 \<and> (sint (env_time ?E []) + d - 99000) mod 86400 = 0 \<and>
     (d = 0 \<longleftrightarrow> 99000 = sint (env_time ?E []) \<or> 99000 = sint (env_time ?E []) - 86400)"
    by (rule register_alarm_day [OF now _ _ t(2)]) (simp_all only: t(1), simp_all)
  then show ?thesis by auto
qed

section \<open>Termination\<close>

lemma terminate_all_run:
  assumes "\<And>tr h p. env_clnt_create E tr h p = None"
  shows "\<exists>r tr'. scanner_terminate_all E config st tr = (Ret r, tr') \<and>
     obs rpc_see tr' = obs rpc_see tr @ (if builder_running st then [(HPSSIXD_BUILDER, 3, 0)] else [])
       @ (if extractor_running st then [(HPSSIXD_EXTRACTOR, 3, 0)] else [])"
  by (cases "builder_running st"; cases "extractor_running st")
    (simp_all add: scanner_terminate_all_def rpc_terminate_worker_def builder_terminate_1_def
      extractor_terminate_1_def prim_defs bind_ext then_io_def assms rpc_see_def bind_io_apply)



section \<open>Workers that do not answer\<close>



end
