(* ===== verification/Hpssix_Scanner_Refine.thy ===== *)
theory Hpssix_Scanner_Refine
  imports Hpssix_Scanner_Run
begin

text \<open>
  The scanner daemon refines an abstract history: a list of entries to which a scan
  adds nothing or one successful entry.  The abstraction reads the history off the
  file of the master database.
\<close>

section \<open>The abstract history\<close>

inductive history_step :: "hpssix_work_status list \<Rightarrow> hpssix_work_status list \<Rightarrow> bool" where
  stutter: "history_step hist hist"
| scanned: "ws_status ws = 0 \<Longrightarrow> n_scanned ws + n_deleted ws \<noteq> 0 \<Longrightarrow> history_step hist (hist @ [ws])"

definition history_in :: "env \<Rightarrow> sqstate \<Rightarrow> trace \<Rightarrow> hpssix_work_status list \<Rightarrow> bool" where
  "history_in E s0 tr hist \<longleftrightarrow> sq_file (sq_replay mdb_sem s0 tr) (mdb_path E) = map mdb_row hist"

text \<open>SQLite works, the name fits, and a database file that is not there has no rows.\<close>

definition mdb_store :: "env \<Rightarrow> sqstate \<Rightarrow> bool" where
  "mdb_store E s0 \<longleftrightarrow> sqlite_live mdb_sem s0 E \<and> sqlite_sound mdb_sem s0 E \<and> length (mdb_path E) < PATH_MAX \<and>
     (\<forall>tr. env_stat E tr (mdb_path E) = Inl ENOENT \<longrightarrow> sq_file (sq_replay mdb_sem s0 tr) (mdb_path E) = [])"

section \<open>Opening an existing database\<close>

definition conn_on :: "sqstate \<Rightarrow> trace \<Rightarrow> nat \<Rightarrow> string \<Rightarrow> bool" where
  "conn_on s0 tr c p \<longleftrightarrow> sq_path (sq_replay mdb_sem s0 tr) c = p"

lemma mdb_open_run:
  assumes store: "mdb_store E s0" and hist: "history_in E s0 tr hist"
  shows "\<exists>ret m' tr1. hpssix_mdb_open E (Some m) tr = (Ret (ret, Some m'), tr1) \<and>
     (if ret = 0 then \<exists>c. mdb_holds E s0 m' c tr1 hist \<and> conn_on s0 tr1 c (mdb_path E)
      else sq_replay mdb_sem s0 tr1 = sq_replay mdb_sem s0 tr)"
proof -
  have live: "sqlite_live mdb_sem s0 E" and sound: "sqlite_sound mdb_sem s0 E" and fits: "length (mdb_path E) < PATH_MAX"
    using store by (simp_all add: mdb_store_def)
  obtain cfg where cfg: "hpssix_config_read_sysconf E (Some (mdb_config m)) tr
      = (Ret (0, Some cfg), EvConfig (hpssix_sysconf_file E) # tr)"
    using config_read_sysconf_returns by blast
  define t0 where "t0 = EvConfig (hpssix_sysconf_file E) # tr"
  define r where "r = env_stat E t0 (mdb_path E)"
  define t1 where "t1 = EvStat (mdb_path E) r # t0"
  have rep: "sq_replay mdb_sem s0 t1 = sq_replay mdb_sem s0 tr" "sq_replay mdb_sem s0 t0 = sq_replay mdb_sem s0 tr"
    by (simp_all add: t1_def t0_def)
  define c where "c = snd (env_sqlite3_open E t1 (mdb_path E))"
  have op: "env_sqlite3_open E t1 (mdb_path E) = (0, c)"
    using live_calls(1) [OF live, of t1 "mdb_path E"] by (simp add: c_def prod_eq_iff)
  let ?t2 = "EvSqPrepare c mdb_sql_fetch_record 0 # EvSqPrepare c mdb_sql_last_status 0 #
    EvSqPrepare c mdb_sql_last_oid 0 # EvSqPrepare c mdb_sql_record 0 #
    (if isl r then [EvSqExec c mdb_schema 0] else []) @ EvSqOpen (mdb_path E) 0 c # t1"
  let ?db = "\<lparr>dbpath = mdb_path E, schema = Some mdb_schema, tmpdb_conn = Some c, n_sql = 4,
     sqlstr = mdb_sqls, tmpdb_stmt = Some (map (mdb_stmt c) mdb_sqls)\<rparr>"
  have four: "prepare_loop E c 4 = prepare_loop E c (Suc (Suc (Suc (Suc 0))))"
    by (simp add: eval_nat_numeral)
  show ?thesis
  proof (cases "case r of Inl e \<Rightarrow> e \<noteq> ENOENT | Inr _ \<Rightarrow> False")
    case True
    then have "hpssix_mdb_open E (Some m) tr = (Ret (- 1, Some (m\<lparr>mdb_config := cfg\<rparr>)), t1)"
      using cfg by (simp add: hpssix_mdb_open_def bind_io_apply Let_def mdb_dbpath [OF fits] c_stat_def
          t1_def r_def t0_def split: sum.splits)
    then show ?thesis using rep by auto
  next
    case False
    have "hpssix_mdb_open E (Some m) tr = (Ret (0, Some \<lparr>mdb_config = cfg, mdb_db = ?db\<rparr>), ?t2)"
      using cfg op False
      by (simp add: hpssix_mdb_open_def bind_io_apply hpssix_tmpdb_open_def sqlite3_open_def
          Let_def hpssix_tmpdb_exec_simple_sql_def sqlite3_exec_def tmpdb_prepare_stmt_def alloc_def
          live_calls [OF live] mdb_sqls_def sqlite3_prepare_def tmpdb_zero_def c_stat_def
          mdb_dbpath [OF fits] mdb_stmt_def four t1_def [symmetric] r_def [symmetric] t0_def [symmetric])
    moreover have "env_stat E t0 (mdb_path E) = Inl ENOENT \<Longrightarrow> hist = []"
      using store hist rep(2) unfolding mdb_store_def history_in_def by (metis map_is_Nil_conv)
    then have "isl r \<Longrightarrow> hist = []" using False by (auto simp: r_def isl_def)
    then have "mdb_holds E s0 \<lparr>mdb_config = cfg, mdb_db = ?db\<rparr> c ?t2 hist \<and> conn_on s0 ?t2 c (mdb_path E)"
      using live sound hist rep(1)
      by (auto simp: mdb_holds_def Let_def mdb_ready_def prepared_def mdb_sqls_def mdb_stmt_def
          sq_view_def sq_write_def conn_on_def history_in_def)
    ultimately show ?thesis by auto
  qed
qed

section \<open>No other file is opened\<close>

definition open_see :: "event \<Rightarrow> (string \<times> int \<times> nat) list" where
  "open_see ev = (case ev of EvSqOpen p r c \<Rightarrow> [(p, r, c)] | _ \<Rightarrow> [])"

interpretation opn: dir_observer open_see
  by unfold_locales (simp_all add: open_see_def)

lemma sq_path_obs:
  "sq_path (sq_replay sem s0 tr) = fold (\<lambda>(p, r, c) f. if r = SQLITE_OK then f(c := p) else f) (obs open_see tr) (sq_path s0)"
proof (induction tr)
  case (Cons ev tr)
  have "sq_path (sq_event sem (EvSqStep st r) s) = sq_path s" for st r s
    by (cases st) (auto simp: sq_write_def split: sql_sem.splits option.splits)
  moreover have "sq_path (sq_event sem (EvSqExec c sql r) s) = sq_path s" for c sql r s
    by (auto simp: sq_write_def split: sql_sem.splits option.splits)
  moreover have "sq_path (sq_event sem (EvSqBindInt st i v r) s) = sq_path s"
    "sq_path (sq_event sem (EvSqBindText st i t r) s) = sq_path s"
    "sq_path (sq_event sem (EvSqReset st) s) = sq_path s" for st i v t r s
    by (cases st; simp)+
  ultimately show ?case using Cons by (cases ev) (simp_all add: open_see_def Let_def fun_upd_def)
qed simp

lemma keeps_conn: "keeps open_see p \<Longrightarrow> p tr = (r, tr') \<Longrightarrow> conn_on s0 tr c path \<Longrightarrow> conn_on s0 tr' c path"
  by (simp add: conn_on_def sq_path_obs keepsD)

lemma opn_keeps [simp, keeps_intros]:
  "keeps open_see (c_popen E cmd)" "keeps open_see (c_pclose s)" "keeps open_see (clnt_create E h p)"
  "keeps open_see (clnt_destroy p)" "keeps open_see (clnt_call E p n a)" "keeps open_see (c_puts str)"
  "keeps open_see (sqlite3_exec E c q)" "keeps open_see (sqlite3_bind_int64 E st i v)"
  "keeps open_see (sqlite3_step E st)" "keeps open_see (sqlite3_reset st)" "keeps open_see (sqlite3_close c)"
  by (auto simp: keeps_def prim_defs open_see_def split: prod.splits)

lemma opn_keeps_mdb [keeps_intros]:
  "keeps open_see (hpssix_mdb_record E mdb ws)" "keeps open_see (hpssix_mdb_get_last_scanned_status E mdb)"
  "keeps open_see (hpssix_mdb_close mdb)"
proof -
  have retry: "keeps open_see (step_retry n E st)" for n st
    by (induction n) (auto intro!: keeps_intros)
  have binds: "keeps open_see (bind_all E st i vs bad)" for st i vs bad
    by (induction vs arbitrary: i bad) (auto simp: bind_all.simps intro!: keeps_intros)
  have exec: "keeps open_see (hpssix_tmpdb_exec_simple_sql E db sql)" for db sql
    unfolding hpssix_tmpdb_exec_simple_sql_def by (intro keeps_intros)
  show "keeps open_see (hpssix_mdb_record E mdb ws)" "keeps open_see (hpssix_mdb_get_last_scanned_status E mdb)"
    "keeps open_see (hpssix_mdb_close mdb)"
    unfolding hpssix_mdb_record_def hpssix_mdb_get_last_scanned_status_def hpssix_mdb_close_def hpssix_tmpdb_close_def
      hpssix_tmpdb_begin_transaction_def hpssix_tmpdb_end_transaction_def hpssix_tmpdb_rollback_transaction_def Let_def
    by (intro keeps_intros retry binds exec)+
qed

text \<open>The parts of a scan besides the master database: neither its rows nor its connection change.\<close>

lemma keeps_rpc_run [keeps_intros]:
  "(\<And>h p. keeps see (clnt_create E h p)) \<Longrightarrow> (\<And>p n a. keeps see (clnt_call E p n a)) \<Longrightarrow>
     (\<And>p. keeps see (clnt_destroy p)) \<Longrightarrow> keeps see (rpc_run_worker E config worker task)"
  unfolding rpc_run_worker_def builder_run_1_def extractor_run_1_def by (intro keeps_intros) auto

lemma opn_keeps_scan: "keeps open_see (scan_and_run E config mdb ws)"
  unfolding scan_and_run_def launch_scanner_process_def ask_workers_def
  by (intro keeps_intros opn.keeps_dir_prims opn.keeps_datadir opn_keeps opn_keeps_mdb)

section \<open>A scan and the history\<close>

lemma launch_holds:
  assumes holds: "mdb_holds E s0 m c tr hist"
    and run: "launch_scanner_process E config m outdir ws tr = (Ret (ret, ws'), tr')"
  shows "mdb_holds E s0 m c tr' hist"
proof -
  obtain last tr1 where 1: "hpssix_mdb_get_last_scanned_status E (Some m) tr = (Ret (0, Some last), tr1)"
    "mdb_holds E s0 m c tr1 hist"
    using mdb_last_status_run [OF holds] by blast
  from run obtain k where k: "k tr1 = (Ret (ret, ws'), tr')" "keeps sq_see k"
    unfolding launch_scanner_process_def bind_io_Ret [where m = "hpssix_mdb_get_last_scanned_status E (Some m)", OF 1(1)]
    by (simp only: prod.case) (rule that, assumption, intro keeps_intros sq_keeps sq.keeps_dir_prims)
  show ?thesis using mdb_holds_keeps [OF 1(2) k(2,1)] .
qed

text \<open>A program that leaves the history or adds one entry with the property \<open>P\<close>.\<close>

definition adds_entry ::
  "env \<Rightarrow> sqstate \<Rightarrow> hpssix_mdb \<Rightarrow> (hpssix_work_status \<Rightarrow> bool) \<Rightarrow> 'a io \<Rightarrow> bool" where
  "adds_entry E s0 m P p \<longleftrightarrow> (\<forall>c hist tr x tr'. mdb_holds E s0 m c tr hist \<longrightarrow> p tr = (Ret x, tr') \<longrightarrow>
     mdb_holds E s0 m c tr' hist \<or> (\<exists>ws. mdb_holds E s0 m c tr' (hist @ [ws]) \<and> P ws))"

lemma adds_entry_bind:
  assumes "\<And>c hist tr x tr'. mdb_holds E s0 m c tr hist \<Longrightarrow> p tr = (Ret x, tr') \<Longrightarrow> mdb_holds E s0 m c tr' hist"
    and "\<And>tr x tr'. p tr = (Ret x, tr') \<Longrightarrow> adds_entry E s0 m P (f x)"
  shows "adds_entry E s0 m P (bind_io p f)"
  unfolding adds_entry_def bind_io_eq_Ret_iff using assms unfolding adds_entry_def by blast

lemma adds_entry_keeps:
  assumes "keeps sq_see p" and "\<And>x. adds_entry E s0 m P (f x)"
  shows "adds_entry E s0 m P (bind_io p f)"
  using assms by (intro adds_entry_bind) (auto intro: mdb_holds_keeps)

lemma adds_entry_intros:
  "adds_entry E s0 m P (return_io x)"
  "(b \<Longrightarrow> adds_entry E s0 m P p) \<Longrightarrow> (\<not> b \<Longrightarrow> adds_entry E s0 m P q) \<Longrightarrow> adds_entry E s0 m P (if b then p else q)"
  "(\<And>x y. adds_entry E s0 m P (k x y)) \<Longrightarrow> adds_entry E s0 m P (case pr of (x, y) \<Rightarrow> k x y)"
  by (auto simp: adds_entry_def split: prod.splits)

lemma adds_entry_record:
  "(\<And>i. P (ws\<lparr>ws_id := i\<rparr>)) \<Longrightarrow> adds_entry E s0 m P (hpssix_mdb_record E (Some m) (Some ws))"
  unfolding adds_entry_def using mdb_record_run [of E s0 m _ _ _ ws] by (metis Pair_inject)

definition scan_entry :: "hpssix_work_status \<Rightarrow> bool" where
  "scan_entry ws \<longleftrightarrow> ws_status ws = 0 \<and> n_scanned ws + n_deleted ws \<noteq> 0"

lemma ask_workers_adds:
  "n_scanned ws + n_deleted ws \<noteq> 0 \<Longrightarrow> adds_entry E s0 m scan_entry (ask_workers E config m ws)"
  unfolding ask_workers_def
  by (intro adds_entry_keeps adds_entry_intros adds_entry_record keeps_lift sq.keeps_dir_prims keeps_rpc_run sq_keeps)
    (simp add: scan_entry_def)

lemma scan_adds: "adds_entry E s0 m scan_entry (scan_and_run E config m ws)"
  unfolding scan_and_run_def
  by (intro adds_entry_keeps [OF sq.keeps_datadir] adds_entry_keeps [OF sq.keeps_dir_prims(1)] adds_entry_intros
      adds_entry_bind [where p = "launch_scanner_process E config m _ _"] ask_workers_adds)
    (auto dest: launch_holds)

lemma mdb_holds_file:
  "mdb_holds E s0 m c tr hist \<Longrightarrow> conn_on s0 tr c (mdb_path E) \<Longrightarrow> history_in E s0 tr hist"
  by (auto simp: mdb_holds_def history_in_def conn_on_def sq_view_def Let_def)

lemma do_scanner_simulates:
  assumes store: "mdb_store E s0" and hist: "history_in E s0 tr hist"
    and run: "do_scanner E config st tr = (Ret (ret, st'), tr')"
  shows "\<exists>hist'. history_step hist hist' \<and> history_in E s0 tr' hist'"
proof (cases "builder_running st \<and> extractor_running st")
  case False
  then have "tr' = EvTime (env_time E tr) # tr"
    using run by (cases "builder_running st") (auto simp: do_scanner_def bind_ext c_time_def)
  then show ?thesis using hist history_step.stutter by (auto simp: history_in_def)
next
  case True
  let ?t0 = "EvTime (env_time E tr) # tr"
  have "history_in E s0 ?t0 hist" using hist by (simp add: history_in_def)
  from mdb_open_run [OF store this, of "sc_mdb st"]
  obtain r m t1 where o: "hpssix_mdb_open E (Some (sc_mdb st)) ?t0 = (Ret (r, Some m), t1)"
    "if r = 0 then \<exists>c. mdb_holds E s0 m c t1 hist \<and> conn_on s0 t1 c (mdb_path E)
      else sq_replay mdb_sem s0 t1 = sq_replay mdb_sem s0 ?t0" by blast
  show ?thesis
  proof (cases "r = 0")
    case False
    then have "tr' = t1" using run True o(1) by (auto simp: do_scanner_def c_time_def bind_ext bind_io_Ret)
    then show ?thesis using False o(2) hist history_step.stutter by (auto simp: history_in_def)
  next
    case zero: True
    then obtain c where c: "mdb_holds E s0 m c t1 hist" "conn_on s0 t1 c (mdb_path E)" using o(2) by auto
    obtain v t2 where s: "scan_and_run E config m (work_status_zero\<lparr>ws_id := env_time E tr\<rparr>) t1 = (Ret v, t2)"
      "then_io (hpssix_mdb_close (Some m)) (return_io (v, st\<lparr>sc_mdb := m\<rparr>)) t2 = (Ret (ret, st'), tr')"
      using run True o(1) zero by (auto simp: do_scanner_def c_time_def bind_ext bind_io_Ret bind_io_eq_Ret_iff)
    obtain hist' where h: "mdb_holds E s0 m c t2 hist'" "history_step hist hist'"
      using scan_adds [of E s0 m config] c(1) s(1) history_step.intros
      unfolding adds_entry_def scan_entry_def by blast
    have "tmpdb_conn (mdb_db m) = Some c"
      using h(1) by (simp add: mdb_holds_def mdb_ready_def prepared_def Let_def)
    then have "tr' = EvSqClose c # t2"
      using s(2) by (simp add: hpssix_mdb_close_def hpssix_tmpdb_close_def then_io_def sqlite3_close_def bind_io_apply)
    moreover have "conn_on s0 t2 c (mdb_path E)" using keeps_conn [OF opn_keeps_scan s(1) c(2)] .
    ultimately show ?thesis using mdb_holds_file [OF h(1)] h(2) by (auto simp: history_in_def)
  qed
qed

lemma rpc_step_history:
  assumes "keeps sq_see p" and "p tr = (r, tr')" and "history_in E s0 tr hist"
  shows "history_in E s0 tr' hist"
  using assms by (simp add: history_in_def keeps_replay)

lemma scanner_step_simulates:
  assumes "scanner_step E config s s'" and "mdb_store E s0" and "history_in E s0 (snd s) hist"
  shows "\<exists>hist'. history_step hist hist' \<and> history_in E s0 (snd s') hist'"
  using assms
proof (induction rule: scanner_step.induct)
  case (serve p arg st tr reply st' tr')
  then show ?case using serve_connect(1) [OF serve(1)] history_step.stutter by auto
next
  case (schedule tr tr' st)
  have "keeps sq_see (register_alarm E config)"
    unfolding register_alarm_def Let_def
    by (intro keeps_intros sq.keeps_dir_prims) (simp add: c_alarm_def keeps_ext sq_see_def)
  then show ?case using rpc_step_history schedule history_step.stutter by fastforce
next
  case (signal tr sig tr' st)
  have "keeps sq_see (c_sigwait E)" unfolding c_sigwait_def by (rule keeps_ext) (auto simp: sq_see_def)
  then show ?case using rpc_step_history signal history_step.stutter by fastforce
next
  case (scan st tr ret st' tr')
  then show ?case using do_scanner_simulates by fastforce
qed

text \<open>
  C22: the daemon refines the abstract history.  Over every sequence of steps of the
  scanner daemon, on a working SQLite, the contents of the master database evolve by
  abstract steps only: entries are never changed or lost, and each new one is a
  successful scan that found something.
\<close>

theorem scanner_refines_history:
  assumes run: "(scanner_step E config)\<^sup>*\<^sup>* (st, tr) (st', tr')"
    and store: "mdb_store E s0" and hist: "history_in E s0 tr hist"
  shows "\<exists>hist'. history_step\<^sup>*\<^sup>* hist hist' \<and> history_in E s0 tr' hist' \<and> prefix hist hist' \<and>
     (\<forall>ws\<in>set (drop (length hist) hist'). ws_status ws = 0 \<and> n_scanned ws + n_deleted ws \<noteq> 0)"
proof -
  have "\<exists>hist'. history_step\<^sup>*\<^sup>* hist hist' \<and> history_in E s0 (snd (st', tr')) hist'"
    using run
  proof (induction rule: rtranclp_induct)
    case base
    then show ?case using hist by auto
  next
    case (step s s')
    then show ?case using scanner_step_simulates [OF step(2) store] by (meson rtranclp.rtrancl_into_rtrancl)
  qed
  then obtain hist' where h: "history_step\<^sup>*\<^sup>* hist hist'" "history_in E s0 tr' hist'" by auto
  from h(1) have "\<exists>new. hist' = hist @ new \<and> (\<forall>ws\<in>set new. ws_status ws = 0 \<and> n_scanned ws + n_deleted ws \<noteq> 0)"
  proof (induction rule: rtranclp_induct)
    case (step h1 h2)
    from step(2) show ?case
    proof cases
      case (scanned ws)
      from step(3) obtain new where new: "h1 = hist @ new"
        "\<forall>ws\<in>set new. ws_status ws = 0 \<and> n_scanned ws + n_deleted ws \<noteq> 0" by blast
      show ?thesis by (intro exI [of _ "new @ [ws]"]) (use scanned new in auto)
    qed (use step in simp)
  qed simp
  then show ?thesis using h by (auto simp: prefix_def)
qed

text \<open>The witness: a database file with one entry; both workers connect and a signal arrives.\<close>

definition store_env :: "hpssix_work_status list \<Rightarrow> env" where
  "store_env hist = ref_sqlite mdb_sem (sample_sq hist) (sample_env\<lparr>env_stat := \<lambda>_ _. Inr sample_stat\<rparr>)"

lemma store_env_ok: "mdb_store (store_env hist) (sample_sq hist)"
proof -
  have "env_stat (store_env hist) tr p = Inr sample_stat" for tr p
    by (simp add: store_env_def ref_sqlite_def)
  moreover have "length (mdb_path (store_env hist)) < PATH_MAX"
    by (simp add: mdb_path_def hpssix_get_work_root_def mdb_name_def store_env_def ref_sqlite_def sample_env_def quiet_env_def)
  ultimately show ?thesis
    by (simp add: mdb_store_def) (simp add: store_env_def ref_sqlite_live ref_sqlite_sound)
qed

theorem scanner_refines_history_witness:
  "\<exists>hist'. history_step\<^sup>*\<^sup>* [scan_out] hist' \<and>
     history_in (store_env [scan_out]) (sample_sq [scan_out]) [EvSigwait 15] hist' \<and> prefix [scan_out] hist'"
proof -
  have "env_sigwait (store_env [scan_out]) [] = (0, 15)"
    by (simp add: store_env_def ref_sqlite_def sample_env_def quiet_env_def)
  note run = connected_run [OF this, of config_zero]
  have "history_in (store_env [scan_out]) (sample_sq [scan_out]) [] [scan_out]"
    by (simp add: history_in_def sample_sq_def)
  from scanner_refines_history [OF run store_env_ok this] show ?thesis by blast
qed

end
