(* ===== verification/Hpssix_Pipeline.thy ===== *)
theory Hpssix_Pipeline
  imports Hpssix_Extractor_Run
begin

text \<open>
  The two worker programs together: what a run of hpssix-builder that succeeds
  leaves in its file is what a run of hpssix-extractor on that file works through.
\<close>

section \<open>A run of the builder up to its last phase\<close>

text \<open>Whatever part \<open>g\<close> of its data the line processor leaves alone, a bulk load leaves alone.\<close>

lemma copy_lines_view:
  assumes "\<And>f l d tr r b d' tr'. proc = Some f \<Longrightarrow> f l d tr = (Ret (r, b, d'), tr') \<Longrightarrow> g d' = g d"
  shows "copy_lines E db proc ls n d tr = (Ret (r, n', d'), tr') \<Longrightarrow> g d' = g d"
proof (induction ls arbitrary: n d tr)
  case (Cons l ls)
  show ?case
  proof (cases "is_line_empty (Some l)")
    case True
    then show ?thesis using Cons by simp
  next
    case False
    with Cons.prems obtain r1 b1 d1 tr1 where
      1: "(case proc of None \<Rightarrow> return_io (0, l, d) | Some f \<Rightarrow> f l d) tr = (Ret (r1, b1, d1), tr1)"
      and 2: "d' = d1 \<or> (\<exists>m tr2. copy_lines E db proc ls m d1 tr2 = (Ret (r, n', d'), tr'))"
      by (auto simp: bind_io_eq_Ret_iff split: if_splits) blast+
    have "g d1 = g d" using 1 assms by (auto split: option.splits)
    then show ?thesis using 2 Cons.IH by auto
  qed
qed simp

lemma copy_fail_data: "copy_fail E db cp n d r tr = (Ret (r', cp', d'), tr') \<Longrightarrow> d' = d"
  by (auto simp: copy_fail_def then_io_def bind_io_eq_Ret_iff)

lemma copy_finish_data: "copy_finish E db cp n d tr = (Ret (r, cp', d'), tr') \<Longrightarrow> d' = d"
  by (auto simp: copy_finish_def try_io_def bind_io_eq_Ret_iff dest: copy_fail_data split: if_splits)

lemma copy_stream_view:
  assumes "\<And>f l d tr r b d' tr'. line_processor cp = Some f \<Longrightarrow> f l d tr = (Ret (r, b, d'), tr') \<Longrightarrow> g d' = g d"
    and "copy_stream E db cp d ls ferr tr = (Ret (r, cp', d'), tr')"
  shows "g d' = g d"
  using assms(2) copy_lines_view [where g = g, OF assms(1)]
  by (auto simp: copy_stream_def then_io_def try_io_def bind_io_eq_Ret_iff
      dest!: copy_fail_data copy_finish_data split: if_splits)

lemma load_csv_view:
  assumes "\<And>f l d tr r b d' tr'. proc = Some f \<Longrightarrow> f l d tr = (Ret (r, b, d'), tr') \<Longrightarrow> g d' = g d"
    and "load_csv E self type ini cpy fin proc tr = (Ret (r, self'), tr')"
  shows "g self' = g self"
proof -
  have "g d' = g d" if "copy_stream E db \<lparr>atomic = a, stmt_init = i, stmt_copy = c, stmt_fini = f,
      input_csv = csv, copy_n_processed = n, line_processor = proc\<rparr> d ls ferr tr1 = (Ret (r1, cp', d'), tr2)"
    for db a i c f csv n d ls ferr tr1 r1 cp' d' tr2
    using that by (rule copy_stream_view [rotated]) (simp add: assms(1))
  then show ?thesis
    using assms(2)
    apply (auto simp: load_csv_def hpssix_db_copy_def bind_io_eq_Ret_iff lift_io_def split: option.splits)
    subgoal for name cp answer by (cases answer) (auto simp: bind_io_eq_Ret_iff)
    done
qed

text \<open>The builder before its first phase, and the part of it that no phase changes.\<close>

definition start_builder :: "hpssix_config \<Rightarrow> hpssix_db \<Rightarrow> hpssix_extfilter \<Rightarrow> u64 \<Rightarrow> string \<Rightarrow> hpssix_builder" where
  "start_builder config db flt t dir = \<lparr>b_config = config, b_db = db, b_filter = flt, b_task_id = t,
     b_datadir = dir, b_n_processed = 0, b_n_regular_files = 0\<rparr>"

definition uncounted :: "hpssix_builder \<Rightarrow> hpssix_builder" where
  "uncounted self = self\<lparr>b_n_processed := 0\<rparr>"

lemma loads_uncounted:
  "hpssix_builder_process_fattr E self tr = (Ret (r, self'), tr') \<Longrightarrow> uncounted self' = uncounted self"
  "hpssix_builder_process_path E self tr = (Ret (r, self'), tr') \<Longrightarrow> uncounted self' = uncounted self"
  "hpssix_builder_process_deleted E self tr = (Ret (r, self'), tr') \<Longrightarrow> uncounted self' = uncounted self"
proof -
  have proc: "uncounted d' = uncounted d"
    if "builder_fattr_line_processor l d tr1 = (Ret (r1, b, d'), tr2)" for l d tr1 r1 b d' tr2
    using that by (auto simp: builder_fattr_line_processor_def bind_io_eq_Ret_iff lift_io_def uncounted_def
        split: option.splits sum.splits)
  show "hpssix_builder_process_fattr E self tr = (Ret (r, self'), tr') \<Longrightarrow> uncounted self' = uncounted self"
    unfolding hpssix_builder_process_fattr_def by (erule load_csv_view [rotated]) (auto dest: proc)
  show "hpssix_builder_process_path E self tr = (Ret (r, self'), tr') \<Longrightarrow> uncounted self' = uncounted self"
    "hpssix_builder_process_deleted E self tr = (Ret (r, self'), tr') \<Longrightarrow> uncounted self' = uncounted self"
    unfolding hpssix_builder_process_path_def hpssix_builder_process_deleted_def
    by (erule load_csv_view [rotated], simp)+
qed

lemma phases_reach_work_list:
  assumes "builder_phases E self tr = (Ret 0, tr')"
  obtains self1 tr1 self2 tr2 where "uncounted self1 = uncounted self"
    "hpssix_builder_create_workdata E self1 tr1 = (Ret (0, self2), tr2)" "tr' = EvOut (builder_report self2) # tr2"
  using assms
  by (auto simp: builder_phases_def then_io_def try_io_def bind_io_eq_Ret_iff c_puts_def
      dest!: loads_uncounted split: if_splits)

lemma keeps_sq_exec [keeps_intros]: "keeps sq_see (hpssix_db_psql_exec E db cmd)"
  unfolding hpssix_db_psql_exec_def by (intro keeps_intros keeps_sq_prims)

text \<open>A run that returns 0 has gone through its last phase; what follows does not touch SQLite.\<close>

lemma do_builder_reaches_work_list:
  assumes "do_builder E config flt t dir tr = (Ret 0, tr')"
  obtains db self tr1 self2 tr2 where "uncounted self = start_builder config db flt t dir"
    "hpssix_builder_create_workdata E self tr1 = (Ret (0, self2), tr2)" "obs sq_see tr' = obs sq_see tr2"
proof -
  obtain db trb trc where phases: "builder_phases E (start_builder config db flt t dir) trb = (Ret 0, trc)"
    and rest: "then_io (hpssix_db_end_transaction E db) (then_io (hpssix_db_disconnect (Some db)) (return_io (0 :: int))) trc
      = (Ret 0, tr')"
    using assms
    by (auto simp: do_builder_def start_builder_def then_io_def bind_io_eq_Ret_iff Let_def lift_io_def
        split: if_splits option.splits)
  have "keeps sq_see (then_io (hpssix_db_end_transaction E db) (then_io (hpssix_db_disconnect (Some db)) (return_io (0 :: int))))"
    unfolding hpssix_db_end_transaction_def by (intro keeps_intros)
  then have same: "obs sq_see tr' = obs sq_see trc" using rest by (rule keepsD)
  obtain self1 tr1 self2 tr2 where "uncounted self1 = uncounted (start_builder config db flt t dir)"
    "hpssix_builder_create_workdata E self1 tr1 = (Ret (0, self2), tr2)" "trc = EvOut (builder_report self2) # tr2"
    using phases by (rule phases_reach_work_list)
  then show thesis
    using that same by (simp add: uncounted_def start_builder_def sq_see_def)
qed

section \<open>A run of the extractor\<close>

text \<open>
  The extractor from the opening of its list on: it counts the objects, starts its
  threads and ends.  What the environment is assumed to allow is a memory block, the
  threads, and a run of each of them, in any order.
\<close>

definition threads_run :: "env \<Rightarrow> (nat \<Rightarrow> nat list) \<Rightarrow> u64 \<Rightarrow> bool" where
  "threads_run E order n \<longleftrightarrow> n \<noteq> 0 \<and> (\<forall>tr. env_alloc E tr (8 * unat n)) \<and>
     (\<forall>tr. env_sys E tr ''pthread_create'' = 0) \<and> mset (order (unat n)) = mset [0..<unat n]"

lemma start_threads_all:
  assumes "\<forall>tr. env_sys E tr ''pthread_create'' = 0"
  shows "\<exists>tr'. start_threads E k m tr = (Ret (0, m + k), tr') \<and> obs sq_see tr' = obs sq_see tr \<and>
     obs stat_see tr' = obs stat_see tr"
proof (induction k arbitrary: m tr)
  case (Suc k)
  then show ?case
    using assms Suc [of "Suc m" "EvSys ''pthread_create'' 0 # tr"]
    by (simp add: bind_io_apply c_sys_def sq_see_def stat_see_def)
qed simp

lemma returns_join [returns_intros]: "returns (join_threads E k r)"
  by (induction k arbitrary: r) (auto intro!: returns_intros)

lemma keeps_join [keeps_intros]: "keeps stat_see (join_threads E k r)"
  by (induction k arbitrary: r) (auto intro!: keeps_intros)

lemma finish_extraction [returns_intros, keeps_intros]:
  "returns (extractor_finish elapsed r n)" "keeps stat_see (extractor_finish elapsed r n)"
  unfolding extractor_finish_def by (intro returns_intros keeps_intros keeps_stat_prims; simp)+

lemma extractor_threads_try:
  assumes ready: "work_ready E s0 v objs tr" and up: "db_up E (xconfig v)" and quiet: "\<not> verbose v"
    and fits: "\<forall>x\<in>set objs. length (file_of v x) < PATH_MAX"
    and len: "length objs = unat (total_objects v)" "length objs < 2 ^ 63"
    and run: "threads_run E order (nthreads v)"
  shows "\<exists>r tr' tried. extractor_threads E v order elapsed tr = (Ret r, tr') \<and>
     obs stat_see tr' = obs stat_see tr @ tried \<and> mset tried = mset (map (file_of v) objs)"
proof -
  have E: "env_alloc E tr (8 * unat (nthreads v))" "nthreads v \<noteq> 0"
    "mset (order (unat (nthreads v))) = mset [0..<unat (nthreads v)]" "\<forall>tr. env_sys E tr ''pthread_create'' = 0"
    using run by (simp_all add: threads_run_def)
  obtain tr1 where 1: "start_threads E (unat (nthreads v)) 0 tr = (Ret (0, unat (nthreads v)), tr1)"
    "obs sq_see tr1 = obs sq_see tr" "obs stat_see tr1 = obs stat_see tr"
    using start_threads_all [OF E(4), of "unat (nthreads v)" 0 tr] by auto
  have "work_ready E s0 v objs tr1"
    using ready 1(2) by (simp add: work_ready_def sq_replay_obs)
  then obtain n tr2 tried where 2: "run_workers E v (order (unat (nthreads v))) 0 tr1 = (Ret n, tr2)"
    "obs stat_see tr2 = obs stat_see tr1 @ tried" "mset tried = mset (map (file_of v) objs)"
    using extractor_tries_every_object [OF _ up quiet fits len E(2,3)] by blast
  let ?closing = "bind_io (join_threads E (unat (nthreads v)) 0) (\<lambda>r. extractor_finish elapsed r n)"
  have "returns ?closing" "keeps stat_see ?closing" by (intro returns_intros keeps_intros finish_extraction)+
  then obtain r tr3 where 3: "?closing tr2 = (Ret r, tr3)" "obs stat_see tr3 = obs stat_see tr2"
    by (metis keepsD returnsE)
  have "extractor_threads E v order elapsed tr = (Ret r, tr3)"
    using E(1) 1(1) 2(1) 3(1) by (simp add: extractor_threads_def alloc_def bind_io_Ret)
  then show ?thesis using 1(3) 2(2,3) 3(2) by auto
qed

text \<open>The main program, on a list that is ready: the file of the list is looked at first.\<close>

definition extractor_served ::
  "env \<Rightarrow> hpssix_config \<Rightarrow> string \<Rightarrow> trace \<Rightarrow> bool" where
  "extractor_served E config path tr \<longleftrightarrow>
     fst (hpssix_config_read_sysconf E (Some config_zero) tr) = Ret (0, Some config) \<and> db_up E config \<and>
     (\<forall>tr. \<exists>sb. env_stat E tr path = Inr sb \<and> 0 < sint (st_size sb))"

lemma keeps_sysconf [keeps_intros]:
  "keeps sq_see (hpssix_config_read_sysconf E c)" "keeps stat_see (hpssix_config_read_sysconf E c)"
proof -
  have "keeps sq_see (config_read_file E p)" for p
    by (simp add: keeps_def config_read_file_def sq_see_def)
  then show "keeps sq_see (hpssix_config_read_sysconf E c)"
    unfolding hpssix_config_read_sysconf_def by (intro keeps_intros keeps_silent [OF silent_read_sections])
  show "keeps stat_see (hpssix_config_read_sysconf E c)"
    unfolding hpssix_config_read_sysconf_def
    by (intro keeps_intros keeps_stat_prims keeps_silent [OF silent_read_sections])
qed

lemma keeps_stat_count [keeps_intros]: "keeps stat_see (hpssix_workdata_get_total_count E wd)"
proof -
  have "keeps stat_see (step_retry k E st)" for k st
    by (induction k) (auto intro!: keeps_intros)
  then show ?thesis
    unfolding hpssix_workdata_get_total_count_def Let_def by (intro keeps_intros keeps_stat_prims)
qed

lemma files_count:
  assumes "wd_ready wd c"
  shows "preserves (files_are s0 F) (hpssix_workdata_get_total_count E (Some wd))"
proof -
  have "preserves (files_are s0 F) (sqlite3_step E (Some (count_stmt c)))"
    by (auto simp: preserves_def files_are_def prim_defs Let_def split: prod.splits)
  then have "preserves (files_are s0 F) (step_retry k E (Some (count_stmt c)))" for k
    by (induction k) (auto intro!: preserves_bind)
  then show ?thesis
    unfolding hpssix_workdata_get_total_count_def Let_def
    by (auto simp: wd_stmts [OF assms] split: option.splits sum.splits intro!: preserves_bind preserves_then)
qed

text \<open>Opening the list, counting its objects and closing it again leaves it as it is.\<close>

lemma list_counted:
  assumes ready: "work_ready E s0 v objs tr"
  obtains wd tr1 tr2 tr3 where
    "hpssix_workdata_open E (Some workdata_zero) (Some (xdbpath v)) tr = (Ret (0, Some wd), tr1)"
    "hpssix_workdata_get_total_count E (Some wd) tr1 = (Ret (0, Some (of_nat (length objs))), tr2)"
    "hpssix_workdata_close (Some wd) tr2 = (Ret 0, tr3)"
    "work_ready E s0 v objs tr3" "obs stat_see tr3 = obs stat_see tr"
proof -
  obtain wd c tr1 where op: "hpssix_workdata_open E (Some workdata_zero) (Some (xdbpath v)) tr
      = (Ret (0, Some wd), tr1)" "wd_queue E s0 wd c tr1 objs"
    using workdata_open_queue [of s0 E tr "xdbpath v"] ready unfolding work_ready_def by blast
  obtain tr2 where cnt: "hpssix_workdata_get_total_count E (Some wd) tr1
      = (Ret (0, Some (of_nat (length objs))), tr2)"
    using wd_queue_total_count [OF op(2)] by blast
  have rd: "wd_ready wd c" using op(2) by (simp add: wd_queue_def Let_def)
  obtain tr3 where "hpssix_workdata_close (Some wd) tr2 = (Ret 0, tr3)"
    "work_ready E s0 v objs tr3" "obs stat_see tr3 = obs stat_see tr"
    using work_list_session [OF ready op(1) files_count [OF rd] keeps_stat_count cnt] by blast
  then show thesis using that op(1) cnt by blast
qed

lemma extractor_main_tries:
  assumes opts: "extractor_options opts 0 False = return_io (nt, False)"
    and ready: "sqlite_live wd_sem s0 E" "sqlite_sound wd_sem s0 E"
      "wd_rows_ok (sq_file (sq_replay wd_sem s0 tr) path)" "wd_items (sq_file (sq_replay wd_sem s0 tr) path) = objs"
    and env: "extractor_served E config path tr" and mount: "hpss_mountpoint config = Some m"
    and run: "threads_run E order (if nt = 0 then ucast (extractor_nthreads config) else nt)"
    and fits: "\<forall>x\<in>set objs. length (m @ obj_path x) < PATH_MAX" and len: "length objs < 2 ^ 63"
  shows "\<exists>r tr' tried. extractor_main E opts [path] order elapsed tr = (Ret r, tr') \<and>
     obs stat_see tr' = obs stat_see tr @ path # tried \<and> mset tried = mset (map (\<lambda>x. m @ obj_path x) objs)"
proof -
  define v where "v = \<lparr>nthreads = if nt = 0 then ucast (extractor_nthreads config) else nt,
     total_objects = of_nat (length objs), xconfig = config, xdbpath = path, verbose = False\<rparr>"
  have v: "nthreads v = (if nt = 0 then ucast (extractor_nthreads config) else nt)"
    "total_objects v = of_nat (length objs)" "xconfig v = config" "xdbpath v = path" "\<not> verbose v"
    "file_of v = (\<lambda>x. m @ obj_path x)"
    by (simp_all add: v_def file_of_def mount fun_eq_iff)
  obtain tr1 where cfg: "hpssix_config_read_sysconf E (Some config_zero) tr = (Ret (0, Some config), tr1)"
    using env unfolding extractor_served_def by (metis prod.collapse)
  obtain sb where stat: "env_stat E tr1 path = Inr sb" "0 < sint (st_size sb)"
    using env by (auto simp: extractor_served_def)
  let ?tr2 = "EvStat path (Inr sb) # tr1"
  have chk: "check_builder_output E path tr1 = (Ret 0, ?tr2)"
    using stat by (simp add: check_builder_output_def c_stat_def bind_io_apply)
  have "sq_replay wd_sem s0 ?tr2 = sq_replay wd_sem s0 tr"
    using keepsD [OF keeps_sysconf(1) cfg] by (simp add: sq_replay_obs sq_see_def)
  then have "work_ready E s0 v objs ?tr2" using ready by (simp add: work_ready_def v)
  then obtain wd tr3 tr4 tr5 where l: "hpssix_workdata_open E (Some workdata_zero) (Some path) ?tr2 = (Ret (0, Some wd), tr3)"
    "hpssix_workdata_get_total_count E (Some wd) tr3 = (Ret (0, Some (of_nat (length objs))), tr4)"
    "hpssix_workdata_close (Some wd) tr4 = (Ret 0, tr5)"
    "work_ready E s0 v objs tr5" "obs stat_see tr5 = obs stat_see ?tr2"
    unfolding v(4) [symmetric] by (rule list_counted)
  define out where "out = ''Total work: '' @ dec (unat (of_nat (length objs) :: u64)) @ [NL]"
  have total: "unat (total_objects v) = length objs"
    using len by (simp add: v unsigned_of_nat take_bit_nat_eq_self)
  have zero: "of_nat (length objs) = (0 :: u64) \<longleftrightarrow> objs = []"
    using total by (auto simp: v unat_eq_zero [symmetric])
  have ready6: "work_ready E s0 v objs (EvOut out # tr5)" using l(4) by (simp add: work_ready_def)
  have stats: "obs stat_see (EvOut out # tr5) = obs stat_see tr @ [path]"
    using l(5) keepsD [OF keeps_sysconf(2) cfg] by (simp add: stat_see_def)
  let ?rest = "if objs = [] then then_io (c_puts (''Nothing to extract.. terminating.'' @ [NL])) (extractor_finish ''0.000'' 0 0)
     else extractor_threads E v order elapsed"
  have main: "extractor_main E opts [path] order elapsed tr = ?rest (EvOut out # tr5)"
    using opts cfg chk l(1-3) zero
    by (simp add: extractor_main_def bind_io_Ret try_io_def then_io_Ret c_printf_def c_puts_def v_def out_def)
  show ?thesis
  proof (cases "objs = []")
    case True
    let ?closing = "then_io (c_puts (''Nothing to extract.. terminating.'' @ [NL])) (extractor_finish ''0.000'' 0 0)"
    have "returns ?closing" by (rule returns_then [OF returns_calls(4) finish_extraction(1)])
    then obtain r tr6 where 6: "?closing (EvOut out # tr5) = (Ret r, tr6)" by (rule returnsE)
    have "keeps stat_see ?closing" by (rule keeps_then [OF keeps_stat_prims(2) finish_extraction(2)])
    from keepsD [OF this 6] show ?thesis using 6 True main stats by simp
  next
    case False
    have "db_up E (xconfig v)" "\<forall>x\<in>set objs. length (file_of v x) < PATH_MAX" "threads_run E order (nthreads v)"
      using env run fits by (simp_all add: v extractor_served_def)
    then obtain r tr6 tried where "extractor_threads E v order elapsed (EvOut out # tr5) = (Ret r, tr6)"
      "obs stat_see tr6 = obs stat_see (EvOut out # tr5) @ tried" "mset tried = mset (map (file_of v) objs)"
      using extractor_threads_try [OF ready6 _ v(5) _ total [symmetric] len] by blast
    then show ?thesis
      unfolding main stats v(6) using False by simp
  qed
qed

section \<open>Builder and extractor\<close>

text \<open>The choice of a row depends on the configuration and the filter only.\<close>

lemma row_filter_view:
  assumes "b_config a = b_config b" and "b_filter a = b_filter b"
  shows "row_filter a = row_filter b"
  by (simp only: fun_eq_iff row_filter_def builder_filter_meta_extract_def assms simp_thms)

lemma selection_uncounted:
  assumes "uncounted self = start_builder config db flt t dir"
  shows "builder_output self = dir @ ''/builder.'' @ dec (unat t) @ ''.db''"
    "selected_objects self rows = selected_objects (start_builder config db' flt t dir) rows"
    "work_rows E (start_builder config db flt t dir) rows \<Longrightarrow> work_rows E self rows"
proof -
  obtain n where self: "self = (start_builder config db flt t dir)\<lparr>b_n_processed := n\<rparr>"
    using assms by (cases self) (simp add: uncounted_def start_builder_def)
  have flt: "row_filter self = row_filter (start_builder config db' flt t dir)" for db'
    by (rule row_filter_view) (simp_all add: self start_builder_def)
  show "builder_output self = dir @ ''/builder.'' @ dec (unat t) @ ''.db''"
    by (simp add: self builder_output_def start_builder_def)
  show "selected_objects self rows = selected_objects (start_builder config db' flt t dir) rows"
    by (simp add: selected_objects_def flt [of db'])
  show "work_rows E (start_builder config db flt t dir) rows \<Longrightarrow> work_rows E self rows"
    by (simp add: work_rows_def row_ok_def flt [of db]) (simp add: self start_builder_def)
qed

text \<open>
  C17: what is selected is what is looked at.  A run of the builder for task \<open>t\<close> that
  returns 0 leaves a file; a run of the extractor on that file, after anything that
  does not touch SQLite, returns.  The files it looks at are the file itself and
  then, each as often as it was selected and whatever the threads' order and the answers
  for single files, exactly those files below the mount point that the builder's
  filter selected among the rows of the server.
\<close>

theorem builder_then_extractor:
  assumes sq: "sqlite_live wd_sem s0 E" "sqlite_sound wd_sem s0 E"
    and build: "do_builder E bconfig flt t dir tr = (Ret 0, tr1)"
    and rows: "\<And>db. work_rows E (start_builder bconfig db flt t dir) rows"
    and path: "path = dir @ ''/builder.'' @ dec (unat t) @ ''.db''" "length path < PATH_MAX"
    and sel: "objs = selected_objects (start_builder bconfig \<lparr>dbconn = None\<rparr> flt t dir) rows"
    and between: "obs sq_see tr2 = obs sq_see tr1"
    and opts: "extractor_options opts 0 False = return_io (nt, False)"
    and env: "extractor_served E config path tr2" and mount: "hpss_mountpoint config = Some m"
    and run: "threads_run E order (if nt = 0 then ucast (extractor_nthreads config) else nt)"
    and fits: "\<forall>x\<in>set objs. length (m @ obj_path x) < PATH_MAX" and len: "length objs < 2 ^ 63"
  shows "\<exists>r tr' tried. extractor_main E opts [path] order elapsed tr2 = (Ret r, tr') \<and>
     obs stat_see tr' = obs stat_see tr2 @ path # tried \<and> mset tried = mset (map (\<lambda>x. m @ obj_path x) objs)"
proof -
  obtain db self trb self2 trc where self: "uncounted self = start_builder bconfig db flt t dir"
    and last: "hpssix_builder_create_workdata E self trb = (Ret (0, self2), trc)"
    and same: "obs sq_see tr1 = obs sq_see trc"
    using build by (rule do_builder_reaches_work_list)
  note sel_self = selection_uncounted [OF self]
  have out: "builder_output self = path" using sel_self(1) path(1) by simp
  have "wd_rows_ok (sq_file (sq_replay wd_sem s0 trc) path) \<and>
     wd_items (sq_file (sq_replay wd_sem s0 trc) path) = objs"
    using create_workdata_leaves [OF sq sel_self(3) [OF rows], of trb] last path(2)
      sel_self(2) [of rows "\<lparr>dbconn = None\<rparr>"] unfolding out sel by auto
  then have "wd_rows_ok (sq_file (sq_replay wd_sem s0 tr2) path)" "wd_items (sq_file (sq_replay wd_sem s0 tr2) path) = objs"
    using same between by (simp_all add: sq_replay_obs)
  then show ?thesis by (rule extractor_main_tries [OF opts sq _ _ env mount run fits len])
qed

text \<open>An example: two files of four are selected, and two threads share them.\<close>

definition sample_cfg :: cfg where
  "sample_cfg = (\<lambda>sec. if sec = ''hpss'' then Some (\<lambda>k. if k = ''mountpoint'' then Some (CString ''/hpss'') else None)
     else if sec = ''extractor'' then Some (\<lambda>k. if k = ''nthreads'' then Some (CInt 2) else None) else None)"

definition pipe_stat :: stat_t where
  "pipe_stat = \<lparr>st_dev = 0, st_ino = 1, st_mode = 33188, st_nlink = 1, st_uid = 0, st_gid = 0, st_rdev = 0,
     st_size = 4096, st_blksize = 512, st_blocks = 8, st_atime = 0, st_mtime = 0, st_ctime = 0\<rparr>"

definition pipe_env :: env where
  "pipe_env = ref_sqlite wd_sem sq_empty (quiet_env\<lparr>
     env_config := \<lambda>_ _. Some sample_cfg,
     env_stat := \<lambda>_ p. if p = ''/d/builder.7.db'' then Inr pipe_stat else Inl ENOENT,
     env_pq_exec := \<lambda>_ _ cmd. if cmd = workdata_sql then \<lparr>res_status = PGRES_TUPLES_OK, res_rows = sample_rows\<rparr>
       else \<lparr>res_status = if take 4 cmd = ''COPY'' then PGRES_COPY_IN else PGRES_COMMAND_OK, res_rows = []\<rparr>\<rparr>)"

lemma pipe_fields:
  "env_alloc pipe_env tr n" "env_pq_result pipe_env tr c = PGRES_COMMAND_OK" "env_fopen pipe_env tr p = Inr ([], 0)"
  "env_config pipe_env tr p = Some sample_cfg" "env_sys pipe_env tr nm = 0" "env_pq_connect pipe_env tr uri = Some 1"
  "env_stat pipe_env tr ''/d/builder.7.db'' = Inr pipe_stat"
  by (simp_all add: pipe_env_def ref_sqlite_def quiet_env_def)

lemma pipe_exec:
  "take 4 cmd = ''COPY'' \<Longrightarrow> res_status (env_pq_exec pipe_env tr c cmd) = PGRES_COPY_IN"
  "take 4 cmd \<noteq> ''COPY'' \<Longrightarrow> cmd \<noteq> workdata_sql \<Longrightarrow> res_status (env_pq_exec pipe_env tr c cmd) = PGRES_COMMAND_OK"
  "env_pq_exec pipe_env tr c workdata_sql = \<lparr>res_status = PGRES_TUPLES_OK, res_rows = sample_rows\<rparr>"
  by (auto simp: pipe_env_def ref_sqlite_def workdata_sql_def)

lemma no_lines: "fgets_lines n [] = []"
  by (simp add: fgets_lines_def fgets_raw.simps)

lemmas pipe_run = copy_begin_def exec_opt_def hpssix_db_psql_exec_def
  hpssix_db_copy_init_def copy_finish_def hpssix_db_copy_end_def copy_commit_def bind_io_apply then_io_apply
  try_io_def PQexec_def c_fopen_def PQputCopyEnd_def PQgetResult_def no_lines alloc_def pipe_fields pipe_exec

lemma pipe_load:
  assumes "take 4 cpy = ''COPY''" "take 4 ini \<noteq> ''COPY''" "take 4 fin \<noteq> ''COPY''" "ini \<noteq> workdata_sql" "fin \<noteq> workdata_sql"
    and "hpssix_builder_get_scanner_filename self type \<noteq> None"
  shows "\<exists>tr'. load_csv pipe_env self type ini cpy fin proc tr = (Ret (0, self), tr')"
  using assms by (auto simp: load_csv_def hpssix_db_copy_def copy_stream_def pipe_run)

lemma sample_names: "hpssix_builder_get_scanner_filename sample_builder type \<noteq> None"
  by (cases type; hypsubst; code_simp)

lemma pipe_loads:
  "\<exists>tr'. hpssix_builder_process_fattr pipe_env sample_builder tr = (Ret (0, sample_builder), tr')"
  "\<exists>tr'. hpssix_builder_process_path pipe_env sample_builder tr = (Ret (0, sample_builder), tr')"
  "\<exists>tr'. hpssix_builder_process_deleted pipe_env sample_builder tr = (Ret (0, sample_builder), tr')"
  unfolding hpssix_builder_process_fattr_def hpssix_builder_process_path_def hpssix_builder_process_deleted_def
  by (rule pipe_load; simp add: sample_names workdata_sql_def builder_fattr_init_stmt_def builder_fattr_copy_stmt_def
      builder_fattr_fini_stmt_def builder_path_init_stmt_def builder_path_copy_stmt_def builder_path_fini_stmt_def
      builder_deleted_init_stmt_def builder_deleted_copy_stmt_def builder_deleted_fini_stmt_def)+

lemma pipe_xattrs: "\<exists>tr'. hpssix_builder_process_xattrs pipe_env sample_builder tr = (Ret 0, tr')"
proof -
  obtain f where "hpssix_builder_get_scanner_filename sample_builder SCANNER_OUTPUT_XATTR = Some f"
    using sample_names by blast
  then show ?thesis
    by (simp add: hpssix_builder_process_xattrs_def builder_collect_xattrs_def hpssix_db_delete_xattrs_def
        hpssix_db_populate_xattr_keys_def all_tags_def xattr_copy_stmt_def pipe_run)
qed

lemma pipe_rows: "work_rows pipe_env (sample_builder\<lparr>b_db := db\<rparr>) sample_rows"
proof -
  have "row_filter (sample_builder\<lparr>b_db := db\<rparr>) = row_filter sample_builder"
    by (rule row_filter_view) simp_all
  then show ?thesis
    using sample_work_rows by (simp add: work_rows_def row_ok_def pipe_fields pipe_exec)
qed

lemma pipe_sqlite: "sqlite_live wd_sem sq_empty pipe_env" "sqlite_sound wd_sem sq_empty pipe_env"
  unfolding pipe_env_def by (rule ref_sqlite_live, rule ref_sqlite_sound)

lemma pipe_connects:
  assumes "db_user config = None" "db_password config = None" "db_host config = None" "db_port config = 0" "db_database config = None"
  shows "\<exists>tr'. hpssix_db_connect pipe_env (Some \<lparr>dbconn = None\<rparr>) config tr = (Ret (0, Some \<lparr>dbconn = Some 1\<rparr>), tr')"
proof -
  have "printf ''postgresql://%s:%s@%s:%d/%s'' [PStr None, PStr None, PStr None, PInt 0, PStr None]
      = Some ''postgresql://(null):(null)@(null):0/(null)''"
    by code_simp
  then show ?thesis
    using assms by (simp add: hpssix_db_connect_def sprintf_buf_def PQconnectdb_def bind_io_apply pipe_fields)
qed

definition pipe_config :: hpssix_config where
  "pipe_config = config_zero\<lparr>hpss_mountpoint := Some ''/hpss'', extractor_nthreads := 2\<rparr>"

lemma pipe_served: "extractor_served pipe_env pipe_config ''/d/builder.7.db'' tr"
proof -
  have "hpssix_config_read_sysconf pipe_env (Some config_zero) tr = (Ret (0, Some pipe_config), EvConfig (hpssix_sysconf_file pipe_env) # tr)"
    by (simp add: hpssix_config_read_sysconf_def read_sections_def config_read_file_def bind_io_apply pipe_fields
      sections lookup_def sample_cfg_def set_field_simps pipe_config_def config_zero_def)
  moreover have "db_up pipe_env pipe_config"
  proof -
    have "db_user pipe_config = None" "db_password pipe_config = None" "db_host pipe_config = None"
      "db_port pipe_config = 0" "db_database pipe_config = None"
      by (simp_all add: pipe_config_def config_zero_def)
    then show ?thesis unfolding db_up_def using pipe_connects by blast
  qed
  moreover have "0 < sint (st_size pipe_stat)" by (simp add: pipe_stat_def)
  ultimately show ?thesis by (simp add: extractor_served_def pipe_fields)
qed

lemma pipe_builds:
  "\<exists>tr'. do_builder pipe_env (b_config sample_builder) (b_filter sample_builder) 7 ''/d'' [] = (Ret 0, tr')"
proof -
  let ?config = "b_config sample_builder"
  have start: "\<lparr>b_config = ?config, b_db = \<lparr>dbconn = Some 1\<rparr>, b_filter = b_filter sample_builder, b_task_id = 7,
      b_datadir = ''/d'', b_n_processed = 0, b_n_regular_files = 0\<rparr> = sample_builder"
    by (simp add: sample_builder_def)
  obtain tr1 where con: "hpssix_db_connect pipe_env (Some \<lparr>dbconn = None\<rparr>) ?config [] = (Ret (0, Some \<lparr>dbconn = Some 1\<rparr>), tr1)"
    using pipe_connects [of ?config] by (auto simp: sample_builder_def config_zero_def)
  have txn: "\<exists>tr'. hpssix_db_psql_exec pipe_env db (Some cmd) tr = (Ret 0, tr')" if "cmd \<in> {''BEGIN;'', ''END;''}" for db cmd tr
    using that by (auto simp: pipe_run workdata_sql_def)
  obtain tr2 where 2: "hpssix_db_begin_transaction pipe_env \<lparr>dbconn = Some 1\<rparr> tr1 = (Ret 0, tr2)"
    using txn [of "''BEGIN;''"] unfolding hpssix_db_begin_transaction_def by blast
  obtain tr3 where 3: "hpssix_builder_process_fattr pipe_env sample_builder tr2 = (Ret (0, sample_builder), tr3)"
    using pipe_loads(1) by blast
  obtain tr4 where 4: "hpssix_builder_process_path pipe_env sample_builder tr3 = (Ret (0, sample_builder), tr4)"
    using pipe_loads(2) by blast
  obtain tr5 where 5: "hpssix_builder_process_xattrs pipe_env sample_builder tr4 = (Ret 0, tr5)"
    using pipe_xattrs by blast
  obtain tr6 where 6: "hpssix_builder_process_deleted pipe_env sample_builder tr5 = (Ret (0, sample_builder), tr6)"
    using pipe_loads(3) by blast
  have "work_rows pipe_env sample_builder sample_rows" "length (builder_output sample_builder) < PATH_MAX"
    using pipe_rows [of "b_db sample_builder"] by (simp_all add: sample_output)
  then obtain self tr7 where 7: "hpssix_builder_create_workdata pipe_env sample_builder tr6 = (Ret (0, self), tr7)"
    using create_workdata_leaves [OF pipe_sqlite] by blast
  have phases: "builder_phases pipe_env sample_builder tr2 = (Ret 0, EvOut (builder_report self) # tr7)"
    using 3 4 5 6 7 by (simp add: builder_phases_def bind_io_Ret try_io_def then_io_apply c_puts_def)
  obtain tr8 where 8: "hpssix_db_end_transaction pipe_env \<lparr>dbconn = Some 1\<rparr> (EvOut (builder_report self) # tr7) = (Ret 0, tr8)"
    using txn [of "''END;''"] unfolding hpssix_db_end_transaction_def by blast
  show ?thesis
    using con 2 phases 8
    by (simp add: do_builder_def bind_io_Ret then_io_Ret start [simplified] hpssix_db_disconnect_def then_io_apply PQfinish_def)
qed

theorem builder_then_extractor_witness:
  "\<exists>tr1 r tr' tried. do_builder pipe_env (b_config sample_builder) (b_filter sample_builder) 7 ''/d'' [] = (Ret 0, tr1) \<and>
     extractor_main pipe_env [] [''/d/builder.7.db''] (\<lambda>n. rev [0..<n]) ''1.25'' tr1 = (Ret r, tr') \<and>
     obs stat_see tr' = obs stat_see tr1 @ ''/d/builder.7.db'' # tried \<and>
     mset tried = mset [''/hpss/a/x.pdf'', ''/hpss/a/z.PDF'']"
proof -
  obtain tr1 where build: "do_builder pipe_env (b_config sample_builder) (b_filter sample_builder) 7 ''/d'' [] = (Ret 0, tr1)"
    using pipe_builds by blast
  have start: "start_builder (b_config sample_builder) db (b_filter sample_builder) 7 ''/d'' = sample_builder\<lparr>b_db := db\<rparr>" for db
    by (simp add: start_builder_def sample_builder_def)
  have path: "''/d/builder.7.db'' = ''/d'' @ ''/builder.'' @ dec (unat (7 :: u64)) @ ''.db''"
    by code_simp
  have sel: "selected_objects sample_builder sample_rows
      = selected_objects (start_builder (b_config sample_builder) \<lparr>dbconn = None\<rparr> (b_filter sample_builder) 7 ''/d'') sample_rows"
    unfolding start selected_objects_def by (subst row_filter_view [of "sample_builder\<lparr>b_db := \<lparr>dbconn = None\<rparr>\<rparr>" sample_builder]) simp_all
  have run: "threads_run pipe_env (\<lambda>n. rev [0..<n]) (if 0 = (0 :: u64) then ucast (extractor_nthreads pipe_config) else 0)"
    by (simp add: threads_run_def pipe_fields pipe_config_def)
  have mount: "hpss_mountpoint pipe_config = Some ''/hpss''" by (simp add: pipe_config_def)
  show ?thesis
    using builder_then_extractor [OF pipe_sqlite build _ path _ sel refl _ pipe_served mount run] build
    by (simp add: start pipe_rows sample_selected)
qed

end
