(* ===== verification/Hpssix_Admin.thy ===== *)
theory Hpssix_Admin
  imports Hpssix_Observe
begin

text \<open>
  The administration utility (hpssix-admin.c, hpssix-admin-history.c): it prints the
  history of the master database, newest entry first, in pages of ten.
\<close>

section \<open>Printing a page\<close>

abbreviation (input) NRECPERFETCH :: nat where "NRECPERFETCH \<equiv> 10"

text \<open>\<open>strftime\<close> with \<open>%Y-%m-%d %H:%M:%S\<close>: never longer than the 128 bytes of the buffer.\<close>

definition strftime_full :: "tm \<Rightarrow> string" where
  "strftime_full t = sdec (tm_year t + 1900) @ ''-'' @ pad True 2 (sdec (tm_mon t + 1)) @ ''-'' @
     pad True 2 (sdec (tm_mday t)) @ '' '' @ pad True 2 (sdec (tm_hour t)) @ '':'' @
     pad True 2 (sdec (tm_min t)) @ '':'' @ pad True 2 (sdec (tm_sec t))"

definition history_fmt :: string where
  "history_fmt = ''## task at %s: took %4lu seconds, %4lu scanned, %4lu deleted, %4lu indexed, %4lu extracted.'' @ [NL]"

fun print_history_record :: "env \<Rightarrow> hpssix_work_status list \<Rightarrow> unit io" where
  "print_history_record E [] = return_io ()"
| "print_history_record E (current # rest) =
     bind_io (lift_io (env_localtime E (scanner_start current))) (\<lambda>t.
     then_io (c_printf history_fmt [PStr (Some (strftime_full t)),
        PInt (extractor_end current - scanner_start current), PInt (n_scanned current),
        PInt (n_deleted current), PInt (n_indexed current), PInt (n_extracted current)])
     (print_history_record E rest))"

section \<open>Fetching\<close>

text \<open>
  The loop of \<open>do_history_fetch\<close> for at most \<open>k\<close> rounds.  \<open>page\<close> is what \<open>records\<close> and
  \<open>len\<close> hold; a query that fails writes neither, so the last page is printed again.
  The result is \<open>ret\<close> and the static variable \<open>fetched\<close>.
\<close>

fun history_loop ::
  "nat \<Rightarrow> env \<Rightarrow> hpssix_mdb \<Rightarrow> u64 \<Rightarrow> u64 \<Rightarrow> u64 \<Rightarrow> u64 \<Rightarrow> hpssix_work_status list \<Rightarrow> (int \<times> u64) io" where
  "history_loop 0 E mdb count offset to_fetch got page = spin_io"
| "history_loop (Suc k) E mdb count offset to_fetch got page =
     (if count > got then
        let left = count - got;
            to_fetch = (if to_fetch > left then left else to_fetch) in
        bind_io (hpssix_mdb_fetch_history E (Some mdb) offset to_fetch (Some NRECPERFETCH)) (\<lambda>(ret, out).
        let page = (case out of None \<Rightarrow> page | Some l \<Rightarrow> l); len = of_nat (length page) in
        if ret \<noteq> 0 then return_io (ret, got)
        else if len = 0 then return_io (0, got)
        else then_io (print_history_record E page)
          (history_loop k E mdb count (offset + len) to_fetch (got + len) page))
      else return_io (0, got))"

definition do_history_fetch :: "env \<Rightarrow> hpssix_mdb \<Rightarrow> u64 \<Rightarrow> (int \<times> u64) io" where
  "do_history_fetch E mdb count =
     history_loop (Suc (unat count)) E mdb count 0 (of_nat NRECPERFETCH) 0 []"

definition do_history :: "env \<Rightarrow> u64 \<Rightarrow> int io" where
  "do_history E count =
     bind_io (hpssix_mdb_open E (Some mdb_zero)) (\<lambda>(ret, m).
     if ret \<noteq> 0 then return_io ret
     else bind_io (lift_io m) (\<lambda>mdb.
       bind_io (do_history_fetch E mdb count) (\<lambda>(ret, got).
       then_io (if ret \<noteq> 0 then return_io ()
                else c_printf (''## %lu records fetched.'' @ [NL]) [PInt got])
       (then_io (hpssix_mdb_close (Some mdb)) (return_io ret)))))"

section \<open>Commands\<close>

text \<open>
  The options \<open>getopt_long\<close> gives, with their arguments; \<open>None\<close> when the usage, which is
  not modelled, is printed.  The verbose option has no effect.
\<close>

fun history_options :: "(char \<times> string) list \<Rightarrow> u64 \<Rightarrow> u64 option" where
  "history_options [] count = Some count"
| "history_options ((ch, optarg) # opts) count =
     (if ch = CHR ''a'' then history_options opts 0
      else if ch = CHR ''c'' then history_options opts (fst (strtoull0 optarg))
      else if ch = CHR ''v'' then history_options opts count
      else None)"

definition history_cmd_main :: "env \<Rightarrow> (char \<times> string) list \<Rightarrow> string list \<Rightarrow> int io" where
  "history_cmd_main E opts operands = (case history_options opts 10 of
     None \<Rightarrow> return_io 0
   | Some count \<Rightarrow>
       if operands \<noteq> [] then return_io 0
       else do_history E (if count = 0 then of_nat NRECPERFETCH else count))"

text \<open>\<open>cmd\<close> is the first argument, \<open>opts\<close> and \<open>operands\<close> what \<open>getopt_long\<close> makes of the others.\<close>

definition admin_main :: "env \<Rightarrow> string option \<Rightarrow> (char \<times> string) list \<Rightarrow> string list \<Rightarrow> int io" where
  "admin_main E cmd opts operands = (case cmd of
     None \<Rightarrow> exit_io 1
   | Some c \<Rightarrow> if c = ''history'' then history_cmd_main E opts operands else exit_io 1)"

section \<open>What is printed\<close>

definition out_see :: "event \<Rightarrow> string list" where
  "out_see ev = (case ev of EvOut s \<Rightarrow> [s] | _ \<Rightarrow> [])"

interpretation out: sqlite_observer out_see
  by unfold_locales (simp_all add: out_see_def)

text \<open>The line of one entry; \<open>t\<close> is its start in local time.\<close>

definition history_line :: "tm \<Rightarrow> hpssix_work_status \<Rightarrow> string" where
  "history_line t ws = ''## task at '' @ strftime_full t @ '': took '' @
     pad False 4 (dec (unat (extractor_end ws - scanner_start ws))) @ '' seconds, '' @
     pad False 4 (dec (unat (n_scanned ws))) @ '' scanned, '' @
     pad False 4 (dec (unat (n_deleted ws))) @ '' deleted, '' @
     pad False 4 (dec (unat (n_indexed ws))) @ '' indexed, '' @
     pad False 4 (dec (unat (n_extracted ws))) @ '' extracted.'' @ [NL]"

lemma printf_4lu [simp]:
  "printf (PERCENT # CHR ''4'' # CHR ''l'' # CHR ''u'' # cs) (PInt w # args)
     = map_option (append (pad False 4 (dec (unat w)))) (printf cs args)"
  by (subst printf.simps) (simp add: spec_simps conv_arg_def code_def isdigit_def)

lemma printf_history:
  "printf history_fmt [PStr (Some (strftime_full t)),
        PInt (extractor_end ws - scanner_start ws), PInt (n_scanned ws),
        PInt (n_deleted ws), PInt (n_indexed ws), PInt (n_extracted ws)] = Some (history_line t ws)"
  by (simp add: history_fmt_def history_line_def)

lemma print_history_record_run:
  assumes "\<forall>ws\<in>set page. \<exists>t. env_localtime E (scanner_start ws) = Some t"
  shows "print_history_record E page tr = (Ret (),
     rev (map (\<lambda>ws. EvOut (history_line (the (env_localtime E (scanner_start ws))) ws)) page) @ tr)"
  using assms
proof (induction page arbitrary: tr)
  case (Cons ws page)
  then obtain t where "env_localtime E (scanner_start ws) = Some t" by auto
  with Cons show ?case
    by (simp add: c_printf_def printf_history c_puts_def then_io_apply)
qed simp

lemma sq_replay_out: "sq_replay sem s0 (rev (map (\<lambda>x. EvOut (f x)) xs) @ tr) = sq_replay sem s0 tr"
  by (induction xs arbitrary: tr) (simp_all del: rev_map add: rev_map [symmetric])

lemma obs_out: "obs out_see (rev (map (\<lambda>x. EvOut (f x)) xs) @ tr) = obs out_see tr @ map f xs"
  by (induction xs arbitrary: tr) (simp_all add: out_see_def obs_def rev_map [symmetric] comp_def)

lemma mdb_holds_out:
  "mdb_holds E s0 m c (rev (map (\<lambda>x. EvOut (f x)) xs) @ tr) hist = mdb_holds E s0 m c tr hist"
  by (simp add: mdb_holds_def sq_replay_out)

text \<open>One round of the loop at position \<open>k\<close> of the history, newest entry first.\<close>

lemma history_page:
  assumes "mdb_holds E s0 m c tr hist" and "k < 2 ^ 63" and "unat tf \<le> NRECPERFETCH"
  obtains tr1 where "hpssix_mdb_fetch_history E (Some m) (of_nat k) tf (Some NRECPERFETCH) tr
       = (Ret (0, Some (slice k (unat tf) (rev hist))), tr1)"
    and "mdb_holds E s0 m c tr1 hist" and "obs out_see tr1 = obs out_see tr"
proof -
  have "unat (of_nat k :: u64) = k"
    using assms(2) by (simp add: unat_of_nat)
  then obtain tr1 where 1: "hpssix_mdb_fetch_history E (Some m) (of_nat k) tf (Some NRECPERFETCH) tr
       = (Ret (0, Some (slice k (unat tf) (rev hist))), tr1)" "mdb_holds E s0 m c tr1 hist"
    using mdb_fetch_history_run [OF assms(1), of "of_nat k" tf NRECPERFETCH] assms(2,3)
    by (auto simp: length_slice min_le_iff_disj)
  with out.keeps_fetch_history show ?thesis
    using keepsD that by blast
qed

lemma slice_then_rest:
  "a \<le> n - k \<Longrightarrow> slice k a xs @ drop (k + length (slice k a xs)) (take n xs) = drop k (take n xs)"
proof -
  assume a: "a \<le> n - k"
  let ?ys = "drop k (take n xs)"
  have "slice k a xs = take a ?ys" using a by (simp add: slice_def drop_take)
  moreover have "drop (k + length (take a ?ys)) (take n xs) = drop (length (take a ?ys)) ?ys"
    by (simp add: add.commute)
  moreover have "drop (length (take a ?ys)) ?ys = drop a ?ys" by (cases "a \<le> length ?ys") auto
  ultimately show ?thesis by (metis append_take_drop_id)
qed

text \<open>A round that finds entries prints its page and goes on behind it.\<close>

lemma history_loop_round:
  assumes "mdb_holds E s0 m c tr hist" and "k < unat count" "unat count \<le> 2 ^ 63"
    and "\<forall>ws\<in>set hist. env_localtime E (scanner_start ws) = Some (lt ws)"
    and "0 < unat tf" "unat tf \<le> NRECPERFETCH"
  obtains tf' tr2 where "0 < unat tf'" "unat tf' \<le> NRECPERFETCH" "unat tf' \<le> unat count - k"
    and "mdb_holds E s0 m c tr2 hist"
    and "obs out_see tr2 = obs out_see tr @ map (\<lambda>ws. history_line (lt ws) ws) (slice k (unat tf') (rev hist))"
    and "history_loop (Suc fuel) E m count (of_nat k) tf (of_nat k) page tr
      = (if slice k (unat tf') (rev hist) = [] then (Ret (0, of_nat k), tr2)
         else let n = k + length (slice k (unat tf') (rev hist)) in
           history_loop fuel E m count (of_nat n) tf' (of_nat n) (slice k (unat tf') (rev hist)) tr2)"
proof -
  have k64: "unat (of_nat k :: u64) = k"
    using assms(2,3) by (simp add: unat_of_nat)
  then have left: "unat (count - of_nat k) = unat count - k"
    using assms(2) by (simp add: unat_sub word_le_nat_alt)
  define tf' where "tf' = (if tf > count - of_nat k then count - of_nat k else tf)"
  let ?page = "slice k (unat tf') (rev hist)"
  have tf: "0 < unat tf'" "unat tf' \<le> NRECPERFETCH" "unat tf' \<le> unat count - k"
    using assms(2,5,6) left by (auto simp: tf'_def word_less_nat_alt)
  have "k < 2 ^ 63" using assms(2,3) by simp
  then obtain tr1 where 1: "hpssix_mdb_fetch_history E (Some m) (of_nat k) tf' (Some NRECPERFETCH) tr
       = (Ret (0, Some ?page), tr1)" "mdb_holds E s0 m c tr1 hist" "obs out_see tr1 = obs out_see tr"
    using history_page [OF assms(1) _ tf(2)] by blast
  have "length ?page \<le> 10" using tf(2) by (simp add: length_slice)
  then have n64: "(of_nat (length ?page) :: u64) = 0 \<longleftrightarrow> ?page = []"
    by (simp add: word_unat_eq_iff unat_of_nat)
  let ?tr2 = "rev (map (\<lambda>ws. EvOut (history_line (lt ws) ws)) ?page) @ tr1"
  have "\<forall>ws\<in>set ?page. env_localtime E (scanner_start ws) = Some (lt ws)"
    using assms(4) set_slice [of k "unat tf'" "rev hist"] by auto
  then have print: "print_history_record E ?page tr1 = (Ret (), ?tr2)"
    by (subst print_history_record_run) (auto intro: map_cong)
  have "of_nat k < count" using assms(2) k64 by (simp add: word_less_nat_alt)
  then have "history_loop (Suc fuel) E m count (of_nat k) tf (of_nat k) page tr
      = (if ?page = [] then (Ret (0, of_nat k), ?tr2)
         else let n = k + length ?page in history_loop fuel E m count (of_nat n) tf' (of_nat n) ?page ?tr2)"
    using n64 print by (simp only: history_loop.simps Let_def if_True tf'_def [symmetric])
      (simp add: bind_io_apply then_io_apply 1(1))
  then show ?thesis
    using that [OF tf, of ?tr2] 1(2,3) by (simp only: mdb_holds_out obs_out)
qed

text \<open>
  What the loop still has to print at position \<open>k\<close> is the rest of the answer to one
  query for \<open>count\<close> entries, however the pages fall.
\<close>

lemma history_loop_run:
  assumes "mdb_holds E s0 m c tr hist" and "unat count \<le> 2 ^ 63"
    and "\<forall>ws\<in>set hist. env_localtime E (scanner_start ws) = Some (lt ws)"
    and "k \<le> unat count" "0 < unat tf" "unat tf \<le> NRECPERFETCH" "unat count - k < fuel"
    and "k \<le> length hist"
  shows "\<exists>tr'. history_loop fuel E m count (of_nat k) tf (of_nat k) page tr
       = (Ret (0, of_nat (min (unat count) (length hist))), tr') \<and>
     obs out_see tr' = obs out_see tr
       @ map (\<lambda>ws. history_line (lt ws) ws) (drop k (take (unat count) (rev hist)))"
  using assms
proof (induction fuel arbitrary: tr k tf page)
  case (Suc fuel)
  show ?case
  proof (cases "k < unat count")
    case False
    with Suc.prems(2,4,8) show ?thesis by (simp add: word_less_nat_alt unat_of_nat)
  next
    case True
    obtain tf' tr2 where tf: "0 < unat tf'" "unat tf' \<le> NRECPERFETCH" "unat tf' \<le> unat count - k"
      and 2: "mdb_holds E s0 m c tr2 hist"
        "obs out_see tr2 = obs out_see tr @ map (\<lambda>ws. history_line (lt ws) ws) (slice k (unat tf') (rev hist))"
      and round: "history_loop (Suc fuel) E m count (of_nat k) tf (of_nat k) page tr
        = (if slice k (unat tf') (rev hist) = [] then (Ret (0, of_nat k), tr2)
           else let n = k + length (slice k (unat tf') (rev hist)) in
             history_loop fuel E m count (of_nat n) tf' (of_nat n) (slice k (unat tf') (rev hist)) tr2)"
      by (rule history_loop_round [OF Suc.prems(1) True Suc.prems(2,3,5,6), of fuel page])
    let ?page = "slice k (unat tf') (rev hist)" let ?n = "k + length ?page"
    have len: "length ?page = min (unat tf') (length hist - k)" by (simp add: length_slice)
    have rest: "drop k (take (unat count) (rev hist)) = ?page @ drop ?n (take (unat count) (rev hist))"
      using slice_then_rest [OF tf(3), of "rev hist"] by simp
    show ?thesis
    proof (cases "k < length hist")
      case False
      with Suc.prems(8) have k: "k = length hist" by simp
      with len have "?page = []" by simp
      then show ?thesis using round 2(2) k True by (simp only: if_True) (simp add: min_def)
    next
      case more: True
      have n: "0 < length ?page" "?n \<le> unat count" "?n \<le> length hist"
        using len tf more True by auto
      then have "unat count - ?n < fuel" using Suc.prems(7) by linarith
      then show ?thesis
        using Suc.IH [OF 2(1) Suc.prems(2,3) n(2) tf(1,2) _ n(3), of ?page] n(1) round rest 2(2)
        by (simp only: Let_def map_append append_assoc length_greater_0_conv if_False)
    qed
  qed
qed simp

text \<open>
  C40: paging is invisible.  The pages of ten that \<open>do_history_fetch\<close> reads print, line
  by line and in the same order, the entries one query for \<open>count\<close> entries would
  deliver, the newest \<open>count\<close> of the history; the loop ends and the reported number is
  the number of lines.
\<close>

theorem history_pages_equal_one_query:
  assumes "mdb_holds E s0 m c tr hist" and "unat count < 2 ^ 63"
    and "\<forall>ws\<in>set hist. env_localtime E (scanner_start ws) = Some (lt ws)"
  shows "\<exists>tr1 tr2 l.
     hpssix_mdb_fetch_history E (Some m) 0 count (Some (length hist)) tr = (Ret (0, Some l), tr1) \<and>
     do_history_fetch E m count tr = (Ret (0, of_nat (length l)), tr2) \<and>
     obs out_see tr2 = obs out_see tr @ map (\<lambda>ws. history_line (lt ws) ws) l \<and>
     l = take (unat count) (rev hist)"
proof -
  obtain tr1 where "hpssix_mdb_fetch_history E (Some m) 0 count (Some (length hist)) tr
       = (Ret (0, Some (take (unat count) (rev hist))), tr1)"
    using mdb_fetch_history_run [OF assms(1), of 0 count "length hist"] assms(2) by (auto simp: slice_def)
  moreover obtain tr2 where "do_history_fetch E m count tr
       = (Ret (0, of_nat (min (unat count) (length hist))), tr2)"
    "obs out_see tr2 = obs out_see tr @ map (\<lambda>ws. history_line (lt ws) ws) (take (unat count) (rev hist))"
    using history_loop_run [OF assms(1) _ assms(3), of count 0 "of_nat NRECPERFETCH" "Suc (unat count)" "[]"]
      assms(2) by (auto simp: do_history_fetch_def)
  ultimately show ?thesis by (auto simp: min.commute)
qed

theorem history_pages_equal_one_query_witness:
  "\<exists>tr. do_history_fetch (sample_mdb_env [work_status_zero, work_status_zero\<lparr>n_scanned := 7\<rparr>]) sample_mdb 1 []
       = (Ret (0, 1), tr) \<and>
     obs out_see tr = [history_line tm_zero (work_status_zero\<lparr>n_scanned := 7\<rparr>)]"
proof -
  let ?h = "[work_status_zero, work_status_zero\<lparr>n_scanned := 7\<rparr>]"
  have "\<forall>ws\<in>set ?h. env_localtime (sample_mdb_env ?h) (scanner_start ws) = Some tm_zero"
    by (simp add: sample_mdb_env_def ref_sqlite_def quiet_env_def)
  then show ?thesis
    using history_pages_equal_one_query [OF mdb_holds_sample, of 1 ?h "\<lambda>_. tm_zero"] by auto
qed

text \<open>The option for all entries asks for ten: a count of 0 is replaced by the page size.\<close>

lemma history_all_is_ten: "history_cmd_main E [(CHR ''a'', arg)] [] = do_history E 10"
  by (simp add: history_cmd_main_def)

end
