(* ===== verification/Pq_Literal.thy ===== *)
theory Pq_Literal
  imports C_Stdio
begin

text \<open>
  String literals of PostgreSQL: what \<open>PQescapeLiteral\<close> of libpq documents it makes of a
  text, how the server reads a literal, and that reading an escaped text gives the text
  back.  The utilities that put user text into SQL rest on it.
\<close>

abbreviation (input) BSLASH :: char where "BSLASH \<equiv> CHR 0x5C"

text \<open>
  The literal \<open>PQescapeLiteral\<close> makes: in single quotes, with single quotes and
  backslashes doubled, and marked as an escape string where there is a backslash.
\<close>

definition escape_char :: "char \<Rightarrow> string" where
  "escape_char c = (if c = SQUOTE \<or> c = BSLASH then [c, c] else [c])"

definition pq_literal :: "string \<Rightarrow> string" where
  "pq_literal s = (if BSLASH \<in> set s then '' E'' else []) @ SQUOTE # concat (map escape_char s) @ [SQUOTE]"

text \<open>
  How the server reads a literal: two quotes are one, a single quote ends it; in an
  escape string a backslash takes the next character literally (only doubled
  backslashes and quotes are decoded here).  The result is the value and what follows.
\<close>

fun read_quoted :: "bool \<Rightarrow> string \<Rightarrow> (string \<times> string) option" where
  "read_quoted esc [] = None"
| "read_quoted esc [c] = (if c = SQUOTE then Some ([], []) else None)"
| "read_quoted esc (c # d # r) =
     (if c = SQUOTE then
        (if d = SQUOTE then map_option (apfst (Cons SQUOTE)) (read_quoted esc r) else Some ([], d # r))
      else if esc \<and> c = BSLASH then
        (if d = BSLASH \<or> d = SQUOTE then map_option (apfst (Cons d)) (read_quoted esc r) else None)
      else map_option (apfst (Cons c)) (read_quoted esc (d # r)))"

definition read_literal :: "string \<Rightarrow> (string \<times> string) option" where
  "read_literal s = (case dropWhile (\<lambda>c. c = CHR '' '') s of
     c # d # r \<Rightarrow> if c = SQUOTE then read_quoted False (d # r)
       else if c = CHR ''E'' \<and> d = SQUOTE then read_quoted True r else None
   | _ \<Rightarrow> None)"

lemma read_quoted_plain:
  "c \<noteq> SQUOTE \<Longrightarrow> \<not> (esc \<and> c = BSLASH) \<Longrightarrow> r \<noteq> [] \<Longrightarrow>
     read_quoted esc (c # r) = map_option (apfst (Cons c)) (read_quoted esc r)"
  by (cases r) auto

lemma read_quoted_escaped:
  assumes "esc \<longleftrightarrow> BSLASH \<in> set t \<or> esc" and "take 1 rest \<noteq> [SQUOTE]"
  shows "read_quoted esc (concat (map escape_char t) @ SQUOTE # rest) = Some (t, rest)"
  using assms
proof (induction t)
  case Nil
  then show ?case by (cases rest) auto
next
  case (Cons c t)
  then have IH: "read_quoted esc (concat (map escape_char t) @ SQUOTE # rest) = Some (t, rest)" by auto
  consider "c = SQUOTE" | "c = BSLASH" "esc" | "c \<noteq> SQUOTE" "c \<noteq> BSLASH"
    using Cons.prems(1) by auto
  then show ?case
  proof cases
    case 3
    with IH show ?thesis by (simp add: escape_char_def [of c] read_quoted_plain)
  qed (use IH in \<open>simp_all add: escape_char_def [of SQUOTE] escape_char_def [of BSLASH]\<close>)
qed

text \<open>Reading an escaped text gives the text back, whatever follows but a quote.\<close>

lemma read_pq_literal:
  assumes "take 1 rest \<noteq> [SQUOTE]"
  shows "read_literal (pq_literal s @ rest) = Some (s, rest)"
proof (cases "BSLASH \<in> set s")
  case True
  then show ?thesis
    using read_quoted_escaped [of True s rest] assms
    by (simp add: read_literal_def pq_literal_def)
next
  case False
  let ?b = "concat (map escape_char s) @ SQUOTE # rest"
  have "read_quoted False ?b = Some (s, rest)"
    using read_quoted_escaped [of False s rest] assms False by simp
  moreover have "?b \<noteq> []" by simp
  ultimately show ?thesis
    using False by (cases ?b) (simp_all add: read_literal_def pq_literal_def)
qed

lemma length_pq_literal: "length (pq_literal s) \<le> 2 * length s + 4"
proof -
  have "length (concat (map escape_char s)) \<le> 2 * length s"
    by (induction s) (auto simp: escape_char_def)
  then show ?thesis by (simp add: pq_literal_def)
qed

lemma pq_literal_no_pct: "PERCENT \<notin> set s \<Longrightarrow> PERCENT \<notin> set (pq_literal s)"
  by (auto simp: pq_literal_def escape_char_def)

lemma printf_no_pct: "PERCENT \<notin> set s \<Longrightarrow> printf s args = Some s"
  by (induction s) auto

lemma printf_head: "PERCENT \<notin> set s \<Longrightarrow> printf (s @ r) args = map_option (append s) (printf r args)"
  by (induction s) (cases "printf r args"; auto)+

end
