(* ===== verification/Hpssix_Meta.thy ===== *)
theory Hpssix_Meta
  imports Hpssix_Admin Hpssix_Db Pq_Literal
begin

text \<open>
  The metadata utility (hpssix-meta.c): it prints the document metadata and the text
  the index holds of one file.  The second part shows that the query names exactly the
  path of the file, whatever characters it has but percent signs, and that the option
  that prefixes the mount point writes past its allocation.
\<close>

section \<open>The query\<close>

record meta_opts =
  print_meta :: bool
  print_text :: bool
  auto_prefix :: bool

definition find_hpss_mountpoint :: "env \<Rightarrow> string option io" where
  "find_hpss_mountpoint E =
     bind_io (c_mounts E) (\<lambda>r. case r of
       None \<Rightarrow> return_io None
     | Some es \<Rightarrow> (case find_hpssfs es of
         None \<Rightarrow> return_io None
       | Some d \<Rightarrow> strdup E d))"

definition meta_sql_fmt :: string where
  "meta_sql_fmt = ''select meta, text from hpssix_attr_document where oid=(select oid from hpssix_file where path=%s limit 1)''"

text \<open>\<open>sqlbuf\<close> has 8192 bytes; the outer \<open>None\<close> is an overflow, the inner one NULL.\<close>

definition meta_get_sql :: "env \<Rightarrow> nat option \<Rightarrow> string \<Rightarrow> string option option" where
  "meta_get_sql E conn path = (case env_pq_escape E conn path of
     None \<Rightarrow> Some None
   | Some escaped_path \<Rightarrow> map_option Some (sprintf_buf 8192 meta_sql_fmt [PStr (Some escaped_path)]))"

definition meta_print_result :: "meta_opts \<Rightarrow> string \<Rightarrow> pgresult \<Rightarrow> unit io" where
  "meta_print_result v filename res =
     then_io (c_printf (''## file: %s'' @ [NL]) [PStr (Some filename)])
     (if res_rows res = [] then c_printf (''## no document metadata found.'' @ [NL]) []
      else then_io
        (if print_meta v then
           then_io (c_printf (NL # ''## document metadata'' @ [NL]) [])
             (c_printf (''%s'' @ [NL]) [PStr (PQgetvalue res 0 0)])
         else return_io ())
        (if print_text v then
           then_io (c_printf (NL # ''## fulltext'' @ [NL]) [])
             (c_printf ''%s'' [PStr (PQgetvalue res 0 1)])
         else return_io ()))"

definition do_meta :: "env \<Rightarrow> hpssix_db \<Rightarrow> meta_opts \<Rightarrow> string \<Rightarrow> int io" where
  "do_meta E db v filename =
     bind_io (hpssix_find_hpss_mountpoint E) (\<lambda>m. case m of
       None \<Rightarrow> return_io ENOENT
     | Some mountpoint \<Rightarrow>
         if \<not> strneq filename mountpoint (length mountpoint) then return_io EINVAL
         else bind_io (lift_io (meta_get_sql E (dbconn db) (drop (length mountpoint) filename))) (\<lambda>s.
           case s of
             None \<Rightarrow> return_io EIO
           | Some sql \<Rightarrow> bind_io (hpssix_db_psql_query E db sql []) (\<lambda>res.
               if res_status res \<noteq> PGRES_TUPLES_OK then return_io EIO
               else then_io (meta_print_result v filename res) (return_io 0))))"

section \<open>Main program\<close>

text \<open>The options; \<open>None\<close> when the usage, which is not modelled, is printed.\<close>

fun meta_options :: "string \<Rightarrow> meta_opts \<Rightarrow> meta_opts option" where
  "meta_options [] v = Some v"
| "meta_options (ch # chs) v =
     (if ch = CHR ''a'' then meta_options chs (v\<lparr>auto_prefix := True\<rparr>)
      else if ch = CHR ''m'' then meta_options chs (v\<lparr>print_meta := True\<rparr>)
      else if ch = CHR ''t'' then meta_options chs (v\<lparr>print_text := True\<rparr>)
      else None)"

text \<open>
  The name with the mount point before it, printed piece by piece into an allocation of
  \<open>cap\<close> bytes.
\<close>

definition prefix_path :: "nat \<Rightarrow> string \<Rightarrow> string \<Rightarrow> string option" where
  "prefix_path cap hpssmnt path =
     (case sprintf_buf cap ''%s'' [PStr (Some hpssmnt)] of
        None \<Rightarrow> None
      | Some a \<Rightarrow>
          (case (if take 1 path \<noteq> ''/'' then sprintf_buf (cap - length a) ''/'' [] else Some []) of
             None \<Rightarrow> None
           | Some b \<Rightarrow>
               map_option (\<lambda>c. a @ b @ c)
                 (sprintf_buf (cap - length a - length b) ''%s'' [PStr (Some path)])))"

text \<open>The name of the file: \<open>Inl\<close> when the program goes to \<open>out\<close>, \<open>None\<close> a null pointer.\<close>

definition meta_filename :: "env \<Rightarrow> bool \<Rightarrow> string \<Rightarrow> (unit + string option) io" where
  "meta_filename E auto path =
     (if auto then
        bind_io (find_hpss_mountpoint E) (\<lambda>m. case m of
          None \<Rightarrow> return_io (Inl ())
        | Some hpssmnt \<Rightarrow>
            let cap = length hpssmnt + length path in
            bind_io (alloc E cap) (\<lambda>ok.
            if \<not> ok then return_io (Inl ())
            else bind_io (lift_io (prefix_path cap hpssmnt path)) (\<lambda>f. return_io (Inr (Some f)))))
      else bind_io (c_realpath E path) (\<lambda>f. return_io (Inr f)))"

definition meta_main :: "env \<Rightarrow> string \<Rightarrow> string list \<Rightarrow> int io" where
  "meta_main E chs operands =
     (case meta_options chs \<lparr>print_meta = False, print_text = False, auto_prefix = False\<rparr> of
        None \<Rightarrow> exit_io 0
      | Some v \<Rightarrow> (case operands of
          [path] \<Rightarrow>
            bind_io (meta_filename E (auto_prefix v) path) (\<lambda>r. case r of
              Inl _ \<Rightarrow> return_io 0
            | Inr None \<Rightarrow>
                bind_io (c_errno E) (\<lambda>e.
                bind_io (lift_io (printf (''cannot resolve the path %s (%s)'' @ [NL])
                           [PStr (Some (env_strerror E e))])) (\<lambda>_. return_io 0))
            | Inr (Some filename) \<Rightarrow>
                let v = (if \<not> print_meta v \<and> \<not> print_text v
                         then v\<lparr>print_meta := True, print_text := True\<rparr> else v) in
                bind_io (hpssix_config_read_sysconf E (Some config_zero)) (\<lambda>(ret, c1).
                if ret \<noteq> 0 then return_io ret
                else bind_io (lift_io c1) (\<lambda>config.
                  bind_io (hpssix_db_connect E (Some \<lparr>dbconn = None\<rparr>) config) (\<lambda>(ret, d1).
                  if ret \<noteq> 0 then return_io ret
                  else bind_io (lift_io d1) (\<lambda>db.
                    bind_io (do_meta E db v filename) (\<lambda>ret.
                    then_io (hpssix_db_disconnect (Some db)) (return_io ret)))))))
        | _ \<Rightarrow> exit_io 1))"

section \<open>What is asked and printed\<close>

definition meta_sql_head :: string where
  "meta_sql_head = ''select meta, text from hpssix_attr_document where oid=(select oid from hpssix_file where path=''"

definition meta_sql_tail :: string where
  "meta_sql_tail = '' limit 1)''"

lemma meta_sql_fmt_split: "meta_sql_fmt = meta_sql_head @ ''%s'' @ meta_sql_tail"
  by (simp add: meta_sql_fmt_def meta_sql_head_def meta_sql_tail_def)

lemma meta_sql_no_pct: "PERCENT \<notin> set meta_sql_head" "PERCENT \<notin> set meta_sql_tail"
  by (simp_all add: meta_sql_head_def meta_sql_tail_def)

lemma meta_get_sql_literal:
  assumes "env_pq_escape E c s = Some (pq_literal s)" and "length s \<le> 4000"
  shows "meta_get_sql E c s = Some (Some (meta_sql_head @ pq_literal s @ meta_sql_tail))"
proof -
  have "printf meta_sql_fmt [PStr (Some (pq_literal s))] = Some (meta_sql_head @ pq_literal s @ meta_sql_tail)"
    by (simp add: meta_sql_fmt_split printf_head printf_no_pct meta_sql_no_pct)
  moreover have "length (meta_sql_head @ pq_literal s @ meta_sql_tail) < 8192"
    using assms(2) length_pq_literal [of s] by (simp add: meta_sql_head_def meta_sql_tail_def)
  ultimately show ?thesis using assms(1) by (simp add: meta_get_sql_def sprintf_buf_def)
qed

text \<open>
  A server with the documents \<open>docs\<close>: to a query whose text reads as one literal between
  head and tail it answers with the document of the path the literal stands for.
\<close>

definition meta_server :: "env \<Rightarrow> nat option \<Rightarrow> (string \<Rightarrow> (string \<times> string) option) \<Rightarrow> bool" where
  "meta_server E c docs \<longleftrightarrow> (\<forall>tr r s. read_literal r = Some (s, meta_sql_tail) \<longrightarrow>
     env_pq_exec E tr c (meta_sql_head @ r) = \<lparr>res_status = PGRES_TUPLES_OK,
       res_rows = (case docs s of None \<Rightarrow> [] | Some (m, t) \<Rightarrow> [[m, t]])\<rparr>)"

text \<open>What is printed of a document.\<close>

definition meta_lines :: "meta_opts \<Rightarrow> string \<Rightarrow> (string \<times> string) option \<Rightarrow> string list" where
  "meta_lines v filename doc = (''## file: '' @ filename @ [NL]) # (case doc of
     None \<Rightarrow> [''## no document metadata found.'' @ [NL]]
   | Some (m, t) \<Rightarrow>
       (if print_meta v then [NL # ''## document metadata'' @ [NL], m @ [NL]] else []) @
       (if print_text v then [NL # ''## fulltext'' @ [NL], t] else []))"

lemma meta_print_result_run:
  "\<exists>tr'. meta_print_result v f \<lparr>res_status = st,
       res_rows = (case doc of None \<Rightarrow> [] | Some (m, t) \<Rightarrow> [[m, t]])\<rparr> tr = (Ret (), tr') \<and>
     obs out_see tr' = obs out_see tr @ meta_lines v f doc"
  by (cases doc; cases v)
     (auto simp: meta_print_result_def meta_lines_def then_io_apply c_printf_def c_puts_def
        PQgetvalue_def out_see_def)

text \<open>
  C38: the document of the file, and no other.  For a file of the mount whose path
  inside the mount has no percent sign, quotes and backslashes included, the query
  stands for exactly that path: the metadata and the text the database has for it are
  printed, or that there are none.
\<close>

theorem do_meta_prints_document:
  assumes "env_mounts E tr = Some es" and "find_hpssfs es = Some mnt" and "\<And>tr n. env_alloc E tr n"
    and "\<And>s. env_pq_escape E (dbconn db) s = Some (pq_literal s)"
    and "meta_server E (dbconn db) docs" and "PERCENT \<notin> set path" and "length path \<le> 4000"
  shows "\<exists>tr'. do_meta E db v (mnt @ path) tr = (Ret 0, tr') \<and>
     obs out_see tr' = obs out_see tr @ meta_lines v (mnt @ path) (docs path)"
proof -
  let ?sql = "meta_sql_head @ pq_literal path @ meta_sql_tail"
  let ?res = "\<lparr>res_status = PGRES_TUPLES_OK,
      res_rows = (case docs path of None \<Rightarrow> [] | Some (m, t) \<Rightarrow> [[m, t]])\<rparr>"
  have "take 1 meta_sql_tail \<noteq> [SQUOTE]" by (simp add: meta_sql_tail_def)
  then have ans: "env_pq_exec E tr1 (dbconn db) ?sql = ?res" for tr1
    using assms(5) read_pq_literal by (simp add: meta_server_def)
  have "PERCENT \<notin> set ?sql" using pq_literal_no_pct [OF assms(6)] meta_sql_no_pct by simp
  then have "do_meta E db v (mnt @ path) tr
      = then_io (meta_print_result v (mnt @ path) ?res) (return_io 0) (EvPqExec (dbconn db) ?sql ?res # EvMounts # tr)"
    using assms(1-3) meta_get_sql_literal [OF assms(4,7)]
    by (simp add: do_meta_def hpssix_find_hpss_mountpoint_def strdup_def prim_defs bind_io_apply
        strneq_def hpssix_db_psql_query_def printf_no_pct ans del: append_assoc)
  moreover obtain tr' where "meta_print_result v (mnt @ path) ?res (EvPqExec (dbconn db) ?sql ?res # EvMounts # tr)
       = (Ret (), tr')" "obs out_see tr' = obs out_see tr @ meta_lines v (mnt @ path) (docs path)"
    using meta_print_result_run [of v "mnt @ path" PGRES_TUPLES_OK "docs path"
        "EvPqExec (dbconn db) ?sql ?res # EvMounts # tr"] by (auto simp: out_see_def)
  ultimately show ?thesis by (simp add: then_io_apply)
qed

text \<open>A server on the documents \<open>docs\<close>.\<close>

definition ref_meta_server :: "(string \<Rightarrow> (string \<times> string) option) \<Rightarrow> env" where
  "ref_meta_server docs = quiet_env\<lparr>env_mounts := \<lambda>_. Some [(''fuse.hpssfs'', ''/hpss'')],
     env_pq_escape := \<lambda>_ s. Some (pq_literal s),
     env_pq_exec := \<lambda>_ _ q. \<lparr>res_status = PGRES_TUPLES_OK,
       res_rows = (case read_literal (drop (length meta_sql_head) q) of
         None \<Rightarrow> [] | Some (s, _) \<Rightarrow> (case docs s of None \<Rightarrow> [] | Some (m, t) \<Rightarrow> [[m, t]]))\<rparr>\<rparr>"

theorem do_meta_prints_document_witness:
  "\<exists>tr'. do_meta (ref_meta_server [''/it'' @ [SQUOTE] @ ''s'' \<mapsto> (''m'', ''t'')]) \<lparr>dbconn = Some 1\<rparr>
       \<lparr>print_meta = True, print_text = False, auto_prefix = False\<rparr> (''/hpss'' @ ''/it'' @ [SQUOTE] @ ''s'') []
     = (Ret 0, tr') \<and>
     obs out_see tr' = [''## file: /hpss/it'' @ [SQUOTE] @ ''s'' @ [NL],
       NL # ''## document metadata'' @ [NL], ''m'' @ [NL]]"
proof -
  let ?docs = "[''/it'' @ [SQUOTE] @ ''s'' \<mapsto> (''m'', ''t'')]" let ?E = "ref_meta_server ?docs"
  have "meta_server ?E c ?docs" for c
    by (auto simp: meta_server_def ref_meta_server_def)
  moreover have "env_mounts ?E tr = Some [(''fuse.hpssfs'', ''/hpss'')]" "env_alloc ?E tr n"
    "env_pq_escape ?E c s = Some (pq_literal s)" for tr n c s
    by (simp_all add: ref_meta_server_def quiet_env_def)
  ultimately show ?thesis
    using do_meta_prints_document [of ?E "[]" "[(''fuse.hpssfs'', ''/hpss'')]" "''/hpss''" "\<lparr>dbconn = Some 1\<rparr>"
        ?docs "''/it'' @ [SQUOTE] @ ''s''" "\<lparr>print_meta = True, print_text = False, auto_prefix = False\<rparr>"]
    by (simp add: meta_lines_def)
qed

section \<open>The prefix option\<close>

lemma prefix_path_overflows: "prefix_path (length mnt + length path) mnt path = None"
  by (auto simp: prefix_path_def sprintf_buf_def split: option.splits if_splits)

lemma meta_options_known: "set chs \<subseteq> set ''amt'' \<Longrightarrow> \<exists>w. meta_options chs v = Some w"
  by (induction chs v rule: meta_options.induct) auto

lemma meta_options_auto:
  "meta_options chs v = Some w \<Longrightarrow> auto_prefix w \<longleftrightarrow> auto_prefix v \<or> CHR ''a'' \<in> set chs"
  by (induction chs v rule: meta_options.induct) (auto split: if_splits)

text \<open>
  C39: the option that prefixes the mount point never works.  Whenever the mount point
  is found and the memory is there, building the name writes past an allocation that
  leaves no room for the terminating NUL, whatever the path.
\<close>

theorem meta_auto_prefix_overflows:
  assumes "CHR ''a'' \<in> set chs" and "set chs \<subseteq> set ''amt''" and "env_mounts E tr = Some es"
    and "find_hpssfs es = Some mnt" and "\<And>tr n. env_alloc E tr n"
  shows "fst (meta_main E chs [path] tr) = UB"
proof -
  obtain w where "meta_options chs \<lparr>print_meta = False, print_text = False, auto_prefix = False\<rparr> = Some w"
    using meta_options_known [OF assms(2)] by blast
  moreover from this have "auto_prefix w" using meta_options_auto assms(1) by blast
  ultimately show ?thesis
    using assms(3-5)
    by (simp add: meta_main_def meta_filename_def find_hpss_mountpoint_def strdup_def prim_defs
        bind_io_apply Let_def prefix_path_overflows)
qed

theorem meta_auto_prefix_overflows_witness:
  "fst (meta_main (ref_meta_server Map.empty) ''am'' [''/f''] []) = UB"
  using meta_auto_prefix_overflows [of "''am''" "ref_meta_server Map.empty" "[]"
      "[(''fuse.hpssfs'', ''/hpss'')]" "''/hpss''" "''/f''"]
  by (simp add: ref_meta_server_def quiet_env_def)

end
