(* ===== verification/C_Float.thy ===== *)
theory C_Float
  imports C_Stdio
begin

text \<open>
  Reading a floating-point number with \<open>sscanf\<close> (the directive \<open>%lf\<close>), as the GNU library
  does in the C locale.  The model follows which characters a number takes; the number
  itself is known by its text, which is all the sources need: they print it again or
  convert it with \<open>strtoull\<close>.
\<close>

section \<open>The characters of a number\<close>

text \<open>
  The main loop of the conversion: whether a digit, a point, an exponent letter was read,
  and whether the exponent letter was the last character.  The result tells whether there
  was a digit and splits the input.
\<close>

fun lf_body :: "bool \<Rightarrow> bool \<Rightarrow> bool \<Rightarrow> bool \<Rightarrow> bool \<Rightarrow> string \<Rightarrow> bool \<times> string \<times> string" where
  "lf_body hex dig dot expo lst [] = (dig, [], [])"
| "lf_body hex dig dot expo lst (c # cs) =
     (if isdigit c \<or> (\<not> expo \<and> hex \<and> isxdigit c) then
        apsnd (apfst (Cons c)) (lf_body hex True dot expo False cs)
      else if expo \<and> lst \<and> (c = CHR ''-'' \<or> c = CHR ''+'') then
        apsnd (apfst (Cons c)) (lf_body hex dig dot expo False cs)
      else if dig \<and> \<not> expo \<and> tolower c = (if hex then CHR ''p'' else CHR ''e'') then
        apsnd (apfst (Cons c)) (lf_body hex dig True True True cs)
      else if \<not> dot \<and> c = CHR ''.'' then
        apsnd (apfst (Cons c)) (lf_body hex dig True expo False cs)
      else (dig, [], c # cs))"

text \<open>The input ended, no number, or the text of the number and what follows.\<close>

datatype lf = LfEof | LfFail | LfOk string string

definition lf_word :: "string \<Rightarrow> string \<Rightarrow> nat \<Rightarrow> lf" where
  "lf_word sign u n = LfOk (sign @ take n u) (drop n u)"

definition lf_unsigned :: "string \<Rightarrow> string \<Rightarrow> lf" where
  "lf_unsigned sign u =
     (let low = map tolower u in
      if u = [] then LfFail
      else if hd low = CHR ''n'' then (if take 3 low = ''nan'' then lf_word sign u 3 else LfFail)
      else if hd low = CHR ''i'' then
        (if take 3 low \<noteq> ''inf'' then LfFail
         else if take 1 (drop 3 low) \<noteq> ''i'' then lf_word sign u 3
         else if take 8 low = ''infinity'' then lf_word sign u 8
         else LfFail)
      else if take 2 low = ''0x'' then
        (case lf_body True False False False False (drop 2 u) of (_, tok, rest) \<Rightarrow>
           if tok = [] then LfFail else LfOk (sign @ take 2 u @ tok) rest)
      else (case lf_body False False False False False u of (dig, tok, rest) \<Rightarrow>
           if dig then LfOk (sign @ tok) rest else LfFail))"

definition scan_lf :: "string \<Rightarrow> lf" where
  "scan_lf s = (case dropWhile isspace s of
     [] \<Rightarrow> LfEof
   | c # cs \<Rightarrow> if c = CHR ''-'' \<or> c = CHR ''+'' then lf_unsigned [c] cs else lf_unsigned [] (c # cs))"

text \<open>
  \<open>sscanf(s, "%lf%c", \&rval, \&ch)\<close> where \<open>ch\<close> holds \<open>ch0\<close>: the result and \<open>ch\<close> after it.
\<close>

definition sscanf_lf_c :: "string \<Rightarrow> char \<Rightarrow> int \<times> char" where
  "sscanf_lf_c s ch0 = (case scan_lf s of
     LfEof \<Rightarrow> (- 1, ch0)
   | LfFail \<Rightarrow> (0, ch0)
   | LfOk _ [] \<Rightarrow> (1, ch0)
   | LfOk _ (c # _) \<Rightarrow> (2, c))"

text \<open>The text of the double \<open>sscanf(s, "%lf", \&v)\<close> stores; \<open>old\<close> when it stores nothing.\<close>

definition sscanf_lf :: "string \<Rightarrow> string \<Rightarrow> string" where
  "sscanf_lf s old = (case scan_lf s of LfOk tok _ \<Rightarrow> tok | _ \<Rightarrow> old)"

section \<open>Decimal numbers\<close>

text \<open>What follows a number is part of the input.\<close>

lemma lf_body_rest: "set (snd (snd (lf_body hex dig dot expo lst s))) \<subseteq> set s"
  by (induction s arbitrary: hex dig dot expo lst) (simp_all add: subset_insertI2)

lemma scan_lf_rest:
  assumes "scan_lf s = LfOk tok rest"
  shows "set rest \<subseteq> set s"
proof -
  have u: "set rest \<subseteq> set u" if "lf_unsigned sign u = LfOk tok rest" for sign u
    using that lf_body_rest [of True False False False False "drop 2 u"]
      lf_body_rest [of False False False False False u] set_drop_subset [of 2 u]
      set_drop_subset [of 3 u] set_drop_subset [of 8 u]
    by (auto simp: lf_unsigned_def lf_word_def Let_def split: if_splits prod.splits)
  have "set (dropWhile isspace s) \<subseteq> set s" by (simp add: set_dropWhileD subsetI)
  with assms u show ?thesis
    by (fastforce simp: scan_lf_def split: list.splits if_splits)
qed

lemma lf_body_digits:
  "\<forall>c\<in>set ds. isdigit c \<Longrightarrow> ds \<noteq> [] \<Longrightarrow>
     lf_body False dig dot False lst (ds @ r)
       = apsnd (apfst (append ds)) (lf_body False True dot False False r)"
proof (induction ds arbitrary: dig lst)
  case (Cons c ds)
  then show ?case
    by (cases "ds = []") (simp_all add: prod.map_comp comp_def apsnd_compose apfst_compose)
qed simp

lemma digit_lower: "isdigit c \<Longrightarrow> tolower c = c \<and> c \<noteq> CHR ''n'' \<and> c \<noteq> CHR ''i'' \<and> c \<noteq> CHR ''x''
    \<and> c \<noteq> CHR ''-'' \<and> c \<noteq> CHR ''+''"
  by (auto simp: isdigit_def tolower_def code_def)

text \<open>A printed number is read completely when what follows cannot continue it.\<close>

definition lf_stop :: "string \<Rightarrow> bool" where
  "lf_stop r \<longleftrightarrow> (case r of [] \<Rightarrow> True | c # _ \<Rightarrow>
     \<not> isdigit c \<and> tolower c \<noteq> CHR ''e'' \<and> tolower c \<noteq> CHR ''x'' \<and> c \<noteq> CHR ''.'')"

lemma scan_lf_dec:
  assumes "lf_stop r"
  shows "scan_lf (dec n @ r) = LfOk (dec n) r"
proof -
  have ds: "\<forall>c\<in>set (dec n). isdigit c" using dec_isdigit by blast
  obtain c cs where d: "dec n = c # cs" by (cases "dec n") simp_all
  have "lf_body False True False False False r = (True, [], r)"
    using assms by (cases r) (auto simp: lf_stop_def)
  then have body: "lf_body False False False False False (dec n @ r) = (True, dec n, r)"
    using lf_body_digits [OF ds dec_nonempty] by simp
  have c: "isdigit c" "tolower c = c" "c \<noteq> CHR ''n''" "c \<noteq> CHR ''i''" "c \<noteq> CHR ''-''" "c \<noteq> CHR ''+''" "\<not> isspace c"
    using ds d digit_lower isdigit_not_isspace by auto
  have "take 1 (cs @ r) = [x] \<Longrightarrow> tolower x \<noteq> CHR ''x''" for x
    using assms ds d digit_lower
    by (cases cs; cases r) (auto simp: lf_stop_def)
  then have "take 2 (map tolower (dec n @ r)) \<noteq> ''0x''"
    using d by (cases "cs @ r") auto
  moreover have "hd (map tolower (dec n @ r)) = c" "dec n @ r \<noteq> []" using c d by simp_all
  ultimately have "lf_unsigned [] (dec n @ r) = LfOk (dec n) r"
    using c(3,4) unfolding lf_unsigned_def Let_def
    by (simp only: if_False body prod.case if_True append_Nil simp_thms)
  then show ?thesis
    using c(5-7) d by (simp add: scan_lf_def)
qed

end
