(* ===== verification/Hpssix_Search.thy ===== *)
theory Hpssix_Search
  imports Hpssix_Db C_Float "HOL-Library.Signed_Division"
begin

text \<open>
  The search utility (hpssix-search.h, hpssix-search.c, hpssix-search-fattr.c,
  hpssix-search-tag.c, hpssix-search-tsv.c): it reads conditions on file attributes, tags
  and document contents from the command line, makes one SQL query of them and prints
  what the database answers.
\<close>

section \<open>Conditions (hpssix-search.h)\<close>

abbreviation (input) COND_ARG_NONE :: int where "COND_ARG_NONE \<equiv> - 1"
abbreviation (input) COND_ARG_INODE :: nat where "COND_ARG_INODE \<equiv> 0"
abbreviation (input) COND_ARG_MODE :: nat where "COND_ARG_MODE \<equiv> 1"
abbreviation (input) COND_ARG_UID :: nat where "COND_ARG_UID \<equiv> 2"
abbreviation (input) COND_ARG_GID :: nat where "COND_ARG_GID \<equiv> 3"
abbreviation (input) COND_ARG_SIZE :: nat where "COND_ARG_SIZE \<equiv> 4"
abbreviation (input) COND_ARG_ATIME :: nat where "COND_ARG_ATIME \<equiv> 5"
abbreviation (input) COND_ARG_MTIME :: nat where "COND_ARG_MTIME \<equiv> 6"
abbreviation (input) COND_ARG_CTIME :: nat where "COND_ARG_CTIME \<equiv> 7"
abbreviation (input) N_COND_ARG :: nat where "N_COND_ARG \<equiv> 8"

abbreviation (input) HPSSIX_OP_EQ :: int where "HPSSIX_OP_EQ \<equiv> 0"
abbreviation (input) HPSSIX_OP_GT :: int where "HPSSIX_OP_GT \<equiv> 1"
abbreviation (input) HPSSIX_OP_GE :: int where "HPSSIX_OP_GE \<equiv> 2"
abbreviation (input) HPSSIX_OP_LT :: int where "HPSSIX_OP_LT \<equiv> 3"
abbreviation (input) HPSSIX_OP_LE :: int where "HPSSIX_OP_LE \<equiv> 4"
abbreviation (input) HPSSIX_OP_NE :: int where "HPSSIX_OP_NE \<equiv> 5"
abbreviation (input) HPSSIX_OP_BETWEEN :: int where "HPSSIX_OP_BETWEEN \<equiv> 6"
abbreviation (input) HPSSIX_OP_BITAND :: int where "HPSSIX_OP_BITAND \<equiv> 7"

definition opstr :: "string list" where
  "opstr = [''='', ''>'', ''>='', ''<'', ''<='', ''<>'']"

text \<open>\<open>opstr[op]\<close>; an index outside the array is undefined.\<close>

definition opstr_at :: "int \<Rightarrow> string option" where
  "opstr_at k = (if 0 \<le> k \<and> nat k < length opstr then Some (opstr ! nat k) else None)"

record fattr_cond =
  fc_attr :: int
  fc_op :: int
  fc_val1 :: u64
  fc_val2 :: u64

definition fattr_cond_zero :: fattr_cond where
  "fattr_cond_zero = \<lparr>fc_attr = 0, fc_op = 0, fc_val1 = 0, fc_val2 = 0\<rparr>"

record search_fattr =
  sf_removed :: bool
  sf_cond :: "fattr_cond list"

text \<open>The structure was cleared by its initialiser; the conditions are marked unused.\<close>

definition hpssix_search_fattr_init :: search_fattr where
  "hpssix_search_fattr_init = \<lparr>sf_removed = False,
     sf_cond = replicate N_COND_ARG (fattr_cond_zero\<lparr>fc_attr := COND_ARG_NONE\<rparr>)\<rparr>"

definition hpssix_search_fattr_add_cond :: "search_fattr \<Rightarrow> fattr_cond \<Rightarrow> search_fattr option" where
  "hpssix_search_fattr_add_cond search cond =
     (if 0 \<le> fc_attr cond \<and> nat (fc_attr cond) < length (sf_cond search)
      then Some (search\<lparr>sf_cond := (sf_cond search)[nat (fc_attr cond) := cond]\<rparr>) else None)"

text \<open>A tag condition; the doubles are known by the texts they are read from.\<close>

record tag_cond =
  tc_name :: string
  tc_val :: string
  tc_op :: int
  tc_val1 :: string
  tc_val2 :: string

section \<open>Printing into a buffer\<close>

text \<open>\<open>pos += sprintf(pos, fmt, ...)\<close> in a buffer of \<open>cap\<close> bytes that holds \<open>acc\<close>.\<close>

definition emit :: "nat \<Rightarrow> string \<Rightarrow> parg list \<Rightarrow> string \<Rightarrow> string option" where
  "emit cap fmt args acc = map_option (append acc) (sprintf_buf (cap - length acc) fmt args)"

section \<open>File attributes (hpssix-search-fattr.c)\<close>

definition fstr :: "string list" where
  "fstr = [''oid'', ''st_mode'', ''st_uid'', ''st_gid'', ''st_size'', ''st_atime'', ''st_mtime'', ''st_ctime'']"

definition emit_fattr_cond :: "nat \<Rightarrow> fattr_cond \<Rightarrow> string \<Rightarrow> string option" where
  "emit_fattr_cond i cond acc =
     (if int i \<noteq> fc_attr cond then Some acc
      else if fc_op cond = HPSSIX_OP_BETWEEN then
        emit 4096 '' AND %s BETWEEN %lu AND %lu''
          [PStr (Some (fstr ! i)), PInt (fc_val1 cond), PInt (fc_val2 cond)] acc
      else if fc_op cond = HPSSIX_OP_BITAND then
        emit 4096 '' AND %s & %lu > 0'' [PStr (Some (fstr ! i)), PInt (fc_val1 cond)] acc
      else (case opstr_at (fc_op cond) of
              None \<Rightarrow> None
            | Some o1 \<Rightarrow> emit 4096 '' AND %s %s %lu''
                [PStr (Some (fstr ! i)), PStr (Some o1), PInt (fc_val1 cond)] acc))"

fun emit_fattr_conds :: "nat \<Rightarrow> fattr_cond list \<Rightarrow> string \<Rightarrow> string option" where
  "emit_fattr_conds i [] acc = Some acc"
| "emit_fattr_conds i (cond # conds) acc =
     Option.bind (emit_fattr_cond i cond acc) (emit_fattr_conds (Suc i) conds)"

definition fattr_sql_head :: "bool \<Rightarrow> string" where
  "fattr_sql_head rm = ''WITH'' @ [NL] @ ''  fattr_oids AS'' @ [NL] @
     ''    (SELECT oid FROM hpssix_object WHERE valid='' @ (if rm then ''false'' else ''true'')"

definition get_sql_fattr :: "search_fattr \<Rightarrow> string option" where
  "get_sql_fattr search =
     Option.bind (emit 4096 (fattr_sql_head (sf_removed search)) [] []) (\<lambda>acc.
     Option.bind (emit_fattr_conds 0 (sf_cond search) acc) (emit 4096 '')'' []))"

definition hpssix_search_fattr_get_sql :: "search_fattr \<Rightarrow> string option" where
  [simp]: "hpssix_search_fattr_get_sql search = get_sql_fattr search"

section \<open>Tags (hpssix-search-tag.c)\<close>

text \<open>The name of the key is the first of three arguments for two \<open>%lf\<close> when the range is written.\<close>

definition write_numeric_predicate :: "env \<Rightarrow> tag_cond \<Rightarrow> string \<Rightarrow> string option" where
  "write_numeric_predicate E cond acc =
     Option.bind (emit 8192 (''(kid=(SELECT kid FROM hpssix_attr_key WHERE name='' @ [SQUOTE] @ ''%s'' @ [SQUOTE] @ '')'')
        [PStr (Some (tc_name cond))] acc) (\<lambda>acc.
     if tc_op cond = HPSSIX_OP_BETWEEN then
       emit 8192 '' AND rval BETWEEN %lf AND %lf)''
         [PStr (Some (tc_name cond)), PDbl (env_lf E (tc_val1 cond)), PDbl (env_lf E (tc_val2 cond))] acc
     else Option.bind (opstr_at (tc_op cond)) (\<lambda>o1.
       emit 8192 '' AND rval %s %lf)'' [PStr (Some o1), PDbl (env_lf E (tc_val1 cond))] acc))"

definition write_string_predicate :: "tag_cond \<Rightarrow> string \<Rightarrow> string option" where
  "write_string_predicate cond acc =
     Option.bind (emit 8192 (''(kid=(SELECT kid FROM hpssix_attr_key WHERE name='' @ [SQUOTE] @ ''%s'' @ [SQUOTE] @ '')'')
        [PStr (Some (tc_name cond))] acc)
     (emit 8192 ('' AND sval LIKE '' @ [SQUOTE] @ ''%%%%%s%%%%'' @ [SQUOTE] @ '')'') [PStr (Some (tc_val cond))])"

fun emit_tag_conds :: "env \<Rightarrow> bool \<Rightarrow> tag_cond list \<Rightarrow> string \<Rightarrow> string option" where
  "emit_tag_conds E later [] acc = Some acc"
| "emit_tag_conds E later (cond # conds) acc =
     Option.bind (emit 8192 (if later then '' AND '' else '' WHERE '') [] acc) (\<lambda>acc.
     Option.bind (if tc_op cond \<ge> 0 then write_numeric_predicate E cond acc
                  else write_string_predicate cond acc)
       (emit_tag_conds E True conds))"

definition get_sql_tag :: "env \<Rightarrow> tag_cond list \<Rightarrow> string option" where
  "get_sql_tag E conds =
     Option.bind (emit 8192 (''  tag_oids (oid) AS'' @ [NL] @ ''    (SELECT oid FROM hpssix_attr_val'') [] []) (\<lambda>acc.
     Option.bind (emit_tag_conds E False conds acc) (emit 8192 '')'' []))"

definition hpssix_search_tag_get_sql :: "env \<Rightarrow> tag_cond list \<Rightarrow> string option" where
  [simp]: "hpssix_search_tag_get_sql E conds = get_sql_tag E conds"

section \<open>Documents (hpssix-search-tsv.c)\<close>

definition hpssix_search_tsv_get_sql :: "string option \<Rightarrow> string option" where
  "hpssix_search_tsv_get_sql keyword = sprintf_buf 8192
     (''  tsv_oids (oid, tsv) AS'' @ [NL] @
      ''    (SELECT oid, tsv FROM (SELECT oid, tsv FROM hpssix_attr_document, PLAINTO_TSQUERY('' @
      [SQUOTE] @ ''%s'' @ [SQUOTE] @ '') AS q WHERE (tsv @@ q)) t1)'') [PStr keyword]"

section \<open>Reading conditions (hpssix-search.c)\<close>

text \<open>\<open>None\<close>: the program exits with status 1.  The number parts come from \<open>sscanf\<close>.\<close>

definition parse_datetime_str :: "env \<Rightarrow> string \<Rightarrow> u64 option" where
  "parse_datetime_str E str = (case sscanf ''%d-%02d:%02d:%02d'' 4 str of
     None \<Rightarrow> None
   | Some (ret, vs) \<Rightarrow>
       if ret \<noteq> 4 then None
       else let date = int32 (vs ! 0) in
         Some (env_mktime E \<lparr>tm_sec = int32 (vs ! 3), tm_min = int32 (vs ! 2), tm_hour = int32 (vs ! 1),
           tm_mday = date smod 100, tm_mon = (date smod 10000) sdiv 100 - 1,
           tm_year = date sdiv 10000 - 1900\<rparr>))"

definition datetime_io :: "env \<Rightarrow> string \<Rightarrow> u64 io" where
  "datetime_io E str = (case parse_datetime_str E str of None \<Rightarrow> exit_io 1 | Some d \<Rightarrow> return_io d)"

text \<open>
  Characters are read up to the terminating NUL of the copy; \<open>str[1]\<close> of the empty string
  and \<open>str[2]\<close> of a string of one character are outside it.
\<close>

definition parse_datetime :: "env \<Rightarrow> string \<Rightarrow> string io" where
  "parse_datetime E str0 =
     bind_io (strdup E str0) (\<lambda>r. case r of
       None \<Rightarrow> exit_io 1
     | Some str \<Rightarrow> (case str of
         [] \<Rightarrow> undef_io
       | c0 # rest0 \<Rightarrow>
           if isdigit c0 then (case strchr str (CHR '','') of
               Some p \<Rightarrow>
                 bind_io (datetime_io E (takeWhile (\<lambda>x. x \<noteq> CHR '','') str)) (\<lambda>d1.
                 bind_io (datetime_io E (tl p)) (\<lambda>d2.
                 lift_io (sprintf_buf 512 ''%lu,%lu'' [PInt d1, PInt d2])))
             | None \<Rightarrow> bind_io (datetime_io E str) (\<lambda>d1. lift_io (sprintf_buf 512 ''%lu'' [PInt d1])))
           else (case rest0 of
               [] \<Rightarrow> undef_io
             | c1 # rest1 \<Rightarrow>
                 if isdigit c1 then
                   bind_io (datetime_io E rest0) (\<lambda>d1.
                     lift_io (sprintf_buf 512 ''%c%lu'' [PInt (of_nat (code c0)), PInt d1]))
                 else if rest1 \<noteq> [] \<and> isdigit (hd rest1) then
                   bind_io (datetime_io E rest1) (\<lambda>d1.
                     lift_io (sprintf_buf 512 ''%c%c%lu''
                       [PInt (of_nat (code c0)), PInt (of_nat (code c1)), PInt d1]))
                 else exit_io 1)))"

text \<open>
  \<open>parse_op\<close>: the result, \<open>op\<close>, \<open>val1\<close> and \<open>val2\<close> (null pointers when not written).  The
  second scan of the empty string starts behind its NUL: undefined.
\<close>

type_synonym parsed_op = "int \<times> int \<times> string option \<times> string option"

definition strval :: parsed_op where
  "strval = (0, - 1, None, None)"

definition one_char_op :: "char \<Rightarrow> int" where
  "one_char_op c = (if c = CHR ''='' then HPSSIX_OP_EQ else if c = CHR ''>'' then HPSSIX_OP_GT
     else if c = CHR ''<'' then HPSSIX_OP_LT else - 1)"

definition two_char_op :: "string \<Rightarrow> int" where
  "two_char_op str =
     (if strneq str ''>='' 2 \<or> strneq str ''=>'' 2 then HPSSIX_OP_GE
      else if strneq str ''<='' 2 \<or> strneq str ''=<'' 2 then HPSSIX_OP_LE
      else if strneq str ''!='' 2 \<or> strneq str ''<>'' 2 then HPSSIX_OP_NE else - 1)"

definition parse_op_prefix :: "string \<Rightarrow> char \<Rightarrow> parsed_op option" where
  "parse_op_prefix str ch = (case str of
     [] \<Rightarrow> None
   | c0 # rest \<Rightarrow>
       let (ret, ch) = sscanf_lf_c rest ch in
       if ret < 0 then Some strval
       else if ret > 0 then
         (if ch \<noteq> NUL \<or> one_char_op c0 < 0 then Some strval
          else Some (0, one_char_op c0, Some rest, None))
       else (case rest of
           [] \<Rightarrow> None
         | c1 # rest1 \<Rightarrow>
             let (ret, ch) = sscanf_lf_c rest1 ch in
             if ret > 0 \<and> ch = NUL \<and> two_char_op str \<ge> 0
             then Some (0, two_char_op str, Some rest1, None) else Some strval))"

definition parse_op :: "string option \<Rightarrow> parsed_op option" where
  "parse_op s = (case s of
     None \<Rightarrow> Some (EINVAL, 0, None, None)
   | Some str \<Rightarrow>
       let (ret, ch) = sscanf_lf_c str NUL in
       if ret > 0 then
         (if ch = NUL then Some (0, HPSSIX_OP_EQ, Some str, None)
          else if ch = CHR '','' then (case strchr str (CHR '','') of
              None \<Rightarrow> None
            | Some tmp \<Rightarrow>
                if fst (sscanf_lf_c (tl tmp) ch) \<noteq> 1 then Some strval
                else Some (0, HPSSIX_OP_BETWEEN, Some (takeWhile (\<lambda>x. x \<noteq> CHR '','') str), Some (tl tmp)))
          else Some strval)
       else parse_op_prefix str ch)"

text \<open>The condition kept in \<open>cond\<close>: a second value of an earlier range stays in it.\<close>

definition parse_fattr_condition :: "fattr_cond \<Rightarrow> string \<Rightarrow> nat \<Rightarrow> (int \<times> fattr_cond) option" where
  "parse_fattr_condition cond str attr = (case parse_op (Some str) of
     None \<Rightarrow> None
   | Some (ret, opr, val1, val2) \<Rightarrow>
       if ret < 0 \<or> opr < 0 then Some (EINVAL, cond)
       else Option.bind val1 (\<lambda>v1.
         let cond = cond\<lparr>fc_attr := int attr, fc_op := opr, fc_val1 := fst (strtoull0 v1)\<rparr> in
         Some (0, case val2 of None \<Rightarrow> cond | Some v2 \<Rightarrow> cond\<lparr>fc_val2 := fst (strtoull0 v2)\<rparr>)))"

definition cond_dir_mode :: fattr_cond where
  "cond_dir_mode = \<lparr>fc_attr = int COND_ARG_MODE, fc_op = HPSSIX_OP_BITAND, fc_val1 = 0x4000, fc_val2 = 0\<rparr>"

definition cond_file_mode :: fattr_cond where
  "cond_file_mode = \<lparr>fc_attr = int COND_ARG_MODE, fc_op = HPSSIX_OP_BITAND, fc_val1 = 0x8000, fc_val2 = 0\<rparr>"

text \<open>The loop over \<open>cond_str\<close>, from index \<open>i\<close>.\<close>

fun fattr_conds_loop :: "nat \<Rightarrow> string option list \<Rightarrow> fattr_cond \<Rightarrow> search_fattr \<Rightarrow> search_fattr io" where
  "fattr_conds_loop i [] cond fattr = return_io fattr"
| "fattr_conds_loop i (None # cs) cond fattr = fattr_conds_loop (Suc i) cs cond fattr"
| "fattr_conds_loop i (Some str # cs) cond fattr =
     bind_io (lift_io (parse_fattr_condition cond str i)) (\<lambda>(ret, cond).
     if ret \<noteq> 0 then exit_io EINVAL
     else bind_io (lift_io (hpssix_search_fattr_add_cond fattr cond)) (fattr_conds_loop (Suc i) cs cond))"

section \<open>The command line\<close>

record search =
  countonly :: bool
  removed :: bool
  showino :: bool
  directory_only :: bool
  file_only :: bool
  verbose :: bool
  keyword :: "string option"
  limit :: u64
  cond_str :: "string option list"
  tag_conds :: "tag_cond list"
  srch_name :: "string option"
  srch_path :: "string option"

definition search_zero :: search where
  "search_zero = \<lparr>countonly = False, removed = False, showino = False, directory_only = False,
     file_only = False, verbose = False, keyword = None, limit = 0,
     cond_str = replicate N_COND_ARG None, tag_conds = [], srch_name = None, srch_path = None\<rparr>"

definition fattr_get_sql :: "search \<Rightarrow> string io" where
  "fattr_get_sql g =
     bind_io (fattr_conds_loop 0 (cond_str g) fattr_cond_zero hpssix_search_fattr_init) (\<lambda>fattr.
     bind_io (if directory_only g \<or> file_only g then
                (if cond_str g ! COND_ARG_MODE \<noteq> None then exit_io EINVAL
                 else lift_io (hpssix_search_fattr_add_cond fattr
                        (if directory_only g then cond_dir_mode else cond_file_mode)))
              else return_io fattr) (\<lambda>fattr.
     lift_io (hpssix_search_fattr_get_sql (fattr\<lparr>sf_removed := removed g\<rparr>))))"

definition tag_get_sql :: "env \<Rightarrow> search \<Rightarrow> string io" where
  "tag_get_sql E g = lift_io (hpssix_search_tag_get_sql E (tag_conds g))"

definition tsv_get_sql :: "search \<Rightarrow> string io" where
  "tsv_get_sql g = lift_io (hpssix_search_tsv_get_sql (keyword g))"

text \<open>
  \<open>add_tag_cond\<close>: the array has 128 entries, a name 1024 bytes.  A range leaves the text of
  the value cut at its comma.
\<close>

definition add_tag_cond :: "env \<Rightarrow> tag_cond list \<Rightarrow> string \<Rightarrow> tag_cond list io" where
  "add_tag_cond E conds str =
     bind_io (strdup E str) (\<lambda>r. case r of
       None \<Rightarrow> exit_io ENOMEM
     | Some name \<Rightarrow> (case strchr name (CHR '':'') of
         None \<Rightarrow> exit_io EINVAL
       | Some v \<Rightarrow>
           if 128 \<le> length conds then undef_io
           else bind_io (lift_io (sprintf_buf 1024 ''user.hpssix.%s''
                  [PStr (Some (takeWhile (\<lambda>x. x \<noteq> CHR '':'') name))])) (\<lambda>tag_name.
             bind_io (lift_io (parse_op (Some (tl v)))) (\<lambda>(ret, opr, val1, val2).
             if ret > 0 then exit_io EINVAL
             else return_io (conds @ [\<lparr>tc_name = tag_name,
                 tc_val = (if opr = HPSSIX_OP_BETWEEN then (case val1 of Some a \<Rightarrow> a | None \<Rightarrow> []) else tl v), tc_op = opr,
                 tc_val1 = (case val1 of Some a \<Rightarrow> sscanf_lf a ''0'' | None \<Rightarrow> ''0''),
                 tc_val2 = (case val2 of Some b \<Rightarrow> sscanf_lf b ''0'' | None \<Rightarrow> ''0'')\<rparr>])))))"

definition set_cond :: "env \<Rightarrow> nat \<Rightarrow> string \<Rightarrow> search \<Rightarrow> search io" where
  "set_cond E i optarg g = bind_io (strdup E optarg) (\<lambda>c.
     return_io (g\<lparr>cond_str := (cond_str g)[i := c]\<rparr>))"

text \<open>
  One option, with its argument.  Options \<open>V\<close> and \<open>t\<close> have no effect.  The usage, which is
  not modelled, is printed for \<open>h\<close> and for an unknown option.
\<close>

definition search_option :: "env \<Rightarrow> char \<Rightarrow> string \<Rightarrow> search \<Rightarrow> search io" where
  "search_option E ch optarg g =
     (if ch = CHR ''A'' then set_cond E COND_ARG_ATIME optarg g
      else if ch = CHR ''C'' then set_cond E COND_ARG_CTIME optarg g
      else if ch = CHR ''D'' then return_io (g\<lparr>directory_only := True\<rparr>)
      else if ch = CHR ''F'' then return_io (g\<lparr>file_only := True\<rparr>)
      else if ch = CHR ''M'' then set_cond E COND_ARG_MTIME optarg g
      else if ch = CHR ''T'' then
        bind_io (add_tag_cond E (tag_conds g) optarg) (\<lambda>cs. return_io (g\<lparr>tag_conds := cs\<rparr>))
      else if ch = CHR ''I'' then return_io (g\<lparr>showino := True\<rparr>)
      else if ch = CHR ''c'' then return_io (g\<lparr>countonly := True\<rparr>)
      else if ch = CHR ''d'' then
        bind_io (parse_datetime E optarg) (\<lambda>d.
        return_io (g\<lparr>cond_str := (cond_str g)[COND_ARG_MTIME := Some d]\<rparr>))
      else if ch = CHR ''k'' then bind_io (strdup E optarg) (\<lambda>k. return_io (g\<lparr>keyword := k\<rparr>))
      else if ch = CHR ''l'' then return_io (g\<lparr>limit := fst (strtoull0 optarg)\<rparr>)
      else if ch = CHR ''V'' then return_io g
      else if ch = CHR ''r'' then return_io (g\<lparr>removed := True\<rparr>)
      else if ch = CHR ''t'' then return_io g
      else if ch = CHR ''v'' then return_io (g\<lparr>verbose := True\<rparr>)
      else if ch = CHR ''i'' then set_cond E COND_ARG_INODE optarg g
      else if ch = CHR ''m'' then set_cond E COND_ARG_MODE optarg g
      else if ch = CHR ''u'' then set_cond E COND_ARG_UID optarg g
      else if ch = CHR ''g'' then set_cond E COND_ARG_GID optarg g
      else if ch = CHR ''s'' then set_cond E COND_ARG_SIZE optarg g
      else if ch = CHR ''n'' then bind_io (strdup E optarg) (\<lambda>k. return_io (g\<lparr>srch_name := k\<rparr>))
      else if ch = CHR ''p'' then bind_io (strdup E optarg) (\<lambda>k. return_io (g\<lparr>srch_path := k\<rparr>))
      else exit_io 0)"

fun search_options :: "env \<Rightarrow> (char \<times> string) list \<Rightarrow> search \<Rightarrow> search io" where
  "search_options E [] g = return_io g"
| "search_options E ((ch, optarg) # opts) g = bind_io (search_option E ch optarg g) (search_options E opts)"

section \<open>The query\<close>

text \<open>The text between the first character, which must be a quote, and the last quote.\<close>

definition remove_single_quote :: "env \<Rightarrow> string \<Rightarrow> string option io" where
  "remove_single_quote E str =
     (if take 1 str \<noteq> [SQUOTE] then return_io None
      else (case strrchr str SQUOTE of
              None \<Rightarrow> return_io None
            | Some r \<Rightarrow> strdup E (tl (take (length str - length r) str))))"

text \<open>
  An escaped pattern: \<open>Inl\<close> the error number when the escaping fails, \<open>Inr None\<close> when there
  is no pattern or \<open>remove_single_quote\<close> gives a null pointer.
\<close>

definition escape_pattern :: "env \<Rightarrow> hpssix_db \<Rightarrow> string option \<Rightarrow> (int + string option) io" where
  "escape_pattern E db p = (case p of
     None \<Rightarrow> return_io (Inr None)
   | Some t \<Rightarrow> (case env_pq_escape E (dbconn db) t of
       None \<Rightarrow> bind_io (c_errno E) (\<lambda>e. return_io (Inl e))
     | Some q \<Rightarrow> bind_io (remove_single_quote E q) (\<lambda>r. return_io (Inr r))))"

definition like_pattern :: string where
  "like_pattern = [SQUOTE] @ ''%%%%%s%%%%'' @ [SQUOTE]"

text \<open>The result and the contents of the buffer, which has 2 to the 20 bytes in all.\<close>

definition get_file_predicate :: "env \<Rightarrow> hpssix_db \<Rightarrow> search \<Rightarrow> string \<Rightarrow> (int \<times> string) io" where
  "get_file_predicate E db g acc =
     (let put = (\<lambda>fmt args. bind_io (lift_io (emit 1048576 fmt args acc)) (\<lambda>acc'.
            return_io (int (length acc') - int (length acc), acc'))) in
      if srch_name g = None \<and> srch_path g = None then return_io (0, acc)
      else bind_io (escape_pattern E db (srch_name g)) (\<lambda>n. case n of
          Inl e \<Rightarrow> return_io (- e, acc)
        | Inr name_escaped \<Rightarrow> bind_io (escape_pattern E db (srch_path g)) (\<lambda>p. case p of
            Inl e \<Rightarrow> return_io (- e, acc)
          | Inr path_escaped \<Rightarrow> (case (name_escaped, path_escaped) of
              (Some n, Some p) \<Rightarrow> put (''WHERE f.name LIKE '' @ like_pattern @ '' AND f.path LIKE '' @ like_pattern @ '' '')
                [PStr (Some n), PStr (Some p)]
            | (Some n, None) \<Rightarrow> put (''WHERE f.name LIKE '' @ like_pattern @ '' '') [PStr (Some n)]
            | (None, Some p) \<Rightarrow> put (''WHERE f.path LIKE '' @ like_pattern @ '' '') [PStr (Some p)]
            | (None, None) \<Rightarrow> return_io (- EINVAL, acc)))))"

text \<open>\<open>emit\<close> as a program, into the buffer \<open>sqlbuf\<close>.\<close>

definition put_sql :: "string \<Rightarrow> parg list \<Rightarrow> string \<Rightarrow> string io" where
  "put_sql fmt args acc = lift_io (emit 1048576 fmt args acc)"

text \<open>The common table expressions of the query.\<close>

definition search_with :: "env \<Rightarrow> search \<Rightarrow> string io" where
  "search_with E g =
     bind_io (fattr_get_sql g) (\<lambda>sql_fattr.
     bind_io (put_sql (NL # ''%s'') [PStr (Some sql_fattr)] []) (\<lambda>acc.
     bind_io (if tag_conds g = [] then return_io acc
              else bind_io (tag_get_sql E g) (\<lambda>sql_tags.
                put_sql ('','' @ [NL] @ ''%s'') [PStr (Some sql_tags)] acc)) (\<lambda>acc.
     if keyword g = None then return_io acc
     else bind_io (tsv_get_sql g) (\<lambda>sql_tsv.
       put_sql ('','' @ [NL] @ ''%s'') [PStr (Some sql_tsv)] acc))))"

text \<open>The joins, up to the file predicate.\<close>

definition search_select :: "search \<Rightarrow> string \<Rightarrow> string io" where
  "search_select g acc =
     bind_io (put_sql (NL # (if countonly g then ''SELECT COUNT(f.path) FROM fattr_oids ''
                             else ''SELECT f.oid, f.path FROM fattr_oids '')) [] acc) (\<lambda>acc.
     bind_io (if tag_conds g = [] then return_io acc else put_sql ''NATURAL JOIN tag_oids '' [] acc) (\<lambda>acc.
     bind_io (if keyword g = None then return_io acc else put_sql ''NATURAL JOIN tsv_oids t '' [] acc)
       (put_sql ''NATURAL JOIN hpssix_file f '' [])))"

definition search_tail :: "search \<Rightarrow> string \<Rightarrow> string io" where
  "search_tail g acc =
     bind_io (case keyword g of
         None \<Rightarrow> return_io acc
       | Some k \<Rightarrow> put_sql (NL # ''ORDER BY TS_RANK_CD(t.tsv, PLAINTO_TSQUERY('' @ [SQUOTE] @ ''%s'' @ [SQUOTE] @ '')) DESC '')
           [PStr (Some k)] acc) (\<lambda>acc.
     if limit g = 0 then return_io acc else put_sql '' LIMIT %lu;'' [PInt (limit g)] acc)"

section \<open>Results\<close>

fun print_sql_chars :: "string \<Rightarrow> unit io" where
  "print_sql_chars [] = return_io ()"
| "print_sql_chars (c # cs) =
     then_io (if c = NL then c_puts (NL # ''## '') else c_puts [c]) (print_sql_chars cs)"

definition print_sql :: "string \<Rightarrow> unit io" where
  "print_sql sql = then_io (c_puts ''## SQL:'') (then_io (print_sql_chars sql) (c_puts [NL, NL]))"

fun print_rows :: "search \<Rightarrow> hpssix_config \<Rightarrow> pgresult \<Rightarrow> nat list \<Rightarrow> unit io" where
  "print_rows g config res [] = return_io ()"
| "print_rows g config res (i # rest) =
     then_io
       (if showino g then
          bind_io (lift_io (PQgetvalue res i 0)) (\<lambda>ino.
          c_printf (''%10lu: %s%s'' @ [NL])
            [PInt (fst (strtoull0 ino)), PStr (hpss_mountpoint config), PStr (PQgetvalue res i 1)])
        else c_printf (''%s%s'' @ [NL]) [PStr (hpss_mountpoint config), PStr (PQgetvalue res i 1)])
       (print_rows g config res rest)"

definition print_result :: "search \<Rightarrow> hpssix_config \<Rightarrow> string \<Rightarrow> string \<Rightarrow> pgresult \<Rightarrow> unit io" where
  "print_result g config elapsed sql res =
     then_io (if verbose g then print_sql sql else return_io ())
     (then_io (if countonly g then c_printf (''%s'' @ [NL]) [PStr (PQgetvalue res 0 0)]
               else print_rows g config res [0..<length (res_rows res)])
     (if verbose g then
        c_printf (NL # ''## %lu records found in %lf seconds.'' @ [NL])
          [PInt (of_nat (length (res_rows res))), PDbl elapsed]
      else return_io ()))"

section \<open>Main program\<close>

text \<open>
  The query is sent as a format.  After the file predicate \<open>ret\<close> is its length, which is
  what the program returns.
\<close>

definition search_run :: "env \<Rightarrow> search \<Rightarrow> string \<Rightarrow> hpssix_config \<Rightarrow> hpssix_db \<Rightarrow> int io" where
  "search_run E g acc config db =
     bind_io (search_select g acc) (\<lambda>acc.
     bind_io (get_file_predicate E db g acc) (\<lambda>(ret, acc).
     if ret < 0 then return_io ret
     else bind_io (search_tail g acc) (\<lambda>sql.
       then_io (c_sys E ''gettimeofday'')
       (bind_io (hpssix_db_psql_query E db sql []) (\<lambda>res.
        if res_status res \<noteq> PGRES_TUPLES_OK then return_io ret
        else then_io (c_sys E ''gettimeofday'')
          (bind_io (\<lambda>tr. (Ret (env_elapsed E tr), tr)) (\<lambda>elapsed.
           then_io (print_result g config elapsed sql res)
           (then_io (hpssix_db_disconnect (Some db)) (return_io ret)))))))))"

definition search_main :: "env \<Rightarrow> nat \<Rightarrow> (char \<times> string) list \<Rightarrow> int io" where
  "search_main E argc opts =
     (if argc = 1 then exit_io 0
      else bind_io (search_options E opts search_zero) (\<lambda>g.
        bind_io (search_with E g) (\<lambda>acc.
        if directory_only g \<and> file_only g then return_io EINVAL
        else bind_io (hpssix_config_read_sysconf E (Some config_zero)) (\<lambda>(ret, c1).
          if ret \<noteq> 0 then return_io ret
          else bind_io (lift_io c1) (\<lambda>config.
            bind_io (hpssix_db_connect E (Some \<lparr>dbconn = None\<rparr>) config) (\<lambda>(ret, d1).
            if ret \<noteq> 0 then return_io ret
            else bind_io (lift_io d1) (search_run E g acc config)))))))"

end
