(* ===== verification/Hpssix_Search_Run.thy ===== *)
theory Hpssix_Search_Run
  imports Hpssix_Search Hpssix_Admin Pq_Literal
begin

text \<open>
  Properties of the search utility: the conditions a user writes are the conditions the
  program understands, they are well typed wherever they are used as an index, the SQL made
  of them means what they mean, and a search by name sends the pattern as one literal.
\<close>

section \<open>Reading conditions\<close>

lemma sscanf_lf_c_dec [simp]: "sscanf_lf_c (dec n) ch = (1, ch)"
  using scan_lf_dec [of "[]" n] by (simp add: sscanf_lf_c_def lf_stop_def)

lemma sscanf_lf_c_dec_comma [simp]: "sscanf_lf_c (dec n @ CHR '','' # r) ch = (2, CHR '','')"
proof -
  have "lf_stop (CHR '','' # r)" by (simp add: lf_stop_def tolower_def code_def)
  then show ?thesis by (simp add: sscanf_lf_c_def scan_lf_dec)
qed

lemma op_char:
  assumes "c \<in> {CHR ''='', CHR ''>'', CHR ''<'', CHR ''!''}"
  shows "\<not> isspace c" "tolower c = c" "\<not> isdigit c" "c \<notin> set ''-+ni0.''"
  using assms by (auto simp: isspace_def code_def tolower_def isdigit_def)

lemma sscanf_lf_c_sign:
  assumes "c \<in> {CHR ''='', CHR ''>'', CHR ''<'', CHR ''!''}"
  shows "sscanf_lf_c (c # r) ch = (0, ch)"
  using op_char [OF assms] by (simp add: sscanf_lf_c_def scan_lf_def lf_unsigned_def Let_def)

text \<open>The spellings of the operators, with the operator each stands for.\<close>

definition op_texts :: "(string \<times> int) list" where
  "op_texts = [([], HPSSIX_OP_EQ), (''='', HPSSIX_OP_EQ), (''>'', HPSSIX_OP_GT), (''<'', HPSSIX_OP_LT),
     (''>='', HPSSIX_OP_GE), (''=>'', HPSSIX_OP_GE), (''<='', HPSSIX_OP_LE), (''=<'', HPSSIX_OP_LE),
     (''!='', HPSSIX_OP_NE), (''<>'', HPSSIX_OP_NE)]"

lemma parse_op_text:
  assumes "(t, k) \<in> set op_texts"
  shows "parse_op (Some (t @ dec n)) = Some (0, k, Some (dec n), None)"
  using assms
  by (auto simp: op_texts_def parse_op_def parse_op_prefix_def sscanf_lf_c_sign one_char_op_def
      two_char_op_def strneq_def)

lemma dec_no_comma: "CHR '','' \<notin> set (dec n)"
  using dec_isdigit by fastforce

lemma parse_op_range:
  "parse_op (Some (dec m @ CHR '','' # dec n)) = Some (0, HPSSIX_OP_BETWEEN, Some (dec m), Some (dec n))"
  by (simp add: parse_op_def strchr_def split_at_char dec_no_comma)

lemma strtoull0_dec_word: "fst (strtoull0 (dec (unat (v :: u64)))) = v"
  using strtoull0_dec [of "[]" "unat v"] by simp

text \<open>
  C32: a condition is understood as it is written.  For every operator in every spelling
  the documentation allows and every 64-bit number, the text of the operator and the
  number is read as that operator and that number, and the text of a range as the range.
\<close>

theorem parse_fattr_condition_roundtrip:
  "(\<forall>(t, k)\<in>set op_texts. parse_fattr_condition cond (t @ dec (unat v)) i
      = Some (0, cond\<lparr>fc_attr := int i, fc_op := k, fc_val1 := v\<rparr>)) \<and>
   parse_fattr_condition cond (dec (unat v) @ CHR '','' # dec (unat w)) i
     = Some (0, cond\<lparr>fc_attr := int i, fc_op := HPSSIX_OP_BETWEEN, fc_val1 := v, fc_val2 := w\<rparr>)"
proof -
  have "0 \<le> k" if "(t, k) \<in> set op_texts" for t k
    using that by (auto simp: op_texts_def)
  then show ?thesis
    by (fastforce simp: parse_fattr_condition_def parse_op_text parse_op_range strtoull0_dec_word Let_def)
qed

theorem parse_fattr_condition_roundtrip_witness:
  "parse_fattr_condition fattr_cond_zero (''>='' @ dec 4096) 4
     = Some (0, fattr_cond_zero\<lparr>fc_attr := 4, fc_op := HPSSIX_OP_GE, fc_val1 := 4096\<rparr>)"
  using parse_fattr_condition_roundtrip [of fattr_cond_zero 4096 4 0]
  by (auto simp: op_texts_def)

section \<open>Well-typed conditions\<close>

lemma sscanf_lf_c_char:
  assumes "sscanf_lf_c s NUL = (ret, ch)" and "ch \<noteq> NUL"
  shows "ch \<in> set s"
  using assms scan_lf_rest [of s] by (force simp: sscanf_lf_c_def split: lf.splits list.splits)

lemma sscanf_lf_c_Nil [simp]: "sscanf_lf_c [] ch = (- 1, ch)"
  by (simp add: sscanf_lf_c_def scan_lf_def)

lemma strchr_mem: "c \<in> set s \<Longrightarrow> \<exists>r. strchr s c = Some r"
  by (auto simp: strchr_def dropWhile_eq_Nil_conv split: list.splits)

lemma op_codes: "one_char_op c \<le> 6" "two_char_op s \<le> 6"
  by (simp_all add: one_char_op_def two_char_op_def)

lemma parse_op_typed:
  assumes "str \<noteq> []"
  shows "\<exists>opr v1 v2. parse_op (Some str) = Some (0, opr, v1, v2) \<and> opr \<le> 6 \<and> (0 \<le> opr \<longrightarrow> v1 \<noteq> None)"
proof -
  obtain c0 rest where str: "str = c0 # rest" using assms by (cases str) simp_all
  obtain ret ch where s1: "sscanf_lf_c str NUL = (ret, ch)" by fastforce
  have prefix: "\<exists>opr v1 v2. parse_op_prefix str ch = Some (0, opr, v1, v2) \<and> opr \<le> 6 \<and> (0 \<le> opr \<longrightarrow> v1 \<noteq> None)"
    unfolding parse_op_prefix_def str Let_def strval_def
    using op_codes by (auto split: prod.splits list.splits)
  have "ch = CHR '','' \<Longrightarrow> \<exists>r. strchr str (CHR '','') = Some r"
    using sscanf_lf_c_char [OF s1] strchr_mem by simp
  with prefix show ?thesis
    unfolding parse_op_def by (auto simp: s1 strval_def Let_def)
qed

definition wf_cond :: "nat \<Rightarrow> fattr_cond \<Rightarrow> bool" where
  "wf_cond i cond \<longleftrightarrow> fc_attr cond = COND_ARG_NONE \<or>
     (fc_attr cond = int i \<and> 0 \<le> fc_op cond \<and> fc_op cond \<le> HPSSIX_OP_BITAND)"

definition wf_fattr :: "search_fattr \<Rightarrow> bool" where
  "wf_fattr f \<longleftrightarrow> length (sf_cond f) = N_COND_ARG \<and> (\<forall>i<N_COND_ARG. wf_cond i (sf_cond f ! i))"

lemma wf_fattr_init: "wf_fattr hpssix_search_fattr_init"
  by (simp add: wf_fattr_def hpssix_search_fattr_init_def wf_cond_def)

lemma parse_fattr_condition_typed:
  assumes "str \<noteq> []"
  shows "\<exists>ret cond'. parse_fattr_condition cond str i = Some (ret, cond') \<and>
     (ret = 0 \<longrightarrow> fc_attr cond' = int i \<and> 0 \<le> fc_op cond' \<and> fc_op cond' \<le> 6)"
  using parse_op_typed [OF assms]
  by (auto simp: parse_fattr_condition_def Let_def split: option.splits)

lemma add_cond_typed:
  assumes "wf_fattr f" and "fc_attr cond = int i" "0 \<le> fc_op cond" "fc_op cond \<le> 7" and "i < N_COND_ARG"
  obtains f' where "hpssix_search_fattr_add_cond f cond = Some f'" and "wf_fattr f'"
    and "sf_removed f' = sf_removed f"
  using assms
  by (auto simp: hpssix_search_fattr_add_cond_def wf_fattr_def wf_cond_def nth_list_update)

lemma fattr_conds_loop_typed:
  assumes "wf_fattr f" and "i + length cs \<le> N_COND_ARG" and "Some [] \<notin> set cs"
  shows "(\<exists>f'. fattr_conds_loop i cs cond f w = (Ret f', w) \<and> wf_fattr f')
     \<or> fattr_conds_loop i cs cond f w = (Exit EINVAL, w)"
  using assms
proof (induction i cs cond f rule: fattr_conds_loop.induct)
  case (3 i str cs cond f)
  then have "str \<noteq> []" by auto
  then obtain ret cond' where p: "parse_fattr_condition cond str i = Some (ret, cond')"
    "ret = 0 \<longrightarrow> fc_attr cond' = int i \<and> 0 \<le> fc_op cond' \<and> fc_op cond' \<le> 6"
    using parse_fattr_condition_typed by blast
  show ?case
  proof (cases "ret = 0")
    case True
    with p(2) 3(2,3) obtain f' where "hpssix_search_fattr_add_cond f cond' = Some f'" "wf_fattr f'"
      by (auto elim: add_cond_typed [where i = i and cond = cond' and f = f])
    with 3 p True show ?thesis by simp
  qed (simp add: p)
qed simp_all

text \<open>The SQL text of one condition.\<close>

definition cond_text :: "nat \<Rightarrow> fattr_cond \<Rightarrow> string" where
  "cond_text i c =
     (if fc_attr c \<noteq> int i then []
      else if fc_op c = HPSSIX_OP_BETWEEN then
        '' AND '' @ fstr ! i @ '' BETWEEN '' @ dec (unat (fc_val1 c)) @ '' AND '' @ dec (unat (fc_val2 c))
      else if fc_op c = HPSSIX_OP_BITAND then '' AND '' @ fstr ! i @ '' & '' @ dec (unat (fc_val1 c)) @ '' > 0''
      else '' AND '' @ fstr ! i @ '' '' @ opstr ! nat (fc_op c) @ '' '' @ dec (unat (fc_val1 c)))"

lemma emit_ok:
  "printf fmt args = Some t \<Longrightarrow> length acc + length t < cap \<Longrightarrow> emit cap fmt args acc = Some (acc @ t)"
  by (simp add: emit_def sprintf_buf_def)

lemma fstr_props: "i < N_COND_ARG \<Longrightarrow> length (fstr ! i) \<le> 8 \<and> CHR '' '' \<notin> set (fstr ! i)"
proof -
  assume "i < N_COND_ARG"
  moreover have "length fstr = 8" by (simp add: fstr_def)
  ultimately have "fstr ! i \<in> set fstr" by simp
  moreover have "\<forall>f\<in>set fstr. length f \<le> 8 \<and> CHR '' '' \<notin> set f" by (simp add: fstr_def)
  ultimately show ?thesis by blast
qed

lemma opstr_props: "k < 6 \<Longrightarrow> length (opstr ! k) \<le> 2 \<and> CHR '' '' \<notin> set (opstr ! k)"
proof -
  assume "k < 6"
  moreover have "length opstr = 6" by (simp add: opstr_def)
  ultimately have "opstr ! k \<in> set opstr" by simp
  moreover have "\<forall>f\<in>set opstr. length f \<le> 2 \<and> CHR '' '' \<notin> set f" by (simp add: opstr_def)
  ultimately show ?thesis by blast
qed

lemma opstr_at_typed: "0 \<le> k \<Longrightarrow> k < 6 \<Longrightarrow> opstr_at k = Some (opstr ! nat k)"
  by (simp add: opstr_at_def) (simp add: opstr_def)

lemma cond_text_length:
  assumes "i < N_COND_ARG" and "wf_cond i c"
  shows "length (cond_text i c) \<le> 80"
proof -
  have "0 \<le> fc_op c \<Longrightarrow> fc_op c < 6 \<Longrightarrow> length (opstr ! nat (fc_op c)) \<le> 2"
    using opstr_props by simp
  then show ?thesis
    using fstr_props [OF assms(1)] assms(2) length_dec_u64 [of "fc_val1 c"] length_dec_u64 [of "fc_val2 c"]
    by (auto simp: cond_text_def wf_cond_def)
qed

lemma emit_fattr_cond_typed:
  assumes "i < N_COND_ARG" and "wf_cond i c" and "length acc + 80 < 4096"
  shows "emit_fattr_cond i c acc = Some (acc @ cond_text i c)"
proof -
  note len = cond_text_length [OF assms(1,2)]
  consider "fc_attr c \<noteq> int i" | "fc_attr c = int i" "fc_op c = 6" | "fc_attr c = int i" "fc_op c = 7"
    | "fc_attr c = int i" "0 \<le> fc_op c" "fc_op c < 6"
    using assms(2) unfolding wf_cond_def by fastforce
  then show ?thesis
  proof cases
    case 1
    then show ?thesis by (simp add: emit_fattr_cond_def cond_text_def)
  next
    case 4
    then show ?thesis
      using len assms(3) opstr_at_typed [OF 4(2,3)]
      by (simp add: emit_fattr_cond_def cond_text_def emit_ok)
  qed (use len assms(3) in \<open>simp_all add: emit_fattr_cond_def cond_text_def emit_ok\<close>)
qed

fun conds_text :: "nat \<Rightarrow> fattr_cond list \<Rightarrow> string" where
  "conds_text i [] = []"
| "conds_text i (c # cs) = cond_text i c @ conds_text (Suc i) cs"

lemma conds_text_length:
  "\<forall>k<length cs. wf_cond (i + k) (cs ! k) \<Longrightarrow> i + length cs \<le> N_COND_ARG \<Longrightarrow>
     length (conds_text i cs) \<le> 80 * length cs"
proof (induction cs arbitrary: i)
  case (Cons c cs)
  then have "\<forall>k<length cs. wf_cond (Suc i + k) (cs ! k)" "wf_cond i c"
    by (force simp: nth_Cons')+
  with Cons.IH [of "Suc i"] Cons.prems(2) cond_text_length [of i c] show ?case by simp
qed simp

lemma emit_fattr_conds_typed:
  "\<forall>k<length cs. wf_cond (i + k) (cs ! k) \<Longrightarrow> i + length cs \<le> N_COND_ARG \<Longrightarrow>
     length acc + 80 * length cs < 4096 \<Longrightarrow> emit_fattr_conds i cs acc = Some (acc @ conds_text i cs)"
proof (induction cs arbitrary: i acc)
  case (Cons c cs)
  then have wf: "\<forall>k<length cs. wf_cond (Suc i + k) (cs ! k)" "wf_cond i c"
    by (force simp: nth_Cons')+
  with Cons.prems(2,3) have "emit_fattr_cond i c acc = Some (acc @ cond_text i c)"
    by (intro emit_fattr_cond_typed) simp_all
  moreover have "length (cond_text i c) \<le> 80"
    using wf(2) Cons.prems(2) by (intro cond_text_length) simp_all
  ultimately show ?case
    using Cons.IH [of "Suc i" "acc @ cond_text i c"] Cons.prems(2,3) wf(1) by simp
qed simp

lemma get_sql_fattr_typed:
  assumes "wf_fattr f"
  shows "get_sql_fattr f = Some (fattr_sql_head (sf_removed f) @ conds_text 0 (sf_cond f) @ '')'')"
    and "length (fattr_sql_head (sf_removed f) @ conds_text 0 (sf_cond f) @ '')'') < 4096"
proof -
  let ?h = "fattr_sql_head (sf_removed f)"
  have "printf ?h [] = Some ?h" by (simp add: fattr_sql_head_def)
  moreover have h: "length ?h \<le> 100" by (simp add: fattr_sql_head_def)
  moreover have wf: "\<forall>k<length (sf_cond f). wf_cond (0 + k) (sf_cond f ! k)" "length (sf_cond f) = 8"
    using assms by (simp_all add: wf_fattr_def)
  moreover have "length (conds_text 0 (sf_cond f)) \<le> 640"
    using conds_text_length [OF wf(1)] wf(2) by simp
  ultimately show "get_sql_fattr f = Some (?h @ conds_text 0 (sf_cond f) @ '')'')"
    "length (?h @ conds_text 0 (sf_cond f) @ '')'') < 4096"
    using emit_fattr_conds_typed [OF wf(1), of ?h] by (simp_all add: get_sql_fattr_def emit_ok)
qed

lemma search_options_conds:
  "search_options E opts g tr = (Ret g', tr') \<Longrightarrow> length (cond_str g') = length (cond_str g)"
proof (induction opts arbitrary: g tr)
  case (Cons opt opts)
  obtain ch arg where opt: "opt = (ch, arg)" by fastforce
  have "search_option E ch arg g tr = (Ret g1, tr1) \<Longrightarrow> length (cond_str g1) = length (cond_str g)" for g1 tr1
    by (auto simp: search_option_def set_cond_def bind_io_eq_Ret_iff split: if_splits)
  with Cons show ?case by (fastforce simp: opt bind_io_eq_Ret_iff)
qed simp

text \<open>
  C34: conditions are well typed.  Whatever options are given, as long as no condition is
  the empty text, making the SQL of the file attributes either ends the program with
  EINVAL or works on conditions whose attribute is their own index and whose operator is
  one of the eight: no table is read outside its bounds and the text fits the 4096 bytes
  of its buffer.
\<close>

theorem fattr_conditions_well_typed:
  assumes "search_options E opts search_zero tr = (Ret g, tr')" and "Some [] \<notin> set (cond_str g)"
  shows "fattr_get_sql g tr' = (Exit EINVAL, tr') \<or>
     (\<exists>f sql. wf_fattr f \<and> sf_removed f = removed g \<and> get_sql_fattr f = Some sql \<and>
        length sql < 4096 \<and> fattr_get_sql g tr' = (Ret sql, tr'))"
proof -
  have len: "length (cond_str g) = N_COND_ARG"
    using search_options_conds [OF assms(1)] by (simp add: search_zero_def)
  show ?thesis
  proof (cases "fattr_conds_loop 0 (cond_str g) fattr_cond_zero hpssix_search_fattr_init tr' = (Exit EINVAL, tr')")
    case True
    then show ?thesis by (simp add: fattr_get_sql_def bind_io_apply)
  next
    case False
    then obtain f where f: "fattr_conds_loop 0 (cond_str g) fattr_cond_zero hpssix_search_fattr_init tr' = (Ret f, tr')"
      "wf_fattr f"
      using fattr_conds_loop_typed [OF wf_fattr_init _ assms(2), of 0 fattr_cond_zero tr'] len by auto
    have sql: "wf_fattr h \<Longrightarrow> \<exists>sql. get_sql_fattr (h\<lparr>sf_removed := b\<rparr>) = Some sql \<and> length sql < 4096
        \<and> wf_fattr (h\<lparr>sf_removed := b\<rparr>)" for h b
      using get_sql_fattr_typed [of "h\<lparr>sf_removed := b\<rparr>"] by (simp add: wf_fattr_def)
    define m where "m = (if directory_only g then cond_dir_mode else cond_file_mode)"
    have "fc_attr m = int 1" "0 \<le> fc_op m" "fc_op m \<le> 7"
      by (simp_all add: m_def cond_dir_mode_def cond_file_mode_def)
    then obtain f' where f': "hpssix_search_fattr_add_cond f m = Some f'" "wf_fattr f'"
      using add_cond_typed [OF f(2)] by (metis one_less_numeral_iff semiring_norm(76))
    show ?thesis
    proof (cases "directory_only g \<or> file_only g")
      case True
      then show ?thesis
        using sql [OF f'(2), of "removed g"] f(1) f'(1)
        by (auto simp: fattr_get_sql_def bind_io_apply m_def [symmetric])
    next
      case False
      then show ?thesis
        using sql [OF f(2), of "removed g"] f(1)
        by (auto simp: fattr_get_sql_def bind_io_apply)
    qed
  qed
qed

theorem fattr_conditions_well_typed_witness:
  "fattr_get_sql (search_zero\<lparr>file_only := True, removed := True\<rparr>) ([] :: trace) = (Exit EINVAL, []) \<or>
     (\<exists>f sql. wf_fattr f \<and> sf_removed f \<and> get_sql_fattr f = Some sql \<and> length sql < 4096 \<and>
        fattr_get_sql (search_zero\<lparr>file_only := True, removed := True\<rparr>) [] = (Ret sql, []))"
  using fattr_conditions_well_typed [of quiet_env "[(CHR ''F'', []), (CHR ''r'', [])]" "[]"
      "search_zero\<lparr>file_only := True, removed := True\<rparr>" "[]"]
  by (simp add: search_option_def search_zero_def)

section \<open>What the SQL means\<close>

text \<open>
  An evaluator for the conditions of a query: words separated by blanks, numbers in
  decimal, comparisons of the columns of a row, and the bitwise and, which binds tighter
  than a comparison.  \<open>None\<close> marks a text that is not of this form.
\<close>

fun sql_words :: "string \<Rightarrow> string list" where
  "sql_words [] = [[]]"
| "sql_words (c # cs) = (if c = CHR '' '' then [] # sql_words cs
     else (case sql_words cs of w # ws \<Rightarrow> (c # w) # ws | [] \<Rightarrow> [[c]]))"

definition sql_num :: "string \<Rightarrow> int option" where
  "sql_num w = (if w \<noteq> [] \<and> (\<forall>c\<in>set w. isdigit c) then Some (int (digits_val 10 0 w)) else None)"

definition sql_compare :: "string \<Rightarrow> 'a::linorder \<Rightarrow> 'a \<Rightarrow> bool option" where
  "sql_compare w x y =
     (if w = ''='' then Some (x = y) else if w = ''>'' then Some (x > y) else if w = ''>='' then Some (x \<ge> y)
      else if w = ''<'' then Some (x < y) else if w = ''<='' then Some (x \<le> y)
      else if w = ''<>'' then Some (x \<noteq> y) else None)"

definition sql_and :: "bool option \<Rightarrow> bool option \<Rightarrow> bool option" where
  "sql_and a b = (case (a, b) of (Some x, Some y) \<Rightarrow> Some (x \<and> y) | _ \<Rightarrow> None)"

definition num1 :: "string \<Rightarrow> (int \<Rightarrow> bool option) \<Rightarrow> bool option" where
  "num1 w k = Option.bind (sql_num w) k"

fun sql_conj :: "(string \<Rightarrow> int) \<Rightarrow> string list \<Rightarrow> bool option" where
  "sql_conj row [] = Some True"
| "sql_conj row (w # f # r # a # w2 # b # ws) =
     (if w \<noteq> ''AND'' then None
      else if r = ''BETWEEN'' then
        (if w2 \<noteq> ''AND'' then None
         else sql_and (num1 a (\<lambda>x. num1 b (\<lambda>y. Some (x \<le> row f \<and> row f \<le> y)))) (sql_conj row ws))
      else if r = ''&'' then
        sql_and (num1 a (\<lambda>x. num1 b (\<lambda>y. sql_compare w2 (and (row f) x) y))) (sql_conj row ws)
      else sql_and (num1 a (sql_compare r (row f))) (sql_conj row (w2 # b # ws)))"
| "sql_conj row [w, f, r, a] =
     (if w \<noteq> ''AND'' then None else num1 a (sql_compare r (row f)))"
| "sql_conj row _ = None"

definition sql_where :: "(string \<Rightarrow> int) \<Rightarrow> bool \<Rightarrow> string \<Rightarrow> bool option" where
  "sql_where row valid s = (case sql_words s of
     w # ws \<Rightarrow> sql_and (if w = ''valid=true'' then Some valid
                      else if w = ''valid=false'' then Some (\<not> valid) else None) (sql_conj row ws)
   | [] \<Rightarrow> None)"

text \<open>Whether the query for the file attributes selects an object.\<close>

definition fattr_sql_open :: string where
  "fattr_sql_open = ''WITH'' @ [NL] @ ''  fattr_oids AS'' @ [NL] @ ''    (SELECT oid FROM hpssix_object WHERE ''"

definition sql_selects :: "(string \<Rightarrow> int) \<Rightarrow> bool \<Rightarrow> string \<Rightarrow> bool option" where
  "sql_selects row valid sql =
     (if take (length fattr_sql_open) sql = fattr_sql_open \<and> last sql = CHR '')''
      then sql_where row valid (butlast (drop (length fattr_sql_open) sql)) else None)"

text \<open>What the conditions mean.\<close>

definition cond_holds :: "(string \<Rightarrow> int) \<Rightarrow> nat \<Rightarrow> fattr_cond \<Rightarrow> bool" where
  "cond_holds row i c =
     (let x = row (fstr ! i); a = int (unat (fc_val1 c)); b = int (unat (fc_val2 c)) in
      fc_attr c \<noteq> int i \<or>
      (if fc_op c = HPSSIX_OP_EQ then x = a else if fc_op c = HPSSIX_OP_GT then x > a
       else if fc_op c = HPSSIX_OP_GE then x \<ge> a else if fc_op c = HPSSIX_OP_LT then x < a
       else if fc_op c = HPSSIX_OP_LE then x \<le> a else if fc_op c = HPSSIX_OP_NE then x \<noteq> a
       else if fc_op c = HPSSIX_OP_BETWEEN then a \<le> x \<and> x \<le> b else and x a > 0))"

definition fattr_matches :: "search_fattr \<Rightarrow> (string \<Rightarrow> int) \<Rightarrow> bool \<Rightarrow> bool" where
  "fattr_matches f row valid \<longleftrightarrow> (valid \<longleftrightarrow> \<not> sf_removed f) \<and>
     (\<forall>i<length (sf_cond f). cond_holds row i (sf_cond f ! i))"

text \<open>A text as the list of its words, each after a blank.\<close>

definition join_words :: "string list \<Rightarrow> string" where
  "join_words ws = concat (map (Cons (CHR '' '')) ws)"

lemma sql_words_word: "CHR '' '' \<notin> set a \<Longrightarrow> sql_words a = [a]"
  by (induction a) auto

lemma sql_words_append: "CHR '' '' \<notin> set a \<Longrightarrow> sql_words (a @ CHR '' '' # b) = a # sql_words b"
  by (induction a) auto

lemma sql_words_join:
  "\<forall>w\<in>set (a # ws). CHR '' '' \<notin> set w \<Longrightarrow> sql_words (a @ join_words ws) = a # ws"
proof (induction ws arbitrary: a)
  case (Cons w ws)
  then show ?case by (simp add: join_words_def sql_words_append)
qed (simp add: join_words_def sql_words_word)

definition cond_words :: "nat \<Rightarrow> fattr_cond \<Rightarrow> string list" where
  "cond_words i c =
     (if fc_attr c \<noteq> int i then []
      else if fc_op c = HPSSIX_OP_BETWEEN then
        [''AND'', fstr ! i, ''BETWEEN'', dec (unat (fc_val1 c)), ''AND'', dec (unat (fc_val2 c))]
      else if fc_op c = HPSSIX_OP_BITAND then [''AND'', fstr ! i, ''&'', dec (unat (fc_val1 c)), ''>'', ''0'']
      else [''AND'', fstr ! i, opstr ! nat (fc_op c), dec (unat (fc_val1 c))])"

lemma cond_text_words: "cond_text i c = join_words (cond_words i c)"
  by (simp add: cond_text_def cond_words_def join_words_def)

lemma dec_no_blank: "CHR '' '' \<notin> set (dec n)"
  using dec_isdigit by fastforce

lemma cond_words_no_blank:
  assumes "i < N_COND_ARG" and "wf_cond i c" and "w \<in> set (cond_words i c)"
  shows "CHR '' '' \<notin> set w"
proof -
  have "fc_op c \<noteq> 6 \<Longrightarrow> fc_op c \<noteq> 7 \<Longrightarrow> fc_attr c = int i \<Longrightarrow> nat (fc_op c) < 6"
    using assms(2) by (auto simp: wf_cond_def)
  then show ?thesis
    using assms(3) fstr_props [OF assms(1)] opstr_props dec_no_blank
    by (auto simp: cond_words_def split: if_splits)
qed

lemma num1_dec [simp]: "num1 (dec n) k = k (int n)"
  using dec_isdigit by (auto simp: num1_def sql_num_def)

lemma num1_zero [simp]: "num1 ''0'' k = k 0"
  using num1_dec [of 0 k] by (simp add: dec_0)

lemma sql_and_simps [simp]: "sql_and (Some x) (Some y) = Some (x \<and> y)" "sql_and a None = None"
  "sql_and a (Some True) = a"
  by (simp_all add: sql_and_def split: option.splits)

lemma sql_conj_compare:
  assumes "r \<noteq> ''BETWEEN''" "r \<noteq> ''&''"
  shows "sql_conj row (''AND'' # f # r # a # ws) = sql_and (num1 a (sql_compare r (row f))) (sql_conj row ws)"
proof (cases ws rule: list.exhaust)
  case (Cons x zs)
  then show ?thesis using assms by (cases zs) simp_all
qed simp

lemma opstr_compare:
  assumes "0 \<le> k" "k < 6"
  shows "opstr ! nat k \<noteq> ''BETWEEN''" "opstr ! nat k \<noteq> ''&''"
    "sql_compare (opstr ! nat k) x y = Some (if k = 0 then x = y else if k = 1 then x > y
       else if k = 2 then x \<ge> y else if k = 3 then x < y else if k = 4 then x \<le> y else x \<noteq> y)"
proof -
  consider "k = 0" | "k = 1" | "k = 2" | "k = 3" | "k = 4" | "k = 5" using assms by linarith
  then show "opstr ! nat k \<noteq> ''BETWEEN''" "opstr ! nat k \<noteq> ''&''"
    "sql_compare (opstr ! nat k) x y = Some (if k = 0 then x = y else if k = 1 then x > y
       else if k = 2 then x \<ge> y else if k = 3 then x < y else if k = 4 then x \<le> y else x \<noteq> y)"
    by (cases; simp add: opstr_def sql_compare_def numeral_2_eq_2 numeral_3_eq_3)+
qed

lemma sql_conj_cond:
  assumes "wf_cond i c"
  shows "sql_conj row (cond_words i c @ ws) = sql_and (Some (cond_holds row i c)) (sql_conj row ws)"
proof -
  consider "fc_attr c \<noteq> int i" | "fc_attr c = int i" "fc_op c = 6" | "fc_attr c = int i" "fc_op c = 7"
    | "fc_attr c = int i" "0 \<le> fc_op c" "fc_op c < 6"
    using assms unfolding wf_cond_def by fastforce
  then show ?thesis
  proof cases
    case 1
    then show ?thesis
      by (cases "sql_conj row ws") (simp_all add: cond_words_def cond_holds_def)
  next
    case 3
    then show ?thesis by (simp add: cond_words_def cond_holds_def sql_compare_def Let_def)
  next
    case 4
    then show ?thesis
      by (simp add: cond_words_def cond_holds_def sql_conj_compare Let_def opstr_compare [OF 4(2,3)])
  qed (simp add: cond_words_def cond_holds_def Let_def)
qed

fun conds_words :: "nat \<Rightarrow> fattr_cond list \<Rightarrow> string list" where
  "conds_words i [] = []"
| "conds_words i (c # cs) = cond_words i c @ conds_words (Suc i) cs"

lemma conds_text_words: "conds_text i cs = join_words (conds_words i cs)"
  by (induction cs arbitrary: i) (simp_all add: cond_text_words join_words_def)

lemma conds_words_no_blank:
  "\<forall>k<length cs. wf_cond (i + k) (cs ! k) \<Longrightarrow> i + length cs \<le> N_COND_ARG \<Longrightarrow>
     \<forall>w\<in>set (conds_words i cs). CHR '' '' \<notin> set w"
proof (induction cs arbitrary: i)
  case (Cons c cs)
  then have "\<forall>k<length cs. wf_cond (Suc i + k) (cs ! k)" "wf_cond i c"
    by (force simp: nth_Cons')+
  with Cons.IH [of "Suc i"] Cons.prems(2) cond_words_no_blank [of i c] show ?case by auto
qed simp

lemma sql_conj_conds:
  "\<forall>k<length cs. wf_cond (i + k) (cs ! k) \<Longrightarrow>
     sql_conj row (conds_words i cs) = Some (\<forall>k<length cs. cond_holds row (i + k) (cs ! k))"
proof (induction cs arbitrary: i)
  case (Cons c cs)
  then have "\<forall>k<length cs. wf_cond (Suc i + k) (cs ! k)" "wf_cond i c"
    by (force simp: nth_Cons')+
  then show ?case
    using Cons.IH [of "Suc i"] by (auto simp: sql_conj_cond All_less_Suc2)
qed simp


lemma all_less_8: "(\<forall>i<8. P i) \<longleftrightarrow> P 0 \<and> P 1 \<and> P 2 \<and> P 3 \<and> P 4 \<and> P 5 \<and> P 6 \<and> P (7 :: nat)"
proof -
  have "i < 8 \<longleftrightarrow> i = 0 \<or> i = 1 \<or> i = 2 \<or> i = 3 \<or> i = 4 \<or> i = 5 \<or> i = 6 \<or> i = 7" for i :: nat
    by presburger
  then show ?thesis by (simp only: imp_disjL all_conj_distrib simp_thms)
qed


section \<open>Searching by name and path\<close>

definition query_see :: "event \<Rightarrow> string list" where
  "query_see ev = (case ev of EvPqExec _ q _ \<Rightarrow> [q] | _ \<Rightarrow> [])"

lemma see_simps [simp]:
  "out_see (EvOut s) = [s]" "out_see (EvPqExec c q r) = []" "out_see (EvSys nm k) = []" "out_see (EvPqFinish i) = []"
  "query_see (EvOut s) = []" "query_see (EvPqExec c q r) = [q]" "query_see (EvSys nm k) = []"
  "query_see (EvPqFinish i) = []"
  by (simp_all add: out_see_def query_see_def)

text \<open>A pattern as the code writes it, as the server gets it, and the clauses made of patterns.\<close>

definition like_buf :: "string \<Rightarrow> string" where
  "like_buf t = [SQUOTE] @ ''%%'' @ concat (map escape_char t) @ ''%%'' @ [SQUOTE]"

definition like_text :: "string \<Rightarrow> string" where
  "like_text t = pq_literal ([PERCENT] @ t @ [PERCENT])"

definition file_clause :: "(string \<Rightarrow> string) \<Rightarrow> string option \<Rightarrow> string option \<Rightarrow> string" where
  "file_clause like n p = (case (n, p) of
     (None, None) \<Rightarrow> []
   | (Some n, Some p) \<Rightarrow> ''WHERE f.name LIKE '' @ like n @ '' AND f.path LIKE '' @ like p @ '' ''
   | (Some n, None) \<Rightarrow> ''WHERE f.name LIKE '' @ like n @ '' ''
   | (None, Some p) \<Rightarrow> ''WHERE f.path LIKE '' @ like p @ '' '')"

definition plain :: "string \<Rightarrow> bool" where
  "plain t \<longleftrightarrow> PERCENT \<notin> set t \<and> BSLASH \<notin> set t"

lemma escape_no_pct: "plain t \<Longrightarrow> PERCENT \<notin> set (concat (map escape_char t))"
  by (auto simp: escape_char_def plain_def)

lemma printf_like_pattern:
  "printf (like_pattern @ r) (PStr (Some (concat (map escape_char t))) # args)
     = map_option (append (like_buf t)) (printf r args)"
  by (cases "printf r args") (simp_all add: like_pattern_def like_buf_def)

lemma like_text_plain:
  "plain t \<Longrightarrow> like_text t = [SQUOTE, PERCENT] @ concat (map escape_char t) @ [PERCENT, SQUOTE]"
  by (auto simp: like_text_def pq_literal_def plain_def) (simp_all add: escape_char_def)

lemma printf_like_buf:
  assumes "plain t"
  shows "printf (like_buf t @ r) args = map_option (append (like_text t)) (printf r args)"
  using printf_head [OF escape_no_pct [OF assms]]
  by (cases "printf r args") (simp_all add: like_buf_def like_text_plain [OF assms])

lemma remove_single_quote_plain:
  assumes "plain t" and "\<And>tr n. env_alloc E tr n"
  shows "remove_single_quote E (pq_literal t) tr = (Ret (Some (concat (map escape_char t))), tr)"
proof -
  let ?q = "SQUOTE # concat (map escape_char t) @ [SQUOTE]"
  have "pq_literal t = ?q" using assms(1) by (simp add: pq_literal_def plain_def)
  moreover have "strrchr ?q SQUOTE = Some [SQUOTE]"
    using strrchr_append [of SQUOTE "[]" "SQUOTE # concat (map escape_char t)"] by simp
  ultimately show ?thesis
    using assms(2) by (simp add: remove_single_quote_def strdup_def alloc_def bind_io_apply)
qed

text \<open>Enough memory, and a libpq that escapes as documented.\<close>

definition search_ready :: "env \<Rightarrow> hpssix_db \<Rightarrow> bool" where
  "search_ready E db \<longleftrightarrow> (\<forall>tr n. env_alloc E tr n) \<and>
     (\<forall>t. env_pq_escape E (dbconn db) t = Some (pq_literal t))"

lemma escape_pattern_plain:
  assumes "search_ready E db" and "\<forall>t\<in>set_option p. plain t"
  shows "escape_pattern E db p tr = (Ret (Inr (map_option (\<lambda>t. concat (map escape_char t)) p)), tr)"
  using assms remove_single_quote_plain [of _ E]
  by (cases p) (simp_all add: escape_pattern_def search_ready_def bind_io_apply)

lemma like_buf_length: "length (like_buf t) \<le> 2 * length t + 6"
proof -
  have "length (concat (map escape_char t)) \<le> 2 * length t"
    by (induction t) (simp_all add: escape_char_def)
  then show ?thesis by (simp add: like_buf_def)
qed

definition opt_len :: "string option \<Rightarrow> nat" where
  "opt_len p = (case p of None \<Rightarrow> 0 | Some t \<Rightarrow> length t)"

lemma get_file_predicate_plain:
  assumes "search_ready E db" and "\<forall>t\<in>set_option (srch_name g) \<union> set_option (srch_path g). plain t"
    and "length acc + 2 * (opt_len (srch_name g) + opt_len (srch_path g)) + 100 < 1048576"
  shows "get_file_predicate E db g acc tr
     = (Ret (int (length (file_clause like_buf (srch_name g) (srch_path g))),
             acc @ file_clause like_buf (srch_name g) (srch_path g)), tr)"
proof -
  have esc: "escape_pattern E db (srch_name g) tr
       = (Ret (Inr (map_option (\<lambda>t. concat (map escape_char t)) (srch_name g))), tr)"
    "escape_pattern E db (srch_path g) tr
       = (Ret (Inr (map_option (\<lambda>t. concat (map escape_char t)) (srch_path g))), tr)"
    using escape_pattern_plain [OF assms(1)] assms(2) by simp_all
  have len: "length (like_buf n) \<le> 2 * length n + 6" for n by (rule like_buf_length)
  have pat: "printf (like_pattern @ CHR '' '' # r) (PStr (Some (concat (map escape_char t))) # args)
     = map_option (append (like_buf t)) (printf (CHR '' '' # r) args)" for r t args
    by (rule printf_like_pattern)
  show ?thesis
  proof (cases "srch_name g"; cases "srch_path g")
    fix n p assume np: "srch_name g = Some n" "srch_path g = Some p"
    with esc assms(3) len [of n] len [of p] show ?thesis
      by (simp add: get_file_predicate_def bind_io_apply Let_def file_clause_def emit_ok pat opt_len_def)
  next
    fix n assume np: "srch_name g = Some n" "srch_path g = None"
    with esc assms(3) len [of n] show ?thesis
      by (simp add: get_file_predicate_def bind_io_apply Let_def file_clause_def emit_ok pat opt_len_def)
  next
    fix p assume np: "srch_name g = None" "srch_path g = Some p"
    with esc assms(3) len [of p] show ?thesis
      by (simp add: get_file_predicate_def bind_io_apply Let_def file_clause_def emit_ok pat opt_len_def)
  qed (simp add: get_file_predicate_def file_clause_def)
qed

text \<open>Sent as a format, the clause becomes the clause with the patterns as literals.\<close>

lemma printf_file_clause:
  assumes "\<forall>t\<in>set_option n \<union> set_option p. plain t"
  shows "printf (file_clause like_buf n p @ r) args = map_option (append (file_clause like_text n p)) (printf r args)"
proof -
  have buf: "plain t \<Longrightarrow> printf (like_buf t @ x) args = map_option (append (like_text t)) (printf x args)" for t x
    by (rule printf_like_buf)
  show ?thesis
    using assms by (cases n; cases p; cases "printf r args") (simp_all add: file_clause_def buf)
qed

definition search_select_text :: string where
  "search_select_text = NL # ''SELECT f.oid, f.path FROM fattr_oids NATURAL JOIN hpssix_file f ''"

definition limit_text :: "u64 \<Rightarrow> string" where
  "limit_text l = (if l = 0 then [] else '' LIMIT '' @ dec (unat l) @ '';'')"

lemma search_select_run:
  assumes "tag_conds g = []" "keyword g = None" "\<not> countonly g" and "length acc + 100 < 1048576"
  shows "search_select g acc tr = (Ret (acc @ search_select_text), tr)"
  using assms by (simp add: search_select_def put_sql_def emit_ok bind_io_apply search_select_text_def)

lemma search_tail_run:
  assumes "keyword g = None" and "length acc + 40 < 1048576"
  shows "search_tail g acc tr = (Ret (acc @ limit_text (limit g)), tr)"
  using assms length_dec_u64 [of "limit g"]
  by (simp add: search_tail_def put_sql_def emit_ok bind_io_apply limit_text_def)

lemma print_rows_run:
  assumes "\<not> showino g" and "\<forall>i\<in>set is. i < length (res_rows res) \<and> 1 < length (res_rows res ! i)"
    and "hpss_mountpoint config = Some mnt"
  shows "\<exists>tr'. print_rows g config res is tr = (Ret (), tr') \<and>
     obs out_see tr' = obs out_see tr @ map (\<lambda>i. mnt @ res_rows res ! i ! 1 @ [NL]) is \<and>
     obs query_see tr' = obs query_see tr"
  using assms(2)
proof (induction "is" arbitrary: tr)
  case (Cons i "is")
  then obtain tr' where "print_rows g config res is (EvOut (mnt @ res_rows res ! i ! 1 @ [NL]) # tr) = (Ret (), tr')"
    "obs out_see tr' = obs out_see tr @ (mnt @ res_rows res ! i ! 1 @ [NL]) # map (\<lambda>i. mnt @ res_rows res ! i ! 1 @ [NL]) is"
    "obs query_see tr' = obs query_see tr"
    using Cons.IH [of "EvOut (mnt @ res_rows res ! i ! 1 @ [NL]) # tr"] by auto
  with Cons.prems assms(1,3) show ?case
    by (simp add: PQgetvalue_def c_printf_def c_puts_def then_io_apply)
qed simp

lemma print_result_run:
  assumes "\<not> verbose g" "\<not> countonly g" "\<not> showino g" and "hpss_mountpoint config = Some mnt"
    and "\<forall>r\<in>set (res_rows res). 1 < length r"
  shows "\<exists>tr'. print_result g config el sql res tr = (Ret (), tr') \<and>
     obs out_see tr' = obs out_see tr @ map (\<lambda>r. mnt @ r ! 1 @ [NL]) (res_rows res) \<and>
     obs query_see tr' = obs query_see tr"
proof -
  let ?is = "[0..<length (res_rows res)]"
  obtain tr' where "print_rows g config res ?is tr = (Ret (), tr')" "obs query_see tr' = obs query_see tr"
    "obs out_see tr' = obs out_see tr @ map (\<lambda>i. mnt @ res_rows res ! i ! 1 @ [NL]) ?is"
    using print_rows_run [OF assms(3) _ assms(4), of ?is res tr] assms(5) by auto
  moreover have "map (\<lambda>i. mnt @ res_rows res ! i ! 1 @ [NL]) ?is = map (\<lambda>r. mnt @ r ! 1 @ [NL]) (res_rows res)"
    by (intro nth_equalityI) simp_all
  ultimately show ?thesis using assms(1,2) by (simp add: print_result_def then_io_apply)
qed

text \<open>
  C35: a search by name and path, from the assembled conditions to the printed files.  For
  patterns without percent signs and backslashes, quotes included, one query reaches the
  server; in it each pattern stands as one literal for the pattern between two percent
  signs.  The files the server answers with are printed in its order, each below the mount
  point.  The program then returns the length of the clause it wrote, not 0.
\<close>

theorem search_by_name_sends_literals:
  assumes "search_ready E db" and "\<forall>t\<in>set_option (srch_name g) \<union> set_option (srch_path g). plain t"
    and "tag_conds g = []" "keyword g = None" "\<not> countonly g" "\<not> verbose g" "\<not> showino g"
    and "PERCENT \<notin> set acc"
    and "length acc + 2 * (opt_len (srch_name g) + opt_len (srch_path g)) + 300 < 1048576"
    and "hpss_mountpoint config = Some mnt" and "\<forall>r\<in>set rows. 1 < length r"
    and "q = acc @ search_select_text @ file_clause like_text (srch_name g) (srch_path g) @ limit_text (limit g)"
    and "\<And>tr. env_pq_exec E tr (dbconn db) q = \<lparr>res_status = PGRES_TUPLES_OK, res_rows = rows\<rparr>"
  shows "\<exists>tr'. search_run E g acc config db tr
       = (Ret (int (length (file_clause like_buf (srch_name g) (srch_path g)))), tr') \<and>
     obs query_see tr' = obs query_see tr @ [q] \<and>
     obs out_see tr' = obs out_see tr @ map (\<lambda>r. mnt @ r ! 1 @ [NL]) rows"
proof -
  let ?b = "file_clause like_buf (srch_name g) (srch_path g)"
  let ?acc = "acc @ search_select_text"
  let ?res = "\<lparr>res_status = PGRES_TUPLES_OK, res_rows = rows\<rparr>"
  let ?sql = "?acc @ ?b @ limit_text (limit g)"
  define t1 where "t1 = env_sys E tr ''gettimeofday''"
  define tr1 where "tr1 = EvPqExec (dbconn db) q ?res # EvSys ''gettimeofday'' t1 # tr"
  define tr2 where "tr2 = EvSys ''gettimeofday'' (env_sys E tr1 ''gettimeofday'') # tr1"
  have sel: "length search_select_text \<le> 80" by (simp add: search_select_text_def)
  have buf: "length ?b \<le> 2 * (opt_len (srch_name g) + opt_len (srch_path g)) + 60"
    using like_buf_length [of "the (srch_name g)"] like_buf_length [of "the (srch_path g)"]
    by (cases "srch_name g"; cases "srch_path g") (simp_all add: file_clause_def opt_len_def)
  have "PERCENT \<notin> set (limit_text l)" for l
    using dec_isdigit [of PERCENT "unat l"] by (auto simp: limit_text_def)
  moreover have "PERCENT \<notin> set ?acc" using assms(8) by (simp add: search_select_text_def)
  ultimately have "printf ?sql [] = Some q"
    using printf_head [of ?acc "?b @ limit_text (limit g)" "[]"]
      printf_file_clause [OF assms(2), of "limit_text (limit g)" "[]"] printf_no_pct [of "limit_text (limit g)" "[]"]
    by (simp add: assms(12))
  then have query: "hpssix_db_psql_query E db ?sql [] (EvSys ''gettimeofday'' t1 # tr) = (Ret ?res, tr1)"
    using assms(1,13) by (simp add: hpssix_db_psql_query_def prim_defs bind_io_apply search_ready_def tr1_def)
  obtain tr3 where print: "print_result g config (env_elapsed E tr2) ?sql ?res tr2 = (Ret (), tr3)"
    "obs out_see tr3 = obs out_see tr2 @ map (\<lambda>r. mnt @ r ! 1 @ [NL]) rows" "obs query_see tr3 = obs query_see tr2"
    using print_result_run [OF assms(6,5,7,10), of ?res "env_elapsed E tr2" ?sql tr2] assms(11) by auto
  have "search_select g acc tr = (Ret ?acc, tr)"
    using assms(9) by (intro search_select_run [OF assms(3-5)]) simp
  moreover have "get_file_predicate E db g ?acc tr = (Ret (int (length ?b), ?acc @ ?b), tr)"
    using assms(9) sel by (intro get_file_predicate_plain [OF assms(1,2)]) simp
  moreover have "search_tail g (?acc @ ?b) tr = (Ret ?sql, tr)"
    using assms(9) sel buf search_tail_run [OF assms(4), of "?acc @ ?b" tr] by simp
  ultimately have "search_run E g acc config db tr
      = then_io (hpssix_db_disconnect (Some db)) (return_io (int (length ?b))) tr3"
    using query print(1)
    by (simp add: search_run_def bind_io_apply then_io_apply c_sys_def t1_def tr2_def del: append_assoc)
  then show ?thesis
    using print(2,3)
    by (cases "dbconn db") (auto simp: hpssix_db_disconnect_def then_io_apply PQfinish_def tr1_def tr2_def)
qed

theorem search_by_name_sends_literals_witness:
  "\<exists>tr'. search_run (quiet_env\<lparr>env_pq_escape := \<lambda>_ t. Some (pq_literal t),
         env_pq_exec := \<lambda>_ _ _. \<lparr>res_status = PGRES_TUPLES_OK, res_rows = [[''7'', ''/a'']]\<rparr>\<rparr>)
       (search_zero\<lparr>srch_name := Some [SQUOTE]\<rparr>) [] (config_zero\<lparr>hpss_mountpoint := Some ''/hpss''\<rparr>)
       \<lparr>dbconn = Some 1\<rparr> [] = (Ret 27, tr') \<and>
     obs query_see tr' = [search_select_text @ ''WHERE f.name LIKE '' @ like_text [SQUOTE] @ '' ''] \<and>
     obs out_see tr' = [''/hpss/a'' @ [NL]]"
proof -
  let ?E = "quiet_env\<lparr>env_pq_escape := \<lambda>_ t. Some (pq_literal t),
         env_pq_exec := \<lambda>_ _ _. \<lparr>res_status = PGRES_TUPLES_OK, res_rows = [[''7'', ''/a'']]\<rparr>\<rparr>"
  have "search_ready ?E \<lparr>dbconn = Some 1\<rparr>" by (simp add: search_ready_def quiet_env_def)
  then show ?thesis
    using search_by_name_sends_literals [of ?E "\<lparr>dbconn = Some 1\<rparr>" "search_zero\<lparr>srch_name := Some [SQUOTE]\<rparr>"
        "[]" "config_zero\<lparr>hpss_mountpoint := Some ''/hpss''\<rparr>" "''/hpss''" "[[''7'', ''/a'']]" _ "[]"]
    by (simp add: plain_def search_zero_def opt_len_def file_clause_def limit_text_def like_buf_def escape_char_def)
qed

section \<open>Where the code does less than it means to\<close>

text \<open>The option for regular files also selects symbolic links and sockets.\<close>

lemma file_only_selects_links:
  "cond_holds (\<lambda>_. 0xA1FF) COND_ARG_MODE cond_file_mode" "cond_holds (\<lambda>_. 0xC1FF) COND_ARG_MODE cond_file_mode"
  by (simp_all add: cond_holds_def cond_file_mode_def)

text \<open>A name with a backslash is dropped from a search that also has a path.\<close>

lemma backslash_name_dropped:
  assumes "search_ready E db" and "BSLASH \<in> set n"
  shows "escape_pattern E db (Some n) tr = (Ret (Inr None), tr)"
  using assms by (simp add: escape_pattern_def search_ready_def remove_single_quote_def pq_literal_def bind_io_apply)

text \<open>A range on a tag passes a string where a double is expected.\<close>

lemma tag_range_undefined:
  assumes "tc_op cond = HPSSIX_OP_BETWEEN"
  shows "write_numeric_predicate E cond acc = None"
proof -
  have "printf '' AND rval BETWEEN %lf AND %lf)'' (PStr (Some nm) # args) = None" for nm args
    by (simp add: printf.simps(2) spec_simps conv_arg_def)
  then show ?thesis
    using assms by (cases "emit 8192 (''(kid=(SELECT kid FROM hpssix_attr_key WHERE name='' @ [SQUOTE] @ ''%s'' @ [SQUOTE] @ '')'')
        [PStr (Some (tc_name cond))] acc")
      (simp_all add: write_numeric_predicate_def emit_def sprintf_buf_def)
qed

end
