(* ===== verification/Hpssix_Tag.thy ===== *)
theory Hpssix_Tag
  imports Hpssix_Admin "HOL-Library.AList"
begin

text \<open>
  The tagging utility (hpssix-tag.c, hpssix-tag-xattr.c): it sets, reads, removes and
  lists tags, which are extended attributes of the files of the HPSS mount.  The
  second part states what a file system does with attributes and shows that a tag
  that was set is read back and listed, and that a removed tag is gone.
\<close>

section \<open>Options\<close>

text \<open>The local variables the options of a command set.\<close>

record tag_opts =
  dereference :: bool
  tag_name :: "string option"
  tag_value :: "string option"
  print_all :: bool

definition tag_opts_zero :: tag_opts where
  "tag_opts_zero = \<lparr>dereference = False, tag_name = None, tag_value = None, print_all = False\<rparr>"

text \<open>
  The options \<open>getopt_long\<close> gives, with their arguments, among those a command knows
  (\<open>allowed\<close>); \<open>None\<close> when the usage, which is not modelled, is printed.  Option \<open>l\<close>
  assigns 0.
\<close>

fun tag_options :: "env \<Rightarrow> string \<Rightarrow> (char \<times> string) list \<Rightarrow> tag_opts \<Rightarrow> tag_opts option io" where
  "tag_options E allowed [] v = return_io (Some v)"
| "tag_options E allowed ((ch, optarg) # opts) v =
     (if ch \<notin> set allowed then return_io None
      else if ch = CHR ''a'' then tag_options E allowed opts (v\<lparr>print_all := True\<rparr>)
      else if ch = CHR ''l'' then tag_options E allowed opts (v\<lparr>dereference := False\<rparr>)
      else if ch = CHR ''n'' then
        bind_io (strdup E optarg) (\<lambda>s. tag_options E allowed opts (v\<lparr>tag_name := s\<rparr>))
      else if ch = CHR ''v'' then
        bind_io (strdup E optarg) (\<lambda>s. tag_options E allowed opts (v\<lparr>tag_value := s\<rparr>))
      else return_io None)"

section \<open>Paths and printing\<close>

definition tag_valid_path :: "hpssix_config \<Rightarrow> string \<Rightarrow> bool option" where
  "tag_valid_path cfg filename =
     map_option (\<lambda>mnt. strneq mnt filename (length mnt)) (hpss_mountpoint cfg)"

definition tag_print_value :: "string \<Rightarrow> unit io" where
  "tag_print_value v = c_printf (''%s'' @ [NL]) [PStr (Some (cstr v))]"

text \<open>
  The loop over a buffer of attribute names.  \<open>buf\<close> is the part of the allocation from
  \<open>name\<close> on, so reading past its end is undefined; \<open>done_len\<close> is the variable
  \<open>processed\<close>, which does not count the terminating NULs.
\<close>

definition print_at :: "string \<Rightarrow> unit io" where
  "print_at r = (if NUL \<in> set r then c_printf (''%s'' @ [NL]) [PStr (Some (cstr r))] else undef_io)"

function tag_list_loop :: "string \<Rightarrow> bool \<Rightarrow> nat \<Rightarrow> nat \<Rightarrow> string \<Rightarrow> unit io" where
  "tag_list_loop xn all len done_len buf =
     (if NUL \<notin> set buf then undef_io
      else if hd buf = NUL then return_io ()
      else then_io
        (if all then print_at buf
         else if strneq xn (cstr buf) (length xn) then print_at (drop (length xn + 1) buf)
         else return_io ())
        (if done_len + length (cstr buf) \<ge> len then return_io ()
         else tag_list_loop xn all len (done_len + length (cstr buf))
                (drop (length (cstr buf) + 1) buf)))"
  by pat_completeness auto
termination
  by (relation "measure (\<lambda>(xn, all, len, d, buf). length buf)")
     (auto simp: cstr_def intro!: diff_less)

declare tag_list_loop.simps [simp del]

definition tag_print_list :: "hpssix_config \<Rightarrow> string \<Rightarrow> nat \<Rightarrow> bool \<Rightarrow> unit io" where
  "tag_print_list cfg buf len all =
     bind_io (lift_io (sprintf_buf 64 ''user.%s'' [PStr (tag_prefix cfg)])) (\<lambda>xn.
     tag_list_loop xn all len 0 buf)"

section \<open>Commands\<close>

text \<open>What every command does with its operands: one path, resolved, inside the mount.\<close>

definition tag_with_file :: "env \<Rightarrow> hpssix_config \<Rightarrow> string list \<Rightarrow> (string \<Rightarrow> int io) \<Rightarrow> int io" where
  "tag_with_file E cfg operands body = (case operands of
     [path] \<Rightarrow> bind_io (c_realpath E path) (\<lambda>r. case r of
         None \<Rightarrow> return_io 0
       | Some filename \<Rightarrow> bind_io (lift_io (tag_valid_path cfg filename)) (\<lambda>valid.
           if \<not> valid then return_io 0 else body filename))
   | _ \<Rightarrow> return_io 0)"

definition tag_xname :: "hpssix_config \<Rightarrow> string \<Rightarrow> string option" where
  "tag_xname cfg name = sprintf_buf 64 ''user.%s.%s'' [PStr (tag_prefix cfg), PStr (Some name)]"

definition hpssix_tag_cmd_set_func ::
  "env \<Rightarrow> hpssix_config \<Rightarrow> (char \<times> string) list \<Rightarrow> string list \<Rightarrow> int io" where
  "hpssix_tag_cmd_set_func E cfg opts operands =
     bind_io (tag_options E ''lnv'' opts tag_opts_zero) (\<lambda>parsed. case parsed of
       None \<Rightarrow> return_io 0
     | Some v \<Rightarrow> tag_with_file E cfg operands (\<lambda>filename.
         case (tag_name v, tag_value v) of
           (Some name, Some val) \<Rightarrow>
             bind_io (lift_io (tag_xname cfg name)) (\<lambda>xn.
             then_io (c_setxattr E (dereference v) filename xn val)
             (bind_io (c_sys E (''utime '' @ filename)) (\<lambda>r.
              return_io (if r = 0 then 0 else - 1))))
         | _ \<Rightarrow> return_io 0))"

definition hpssix_tag_cmd_get_func ::
  "env \<Rightarrow> hpssix_config \<Rightarrow> (char \<times> string) list \<Rightarrow> string list \<Rightarrow> int io" where
  "hpssix_tag_cmd_get_func E cfg opts operands =
     bind_io (tag_options E ''ln'' opts tag_opts_zero) (\<lambda>parsed. case parsed of
       None \<Rightarrow> return_io 0
     | Some v \<Rightarrow> tag_with_file E cfg operands (\<lambda>filename. case tag_name v of
         None \<Rightarrow> return_io 0
       | Some name \<Rightarrow>
           bind_io (lift_io (tag_xname cfg name)) (\<lambda>xn.
           bind_io (c_getxattr E (dereference v) filename xn 0) (\<lambda>r1. case r1 of
             Inl _ \<Rightarrow> return_io 0
           | Inr v1 \<Rightarrow>
               let len = length v1 in
               bind_io (alloc E (len + 1)) (\<lambda>ok.
               if \<not> ok then return_io 0
               else bind_io (c_getxattr E (dereference v) filename xn len) (\<lambda>r2. case r2 of
                   Inl _ \<Rightarrow> return_io 0
                 | Inr v2 \<Rightarrow>
                     then_io (tag_print_value (if len = 0 then [] else v2)) (return_io 0)))))))"

definition hpssix_tag_cmd_del_func ::
  "env \<Rightarrow> hpssix_config \<Rightarrow> (char \<times> string) list \<Rightarrow> string list \<Rightarrow> int io" where
  "hpssix_tag_cmd_del_func E cfg opts operands =
     bind_io (tag_options E ''ln'' opts tag_opts_zero) (\<lambda>parsed. case parsed of
       None \<Rightarrow> return_io 0
     | Some v \<Rightarrow> tag_with_file E cfg operands (\<lambda>filename. case tag_name v of
         None \<Rightarrow> return_io 0
       | Some name \<Rightarrow>
           bind_io (lift_io (tag_xname cfg name)) (\<lambda>xn.
           bind_io (c_removexattr E (dereference v) filename xn) (\<lambda>r.
           return_io (if r = 0 then 0 else - 1)))))"

text \<open>The list is read into \<open>len + 1\<close> zeroed bytes; a call with size 0 writes nothing.\<close>

definition hpssix_tag_cmd_list_func ::
  "env \<Rightarrow> hpssix_config \<Rightarrow> (char \<times> string) list \<Rightarrow> string list \<Rightarrow> int io" where
  "hpssix_tag_cmd_list_func E cfg opts operands =
     bind_io (tag_options E ''al'' opts tag_opts_zero) (\<lambda>parsed. case parsed of
       None \<Rightarrow> return_io 0
     | Some v \<Rightarrow> tag_with_file E cfg operands (\<lambda>filename.
         bind_io (c_listxattr E (dereference v) filename 0) (\<lambda>r1. case r1 of
           Inl _ \<Rightarrow> return_io 0
         | Inr l1 \<Rightarrow>
             let len = length l1 in
             bind_io (alloc E (len + 1)) (\<lambda>ok.
             if \<not> ok then return_io 0
             else bind_io (c_listxattr E (dereference v) filename len) (\<lambda>r2. case r2 of
                 Inl _ \<Rightarrow> return_io 0
               | Inr l2 \<Rightarrow>
                   let l = (if len = 0 then [] else l2) in
                   then_io (tag_print_list cfg (l @ replicate (len + 1 - length l) NUL)
                              (length l2) (print_all v)) (return_io 0))))))"

definition tag_cmds ::
  "(string \<times> (env \<Rightarrow> hpssix_config \<Rightarrow> (char \<times> string) list \<Rightarrow> string list \<Rightarrow> int io)) list" where
  "tag_cmds = [(''set'', hpssix_tag_cmd_set_func), (''get'', hpssix_tag_cmd_get_func),
     (''del'', hpssix_tag_cmd_del_func), (''list'', hpssix_tag_cmd_list_func)]"

text \<open>\<open>cmd\<close> is the first argument, \<open>opts\<close> and \<open>operands\<close> what \<open>getopt_long\<close> makes of the others.\<close>

definition tag_main :: "env \<Rightarrow> string option \<Rightarrow> (char \<times> string) list \<Rightarrow> string list \<Rightarrow> int io" where
  "tag_main E cmd opts operands = (case cmd of
     None \<Rightarrow> exit_io 1
   | Some c \<Rightarrow> (case map_of tag_cmds c of
       None \<Rightarrow> exit_io 1
     | Some func \<Rightarrow>
         bind_io (hpssix_config_read_sysconf E (Some config_zero)) (\<lambda>(ret, c1).
         if ret \<noteq> 0 then return_io ret
         else bind_io (lift_io c1) (\<lambda>cfg. bind_io (hpssix_find_hpss_mountpoint E) (\<lambda>mnt. case mnt of
             None \<Rightarrow> return_io EINVAL
           | Some _ \<Rightarrow> func E cfg opts operands)))))"

section \<open>What a file system does with attributes\<close>

text \<open>
  The attributes of each file, in the order in which they are listed, replayed from the
  calls that succeeded.  The paths the utility passes have been resolved, so following
  links or not makes no difference.
\<close>

type_synonym xattr_state = "string \<Rightarrow> (string \<times> string) list"

definition xattr_event :: "event \<Rightarrow> xattr_state \<Rightarrow> xattr_state" where
  "xattr_event ev st = (case ev of
     EvSetxattr _ path name val ret \<Rightarrow>
       if ret = 0 then st(path := AList.update name val (st path)) else st
   | EvRemovexattr _ path name ret \<Rightarrow>
       if ret = 0 then st(path := AList.delete name (st path)) else st
   | _ \<Rightarrow> st)"

primrec xattrs :: "xattr_state \<Rightarrow> trace \<Rightarrow> xattr_state" where
  "xattrs s0 [] = s0"
| "xattrs s0 (ev # tr) = xattr_event ev (xattrs s0 tr)"

definition name_list :: "string list \<Rightarrow> string" where
  "name_list ns = concat (map (\<lambda>n. n @ [NUL]) ns)"

definition xattr_fs :: "xattr_state \<Rightarrow> env \<Rightarrow> bool" where
  "xattr_fs s0 E \<longleftrightarrow> (\<forall>tr follow path.
     (\<forall>name. env_getxattr E tr follow path name = (case map_of (xattrs s0 tr path) name of
         None \<Rightarrow> Inl ENODATA | Some v \<Rightarrow> Inr v)) \<and>
     env_listxattr E tr follow path = Inr (name_list (map fst (xattrs s0 tr path))))"

text \<open>The utility runs on file \<open>f\<close> of the mount with the tag prefix \<open>p\<close> and enough memory.\<close>

definition tag_ready ::
  "env \<Rightarrow> xattr_state \<Rightarrow> hpssix_config \<Rightarrow> string \<Rightarrow> string \<Rightarrow> string \<Rightarrow> bool" where
  "tag_ready E s0 cfg path f p \<longleftrightarrow> xattr_fs s0 E \<and> (\<forall>tr n. env_alloc E tr n) \<and>
     (\<forall>tr. env_realpath E tr path = Some f) \<and> tag_prefix cfg = Some p \<and>
     (\<exists>mnt. hpss_mountpoint cfg = Some mnt \<and> prefix mnt f)"

definition full_name :: "string \<Rightarrow> string \<Rightarrow> string" where
  "full_name p n = ''user.'' @ p @ ''.'' @ n"

lemma tag_readyD:
  assumes "tag_ready E s0 cfg path f p"
  shows "env_alloc E tr k" "env_realpath E tr path = Some f" "tag_prefix cfg = Some p"
    "env_getxattr E tr fl f name = (case map_of (xattrs s0 tr f) name of
         None \<Rightarrow> Inl ENODATA | Some v \<Rightarrow> Inr v)"
    "env_listxattr E tr fl f = Inr (name_list (map fst (xattrs s0 tr f)))"
    "tag_valid_path cfg f = Some True"
  using assms by (auto simp: tag_ready_def xattr_fs_def tag_valid_path_def strneq_def prefix_def)

lemma tag_xname_fits:
  "tag_prefix cfg = Some p \<Longrightarrow> length p + length n < 58 \<Longrightarrow> tag_xname cfg n = Some (full_name p n)"
  by (simp add: tag_xname_def sprintf_buf_def full_name_def)

lemma xattr_event_simps [simp]:
  "xattr_event (EvRealpath q) st = st" "xattr_event (EvSys nm r) st = st" "xattr_event (EvOut t) st = st"
  "xattr_event (EvGetxattr fl q nm k) st = st" "xattr_event (EvListxattr fl q k) st = st"
  "xattr_event (EvSetxattr fl q nm v 0) st = st(q := AList.update nm v (st q))"
  "xattr_event (EvRemovexattr fl q nm 0) st = st(q := AList.delete nm (st q))"
  by (simp_all add: xattr_event_def)

lemma tag_with_file_run:
  assumes "tag_ready E s0 cfg path f p"
  shows "tag_with_file E cfg [path] body tr = body f (EvRealpath path # tr)"
  using tag_readyD [OF assms] by (simp add: tag_with_file_def c_realpath_def bind_io_apply)

lemma strdup_ready:
  assumes "tag_ready E s0 cfg path f p"
  shows "strdup E t = return_io (Some t)"
  using tag_readyD(1) [OF assms] by (simp add: strdup_def alloc_def bind_io_def fun_eq_iff)

lemmas tag_run = tag_opts_zero_def bind_io_apply then_io_apply prim_defs tag_xname_fits
lemmas tag_run_ready = tag_with_file_run strdup_ready tag_readyD(1,3-6)

section \<open>Set, get, delete\<close>

lemma set_run:
  assumes "tag_ready E s0 cfg path f p" and "length p + length n < 58"
    and "env_setxattr E (EvRealpath path # tr) False f (full_name p n) v = 0"
  obtains r tr1 where "hpssix_tag_cmd_set_func E cfg [(CHR ''n'', n), (CHR ''v'', v)] [path] tr = (Ret r, tr1)"
    and "xattrs s0 tr1 = (xattrs s0 tr)(f := AList.update (full_name p n) v (xattrs s0 tr f))"
    and "obs out_see tr1 = obs out_see tr"
  using that assms(2,3) tag_readyD(3) [OF assms(1)]
  by (simp add: hpssix_tag_cmd_set_func_def tag_run tag_run_ready [OF assms(1)] out_see_def)

lemma cstr_id: "NUL \<notin> set v \<Longrightarrow> cstr v = v"
  unfolding cstr_def by (rule takeWhile_all) auto

text \<open>What reading a tag prints.\<close>

definition value_lines :: "string option \<Rightarrow> string list" where
  "value_lines v = (case v of None \<Rightarrow> [] | Some t \<Rightarrow> [cstr t @ [NL]])"

lemma get_run:
  assumes "tag_ready E s0 cfg path f p" and "length p + length n < 58"
  obtains tr1 where "hpssix_tag_cmd_get_func E cfg [(CHR ''n'', n)] [path] tr = (Ret 0, tr1)"
    and "xattrs s0 tr1 = xattrs s0 tr"
    and "obs out_see tr1 = obs out_see tr @ value_lines (map_of (xattrs s0 tr f) (full_name p n))"
proof (cases "map_of (xattrs s0 tr f) (full_name p n)")
  case None
  with that assms(2) tag_readyD(3) [OF assms(1)] show ?thesis
    by (simp add: hpssix_tag_cmd_get_func_def tag_run tag_run_ready [OF assms(1)] xattr_fit_def
        out_see_def value_lines_def)
next
  case (Some v)
  with that assms(2) tag_readyD(3) [OF assms(1)] show ?thesis
    by (cases "v = []") (simp_all add: hpssix_tag_cmd_get_func_def tag_run tag_run_ready [OF assms(1)]
        xattr_fit_def out_see_def value_lines_def Let_def tag_print_value_def c_printf_def cstr_def)
qed

lemma del_run:
  assumes "tag_ready E s0 cfg path f p" and "length p + length n < 58"
    and "env_removexattr E (EvRealpath path # tr) False f (full_name p n) = 0"
  obtains tr1 where "hpssix_tag_cmd_del_func E cfg [(CHR ''n'', n)] [path] tr = (Ret 0, tr1)"
    and "xattrs s0 tr1 = (xattrs s0 tr)(f := AList.delete (full_name p n) (xattrs s0 tr f))"
    and "obs out_see tr1 = obs out_see tr"
  using that assms(2,3) tag_readyD(3) [OF assms(1)]
  by (simp add: hpssix_tag_cmd_del_func_def tag_run tag_run_ready [OF assms(1)] out_see_def)

text \<open>
  C36: a tag is what was set.  On a file of the mount, with names that fit the
  64 bytes the code reserves, reading a tag right after setting it prints exactly its
  value, after removing it nothing; no other attribute of the file and no other file
  is touched.
\<close>

theorem tag_set_get_del:
  assumes "tag_ready E s0 cfg path f p" and "length p + length n < 58" and "NUL \<notin> set v"
    and "\<And>tr. env_setxattr E tr False f (full_name p n) v = 0"
    and "\<And>tr. env_removexattr E tr False f (full_name p n) = 0"
  shows "\<exists>r tr1 tr2 tr3 tr4.
     hpssix_tag_cmd_set_func E cfg [(CHR ''n'', n), (CHR ''v'', v)] [path] tr = (Ret r, tr1) \<and>
     hpssix_tag_cmd_get_func E cfg [(CHR ''n'', n)] [path] tr1 = (Ret 0, tr2) \<and>
     obs out_see tr2 = obs out_see tr @ [v @ [NL]] \<and>
     hpssix_tag_cmd_del_func E cfg [(CHR ''n'', n)] [path] tr2 = (Ret 0, tr3) \<and>
     hpssix_tag_cmd_get_func E cfg [(CHR ''n'', n)] [path] tr3 = (Ret 0, tr4) \<and>
     obs out_see tr4 = obs out_see tr2 \<and>
     (\<forall>g a. (g, a) \<noteq> (f, full_name p n) \<longrightarrow>
        map_of (xattrs s0 tr2 g) a = map_of (xattrs s0 tr g) a \<and>
        map_of (xattrs s0 tr4 g) a = map_of (xattrs s0 tr g) a)"
proof -
  obtain r tr1 where 1: "hpssix_tag_cmd_set_func E cfg [(CHR ''n'', n), (CHR ''v'', v)] [path] tr = (Ret r, tr1)"
    "xattrs s0 tr1 = (xattrs s0 tr)(f := AList.update (full_name p n) v (xattrs s0 tr f))"
    "obs out_see tr1 = obs out_see tr"
    using set_run [OF assms(1,2,4)] by blast
  obtain tr2 where 2: "hpssix_tag_cmd_get_func E cfg [(CHR ''n'', n)] [path] tr1 = (Ret 0, tr2)"
    "xattrs s0 tr2 = xattrs s0 tr1"
    "obs out_see tr2 = obs out_see tr1 @ value_lines (map_of (xattrs s0 tr1 f) (full_name p n))"
    using get_run [OF assms(1,2)] by blast
  obtain tr3 where 3: "hpssix_tag_cmd_del_func E cfg [(CHR ''n'', n)] [path] tr2 = (Ret 0, tr3)"
    "xattrs s0 tr3 = (xattrs s0 tr2)(f := AList.delete (full_name p n) (xattrs s0 tr2 f))"
    "obs out_see tr3 = obs out_see tr2"
    using del_run [OF assms(1,2,5)] by blast
  obtain tr4 where 4: "hpssix_tag_cmd_get_func E cfg [(CHR ''n'', n)] [path] tr3 = (Ret 0, tr4)"
    "xattrs s0 tr4 = xattrs s0 tr3"
    "obs out_see tr4 = obs out_see tr3 @ value_lines (map_of (xattrs s0 tr3 f) (full_name p n))"
    using get_run [OF assms(1,2)] by blast
  have "map_of (xattrs s0 tr1 f) (full_name p n) = Some v" "map_of (xattrs s0 tr3 f) (full_name p n) = None"
    using 1(2) 3(2) by (simp_all add: update_conv' delete_conv')
  then have "obs out_see tr2 = obs out_see tr @ [v @ [NL]]" "obs out_see tr4 = obs out_see tr2"
    using 1(3) 2(3) 3(3) 4(3) assms(3) by (simp_all add: value_lines_def cstr_id)
  moreover have "\<forall>g a. (g, a) \<noteq> (f, full_name p n) \<longrightarrow>
      map_of (xattrs s0 tr2 g) a = map_of (xattrs s0 tr g) a \<and>
      map_of (xattrs s0 tr4 g) a = map_of (xattrs s0 tr g) a"
    using 1(2) 2(2) 3(2) 4(2) by (auto simp: update_conv' delete_conv')
  ultimately show ?thesis
    using 1(1) 2(1) 3(1) 4(1) by blast
qed

definition ref_xattr :: "env \<Rightarrow> env" where
  "ref_xattr E = E\<lparr>
     env_getxattr := \<lambda>tr _ path name. (case map_of (xattrs (\<lambda>_. []) tr path) name of
        None \<Rightarrow> Inl ENODATA | Some v \<Rightarrow> Inr v),
     env_listxattr := \<lambda>tr _ path. Inr (name_list (map fst (xattrs (\<lambda>_. []) tr path)))\<rparr>"

definition tag_cfg :: hpssix_config where
  "tag_cfg = config_zero\<lparr>tag_prefix := Some ''hpssix'', hpss_mountpoint := Some ''/hpss''\<rparr>"

lemma tag_ready_sample:
  "tag_ready (ref_xattr quiet_env) (\<lambda>_. []) tag_cfg ''/hpss/a'' ''/hpss/a'' ''hpssix''"
  by (simp add: tag_ready_def xattr_fs_def ref_xattr_def tag_cfg_def quiet_env_def)

theorem tag_set_get_del_witness:
  "\<exists>r tr1 tr2.
     hpssix_tag_cmd_set_func (ref_xattr quiet_env) tag_cfg [(CHR ''n'', ''k''), (CHR ''v'', ''1'')] [''/hpss/a''] []
       = (Ret r, tr1) \<and>
     hpssix_tag_cmd_get_func (ref_xattr quiet_env) tag_cfg [(CHR ''n'', ''k'')] [''/hpss/a''] tr1 = (Ret 0, tr2) \<and>
     obs out_see tr2 = [''1'' @ [NL]]"
  using tag_set_get_del [OF tag_ready_sample, of "''k''" "''1''" "[]"]
  by (auto simp: ref_xattr_def quiet_env_def)

section \<open>Listing\<close>

lemma cstr_append_NUL [simp]: "NUL \<notin> set n \<Longrightarrow> cstr (n @ NUL # r) = n"
  unfolding cstr_def by (rule takeWhile_append_stop) auto

lemma strneq_prefix: "strneq a b (length a) \<longleftrightarrow> prefix a b"
  unfolding strneq_def prefix_def by (metis append_eq_conv_conj append_take_drop_id take_all_iff le_refl)

lemma print_at_string:
  "NUL \<notin> set n \<Longrightarrow> print_at (n @ NUL # r) tr = (Ret (), EvOut (n @ [NL]) # tr)"
  by (simp add: print_at_def c_printf_def c_puts_def)

text \<open>What the list of a file prints: every name, or the part after the tag prefix and its dot.\<close>

definition shown_names :: "string \<Rightarrow> bool \<Rightarrow> string list \<Rightarrow> string list" where
  "shown_names xn all ns =
     (if all then ns else map (drop (length xn + 1)) (filter (prefix xn) ns))"

lemma tag_list_loop_run:
  assumes "\<forall>n\<in>set ns. n \<noteq> [] \<and> NUL \<notin> set n \<and> n \<noteq> xn" and "d + length (name_list ns) \<le> len"
  shows "\<exists>tr'. tag_list_loop xn all len d (name_list ns @ [NUL]) tr = (Ret (), tr') \<and>
     obs out_see tr' = obs out_see tr @ map (\<lambda>s. s @ [NL]) (shown_names xn all ns)"
  using assms
proof (induction ns arbitrary: d tr)
  case Nil
  show ?case
    by (subst tag_list_loop.simps) (simp add: name_list_def shown_names_def)
next
  case (Cons n ns)
  let ?r = "name_list ns @ [NUL]"
  have n: "n \<noteq> []" "NUL \<notin> set n" "n \<noteq> xn" and rest: "d + length n + length (name_list ns) < len"
    using Cons.prems by (simp_all add: name_list_def)
  have buf: "name_list (n # ns) @ [NUL] = n @ NUL # ?r" by (simp add: name_list_def)
  define act :: "unit io" where "act = (if all then print_at (n @ NUL # ?r)
      else if strneq xn n (length xn) then print_at (drop (length xn + 1) (n @ NUL # ?r))
      else return_io ())"
  define tr1 where "tr1 = (if all then EvOut (n @ [NL]) # tr
    else if prefix xn n then EvOut (drop (length xn + 1) n @ [NL]) # tr else tr)"
  have "NUL \<notin> set (drop (length xn + 1) n)" using n(2) by (meson in_set_dropD)
  moreover have "prefix xn n \<Longrightarrow> length xn < length n"
    using n(3) by (metis prefix_length_prefix prefix_order.order_refl prefix_order.antisym leI)
  ultimately have out: "act tr = (Ret (), tr1)"
    using n(2) by (auto simp: act_def tr1_def print_at_string strneq_prefix)
  have "hd (n @ NUL # ?r) \<noteq> NUL" using n(1,2) by (cases n) auto
  then have "tag_list_loop xn all len d (n @ NUL # ?r) = then_io act (tag_list_loop xn all len (d + length n) ?r)"
    using n(2) rest by (subst tag_list_loop.simps) (simp add: act_def)
  then have "tag_list_loop xn all len d (n @ NUL # ?r) tr = tag_list_loop xn all len (d + length n) ?r tr1"
    using out by (simp add: then_io_apply)
  then show ?case
    using Cons.IH [of "d + length n" tr1] Cons.prems(1) rest buf
    by (auto simp: tr1_def shown_names_def out_see_def)
qed

text \<open>
  C37: what a list shows.  Every attribute of the file is read inside the buffer and
  printed once, in the order of the file system; without option \<open>a\<close> only the attributes
  whose name starts with the tag prefix are shown, without the prefix and the
  character after it.  An attribute whose name is the prefix itself is excluded here.
\<close>

theorem tag_list_shows_names:
  assumes "tag_ready E s0 cfg path f p" and "length p < 59" and "ns = map fst (xattrs s0 tr f)"
    and "\<forall>n\<in>set ns. n \<noteq> [] \<and> NUL \<notin> set n \<and> n \<noteq> ''user.'' @ p"
  shows "\<exists>tr'. hpssix_tag_cmd_list_func E cfg (if all then [(CHR ''a'', [])] else []) [path] tr = (Ret 0, tr') \<and>
     obs out_see tr' = obs out_see tr @ map (\<lambda>s. s @ [NL]) (shown_names (''user.'' @ p) all ns)"
proof -
  let ?l = "name_list ns" and ?tr1 = "EvListxattr False f (length (name_list ns))
    # EvListxattr False f 0 # EvRealpath path # tr"
  have "sprintf_buf 64 ''user.%s'' [PStr (tag_prefix cfg)] = Some (''user.'' @ p)"
    using assms(2) tag_readyD(3) [OF assms(1)] by (simp add: sprintf_buf_def)
  then have "hpssix_tag_cmd_list_func E cfg (if all then [(CHR ''a'', [])] else []) [path] tr
      = then_io (tag_list_loop (''user.'' @ p) all (length ?l) 0 (?l @ [NUL])) (return_io 0) ?tr1"
    using assms(3)
    by (auto simp: hpssix_tag_cmd_list_func_def tag_run tag_run_ready [OF assms(1)] xattr_fit_def
        Let_def tag_print_list_def)
  then show ?thesis
    using tag_list_loop_run [OF assms(4), of 0 "length ?l" all ?tr1]
    by (auto simp: then_io_apply out_see_def)
qed

theorem tag_list_shows_names_witness:
  "\<exists>tr'. hpssix_tag_cmd_list_func (ref_xattr quiet_env) tag_cfg [] [''/hpss/a'']
       [EvSetxattr False ''/hpss/a'' ''user.hpssix.k'' ''1'' 0, EvSetxattr False ''/hpss/a'' ''user.x'' ''2'' 0]
     = (Ret 0, tr') \<and> obs out_see tr' = [''k'' @ [NL]]"
  using tag_list_shows_names [OF tag_ready_sample, of "[''user.x'', ''user.hpssix.k'']"
      "[EvSetxattr False ''/hpss/a'' ''user.hpssix.k'' ''1'' 0, EvSetxattr False ''/hpss/a'' ''user.x'' ''2'' 0]" False]
  by (simp add: shown_names_def out_see_def)

text \<open>Option \<open>l\<close>, documented as following links, never makes a command follow them.\<close>

lemma tag_options_never_follow:
  "tag_options E allowed opts v tr = (Ret (Some w), tr') \<Longrightarrow> \<not> dereference v \<Longrightarrow> \<not> dereference w"
proof (induction opts arbitrary: v tr)
  case (Cons opt opts)
  have "\<not> dereference u \<Longrightarrow> tag_options E allowed opts u w' = (Ret (Some w), tr') \<Longrightarrow> \<not> dereference w" for u w'
    using Cons.IH by blast
  from this [of "v\<lparr>print_all := True\<rparr>"] this [of "v\<lparr>dereference := False\<rparr>"]
    this [of "v\<lparr>tag_name := x\<rparr>" for x] this [of "v\<lparr>tag_value := x\<rparr>" for x]
  show ?case
    using Cons.prems by (cases opt) (auto split: if_splits simp: bind_io_eq_Ret_iff)
qed simp

end
