(* ===== verification/Hpssix_Search_Tag.thy ===== *)
theory Hpssix_Search_Tag
  imports Hpssix_Search_Run Hpssix_Tag
begin

text \<open>
  What the SQL for tags means: an evaluator for the predicates the search utility
  writes, and what a list of conditions selects.
\<close>

section \<open>Patterns\<close>

text \<open>\<open>LIKE\<close>: a percent sign stands for any text, an underscore for any character, and a
  backslash takes the character after it literally.\<close>

fun sql_like :: "string \<Rightarrow> string \<Rightarrow> bool" where
  "sql_like [] s = (s = [])"
| "sql_like (p # ps) s =
     (if p = PERCENT then sql_like ps s \<or> (case s of [] \<Rightarrow> False | _ # s' \<Rightarrow> sql_like (p # ps) s')
      else (case s of [] \<Rightarrow> False
        | c # s' \<Rightarrow> if p = CHR ''_'' then sql_like ps s'
            else if p = BSLASH then (case ps of [] \<Rightarrow> False | q # qs \<Rightarrow> q = c \<and> sql_like qs s')
            else p = c \<and> sql_like ps s'))"

lemma sql_like_literal:
  assumes "set v \<inter> {PERCENT, CHR ''_'', BSLASH} = {}"
  shows "sql_like (v @ ps) s \<longleftrightarrow> (\<exists>r. s = v @ r \<and> sql_like ps r)"
  using assms
proof (induction v arbitrary: s)
  case (Cons c v)
  then show ?case by (cases s) auto
qed simp

lemma sql_like_percent: "sql_like (PERCENT # ps) s \<longleftrightarrow> (\<exists>a r. s = a @ r \<and> sql_like ps r)"
proof (induction s)
  case Nil
  then show ?case by simp
next
  case (Cons c s)
  then show ?case by (auto simp: Cons_eq_append_conv)
qed

lemma sql_like_inside:
  assumes "set v \<inter> {PERCENT, CHR ''_'', BSLASH} = {}"
  shows "sql_like (PERCENT # v @ [PERCENT]) s \<longleftrightarrow> sublist v s"
  by (auto simp: sql_like_percent sql_like_literal [OF assms] sublist_def simp del: sql_like.simps(2))

section \<open>Predicates\<close>

text \<open>
  A row of \<open>hpssix_attr_val\<close>: the name of its key, its text, and the number the text
  denotes, if any.  \<open>num\<close> reads a number of the query.
\<close>

record 'n tag_row =
  tr_key :: string
  tr_sval :: "string option"
  tr_rval :: "'n option"

definition strip :: "string \<Rightarrow> string \<Rightarrow> string option" where
  "strip p s = (if take (length p) s = p then Some (drop (length p) s) else None)"

lemma strip_simps [simp]:
  "strip p (p @ r) = Some r" "strip [] r = Some r"
  "strip (a # p) (b # r) = (if a = b then strip p r else None)" "strip (a # p) [] = None"
  by (simp_all add: strip_def)

text \<open>The text up to the character \<open>c\<close>, and what follows \<open>c\<close>.\<close>

definition upto_char :: "char \<Rightarrow> string \<Rightarrow> (string \<times> string) option" where
  "upto_char c s = (case dropWhile (\<lambda>x. x \<noteq> c) s of
     [] \<Rightarrow> None | _ # r \<Rightarrow> Some (takeWhile (\<lambda>x. x \<noteq> c) s, r))"

lemma upto_char_append [simp]: "c \<notin> set a \<Longrightarrow> upto_char c (a @ c # r) = Some (a, r)"
  by (simp add: upto_char_def split_at_char)

definition key_open :: string where
  "key_open = ''(kid=(SELECT kid FROM hpssix_attr_key WHERE name='' @ [SQUOTE]"

definition like_open :: string where
  "like_open = ''sval LIKE '' @ [SQUOTE]"

definition sval_like :: "'n tag_row \<Rightarrow> string \<Rightarrow> bool" where
  "sval_like row p = (case tr_sval row of None \<Rightarrow> False | Some v \<Rightarrow> sql_like p v)"

definition rval_compare :: "(string \<Rightarrow> 'n::linorder) \<Rightarrow> 'n tag_row \<Rightarrow> string \<Rightarrow> string \<Rightarrow> bool option" where
  "rval_compare num row r n = (case tr_rval row of
     None \<Rightarrow> map_option (\<lambda>_. False) (sql_compare r (num n) (num n))
   | Some x \<Rightarrow> sql_compare r x (num n))"

text \<open>One predicate at the start of a text: its value and the rest; a comparison with NULL selects nothing.\<close>

definition tag_pred :: "(string \<Rightarrow> 'n::linorder) \<Rightarrow> 'n tag_row \<Rightarrow> string \<Rightarrow> (bool \<times> string) option" where
  "tag_pred num row s =
     Option.bind (strip key_open s) (\<lambda>s.
     Option.bind (upto_char SQUOTE s) (\<lambda>(name, s).
     Option.bind (strip '') AND '' s) (\<lambda>s.
     case strip like_open s of
       Some s \<Rightarrow> Option.bind (upto_char SQUOTE s) (\<lambda>(p, s).
         map_option (Pair (tr_key row = name \<and> sval_like row p)) (strip '')'' s))
     | None \<Rightarrow> Option.bind (strip ''rval '' s) (\<lambda>s.
         Option.bind (upto_char (CHR '' '') s) (\<lambda>(r, s).
         Option.bind (upto_char (CHR '')'') s) (\<lambda>(n, s).
         Option.bind (rval_compare num row r n) (\<lambda>b. Some (tr_key row = name \<and> b, s))))))))"

text \<open>A conjunction up to the last parenthesis; each predicate takes characters off the text.\<close>

fun tag_conj :: "nat \<Rightarrow> (string \<Rightarrow> 'n::linorder) \<Rightarrow> 'n tag_row \<Rightarrow> string \<Rightarrow> bool option" where
  "tag_conj 0 num row s = None"
| "tag_conj (Suc k) num row s =
     Option.bind (tag_pred num row s) (\<lambda>(b, s).
     if s = '')'' then Some b
     else Option.bind (strip '' AND '' s) (\<lambda>s. sql_and (Some b) (tag_conj k num row s)))"

definition tag_sql_open :: string where
  "tag_sql_open = ''  tag_oids (oid) AS'' @ [NL] @ ''    (SELECT oid FROM hpssix_attr_val''"

definition tag_sql_selects :: "(string \<Rightarrow> 'n::linorder) \<Rightarrow> 'n tag_row \<Rightarrow> string \<Rightarrow> bool option" where
  "tag_sql_selects num row sql =
     Option.bind (strip tag_sql_open sql) (\<lambda>s.
     if s = '')'' then Some True else Option.bind (strip '' WHERE '' s) (tag_conj (length s) num row))"

section \<open>The text of the predicates\<close>

text \<open>A condition without characters that have a meaning in SQL, in a pattern or in a format, and no range.\<close>

definition tag_plain :: "env \<Rightarrow> tag_cond \<Rightarrow> bool" where
  "tag_plain E c \<longleftrightarrow> tc_op c < HPSSIX_OP_BETWEEN \<and> set (tc_name c) \<inter> {SQUOTE, PERCENT} = {} \<and>
     (if tc_op c < 0 then set (tc_val c) \<inter> {SQUOTE, PERCENT, CHR ''_'', BSLASH} = {}
      else set (env_lf E (tc_val1 c)) \<inter> {PERCENT, CHR '')''} = {})"

text \<open>\<open>w\<close> is what stands for any text: two percent signs in the buffer, one for the server.\<close>

definition tag_text :: "string \<Rightarrow> env \<Rightarrow> tag_cond \<Rightarrow> string" where
  "tag_text w E c = key_open @ tc_name c @ [SQUOTE] @ '') AND '' @
     (if tc_op c < 0 then like_open @ w @ tc_val c @ w @ [SQUOTE] @ '')''
      else ''rval '' @ opstr ! nat (tc_op c) @ '' '' @ env_lf E (tc_val1 c) @ '')'')"

fun tag_texts :: "string \<Rightarrow> env \<Rightarrow> bool \<Rightarrow> tag_cond list \<Rightarrow> string" where
  "tag_texts w E later [] = []"
| "tag_texts w E later (c # cs) = (if later then '' AND '' else '' WHERE '') @ tag_text w E c @ tag_texts w E True cs"

lemma printf_lf [simp]:
  "printf (PERCENT # CHR ''l'' # CHR ''f'' # cs) (PDbl t # args) = map_option (append t) (printf cs args)"
  by (simp add: printf.simps(2) spec_simps conv_arg_def)

lemma emit_tag_cond:
  assumes "tag_plain E c" and "length acc + length (tag_text ''%%'' E c) < 8192"
  shows "(if tc_op c \<ge> 0 then write_numeric_predicate E c acc else write_string_predicate c acc)
     = Some (acc @ tag_text ''%%'' E c)"
proof (cases "tc_op c < 0")
  case True
  then show ?thesis
    using assms by (simp add: write_string_predicate_def emit_ok tag_text_def key_open_def like_open_def)
next
  case False
  then have "opstr_at (tc_op c) = Some (opstr ! nat (tc_op c))"
    using assms(1) by (intro opstr_at_typed) (simp_all add: tag_plain_def)
  then show ?thesis
    using False assms by (simp add: write_numeric_predicate_def emit_ok tag_text_def key_open_def tag_plain_def)
qed

lemma emit_tag_texts:
  "\<forall>c\<in>set cs. tag_plain E c \<Longrightarrow> length acc + length (tag_texts ''%%'' E later cs) < 8192 \<Longrightarrow>
     emit_tag_conds E later cs acc = Some (acc @ tag_texts ''%%'' E later cs)"
proof (induction cs arbitrary: acc later)
  case (Cons c cs)
  let ?w = "if later then '' AND '' else '' WHERE ''"
  have "emit 8192 ?w [] acc = Some (acc @ ?w)"
    using Cons.prems(2) by (intro emit_ok) simp_all
  moreover have "(if tc_op c \<ge> 0 then write_numeric_predicate E c (acc @ ?w) else write_string_predicate c (acc @ ?w))
      = Some ((acc @ ?w) @ tag_text ''%%'' E c)"
    using Cons.prems by (intro emit_tag_cond) simp_all
  moreover have "emit_tag_conds E True cs ((acc @ ?w) @ tag_text ''%%'' E c)
      = Some (((acc @ ?w) @ tag_text ''%%'' E c) @ tag_texts ''%%'' E True cs)"
    using Cons.prems by (intro Cons.IH) simp_all
  ultimately show ?case by simp
qed simp

text \<open>Sent as a format, the text becomes the text with single percent signs.\<close>

lemma printf_tag_text:
  assumes "tag_plain E c"
  shows "printf (tag_text ''%%'' E c @ r) args = map_option (append (tag_text [PERCENT] E c)) (printf r args)"
proof -
  have name: "PERCENT \<notin> set (tc_name c)" using assms by (auto simp: tag_plain_def)
  show ?thesis
  proof (cases "tc_op c < 0")
    case True
    then have "PERCENT \<notin> set (tc_val c)" using assms by (auto simp: tag_plain_def)
    then show ?thesis
      using True printf_head [OF name] printf_head [of "tc_val c"]
      by (cases "printf r args") (simp_all add: tag_text_def key_open_def like_open_def)
  next
    case False
    then have num: "PERCENT \<notin> set (env_lf E (tc_val1 c))" and k: "nat (tc_op c) < length opstr"
      using assms by (auto simp: tag_plain_def opstr_def)
    have "\<forall>t\<in>set opstr. PERCENT \<notin> set t" by (simp add: opstr_def)
    then have op: "PERCENT \<notin> set (opstr ! nat (tc_op c))" using nth_mem [OF k] by blast
    show ?thesis
      using False printf_head [OF name] printf_head [OF num] printf_head [OF op]
      by (cases "printf r args") (simp_all add: tag_text_def key_open_def)
  qed
qed

lemma printf_tag_texts:
  "\<forall>c\<in>set cs. tag_plain E c \<Longrightarrow>
     printf (tag_texts ''%%'' E later cs @ r) args = map_option (append (tag_texts [PERCENT] E later cs)) (printf r args)"
  by (induction cs arbitrary: later; cases "printf r args") (auto simp: printf_tag_text)

section \<open>From the option to the condition\<close>

text \<open>
  The key of a condition is the name of the attribute the tag utility writes only when the
  configured prefix is the one the search utility has built in.
\<close>

lemma search_key_is_tag_key: "full_name p n = ''user.hpssix.'' @ n \<longleftrightarrow> p = ''hpssix''"
proof -
  have "full_name p n = ''user.hpssix.'' @ n \<longleftrightarrow> (p @ ''.'') @ n = ''hpssix.'' @ n"
    by (simp add: full_name_def)
  also have "\<dots> \<longleftrightarrow> p @ ''.'' = ''hpssix'' @ ''.''" by (subst append_same_eq) simp
  finally show ?thesis by simp
qed

text \<open>A condition with an operator and a number, in every spelling of the operator.\<close>

lemma add_tag_cond_number:
  assumes "(t, k) \<in> set op_texts" and "CHR '':'' \<notin> set n" "length n < 1000" and "length conds < 128"
    and "\<And>tr m. env_alloc E tr m"
  shows "add_tag_cond E conds (n @ CHR '':'' # t @ dec v) tr
     = (Ret (conds @ [\<lparr>tc_name = full_name ''hpssix'' n, tc_val = t @ dec v, tc_op = k, tc_val1 = dec v, tc_val2 = ''0''\<rparr>]), tr)"
proof -
  have pos: "strchr (n @ CHR '':'' # t @ dec v) (CHR '':'') = Some (CHR '':'' # t @ dec v)"
    "takeWhile (\<lambda>x. x \<noteq> CHR '':'') (n @ CHR '':'' # t @ dec v) = n"
    using assms(2) by (simp_all add: strchr_def split_at_char)
  have "k \<noteq> HPSSIX_OP_BETWEEN" using assms(1) by (auto simp: op_texts_def)
  moreover have "sscanf_lf (dec v) old = dec v" for old
    using scan_lf_dec [of "[]" v] by (simp add: sscanf_lf_def lf_stop_def)
  ultimately show ?thesis
    using assms(3-5) pos parse_op_text [OF assms(1), of v]
    by (simp add: add_tag_cond_def strdup_def alloc_def bind_io_apply sprintf_buf_def full_name_def)
qed

section \<open>What a list of conditions selects\<close>

text \<open>What one condition asks of a row.\<close>

definition tag_holds :: "(string \<Rightarrow> 'n::linorder) \<Rightarrow> env \<Rightarrow> 'n tag_row \<Rightarrow> tag_cond \<Rightarrow> bool" where
  "tag_holds num E row c \<longleftrightarrow> tr_key row = tc_name c \<and>
     (if tc_op c < 0 then (\<exists>v. tr_sval row = Some v \<and> sublist (tc_val c) v)
      else (\<exists>x. tr_rval row = Some x \<and> (let y = num (env_lf E (tc_val1 c)); k = tc_op c in
        if k = HPSSIX_OP_EQ then x = y else if k = HPSSIX_OP_GT then x > y else if k = HPSSIX_OP_GE then x \<ge> y
        else if k = HPSSIX_OP_LT then x < y else if k = HPSSIX_OP_LE then x \<le> y else x \<noteq> y)))"

lemma tag_pred_text:
  assumes "tag_plain E c"
  shows "tag_pred num row (tag_text [PERCENT] E c @ r) = Some (tag_holds num E row c, r)"
proof -
  have name: "SQUOTE \<notin> set (tc_name c)" using assms by (auto simp: tag_plain_def)
  show ?thesis
  proof (cases "tc_op c < 0")
    case True
    then have v: "SQUOTE \<notin> set (PERCENT # tc_val c @ [PERCENT])" "set (tc_val c) \<inter> {PERCENT, CHR ''_'', BSLASH} = {}"
      using assms by (auto simp: tag_plain_def)
    have "upto_char SQUOTE ((PERCENT # tc_val c @ [PERCENT]) @ SQUOTE # '')'' @ r)
        = Some (PERCENT # tc_val c @ [PERCENT], '')'' @ r)"
      using v(1) by (rule upto_char_append)
    then show ?thesis
      using True name sql_like_inside [OF v(2)]
      by (simp add: tag_pred_def tag_text_def tag_holds_def sval_like_def del: sql_like.simps(2) split: option.split)
  next
    case False
    then have num: "CHR '')'' \<notin> set (env_lf E (tc_val1 c))" and k: "0 \<le> tc_op c" "tc_op c < 6"
      using assms by (auto simp: tag_plain_def)
    have op: "CHR '' '' \<notin> set (opstr ! nat (tc_op c))" using opstr_props k by simp
    have "strip like_open (CHR ''r'' # x) = None" for x by (simp add: like_open_def)
    then show ?thesis
      using False name num op
      by (simp add: tag_pred_def tag_text_def tag_holds_def rval_compare_def opstr_compare [OF k] Let_def split: option.split)
  qed
qed

lemma tag_texts_length: "length cs \<le> length (tag_texts w E later cs)"
proof (induction cs arbitrary: later)
  case (Cons c cs)
  from Cons [of True] show ?case by simp
qed simp

lemma tag_conj_texts:
  assumes "\<forall>c\<in>set (c # cs). tag_plain E c" and "length cs < k"
  shows "tag_conj k num row (tag_text [PERCENT] E c @ tag_texts [PERCENT] E True cs @ '')'')
     = Some (\<forall>d\<in>set (c # cs). tag_holds num E row d)"
  using assms
proof (induction cs arbitrary: c k)
  case Nil
  then show ?case by (cases k) (simp_all add: tag_pred_text)
next
  case (Cons d cs)
  then obtain j where j: "k = Suc j" "length cs < j" by (cases k) auto
  have more: "'' AND '' @ x \<noteq> '')''" for x by simp
  show ?case
    using Cons.IH [of d j] Cons.prems(1) j more
    by (simp add: tag_pred_text del: append_Cons)
qed

text \<open>
  C31: conditions on tags meet on one row.  For conditions that are plain texts and numbers,
  the text made of them fits its buffer, and what the server gets is read as: the key has the
  name of the condition and the value contains the text, or compares with the number, for
  every condition on the same row.  A row has one key, so a search with two conditions on
  different tags selects no object at all.
\<close>

theorem tag_sql_meets_on_one_row:
  assumes plain: "\<forall>c\<in>set conds. tag_plain E c"
    and fits: "length (tag_sql_open @ tag_texts ''%%'' E False conds @ '')'') < 8192"
  shows "\<exists>sql received. get_sql_tag E conds = Some sql \<and> printf sql [] = Some received \<and>
     (\<forall>row. tag_sql_selects num row received = Some (\<forall>c\<in>set conds. tag_holds num E row c)) \<and>
     ((\<exists>c\<in>set conds. \<exists>d\<in>set conds. tc_name c \<noteq> tc_name d) \<longrightarrow>
        (\<forall>row. tag_sql_selects num row received = Some False))"
proof -
  let ?b = "tag_sql_open @ tag_texts ''%%'' E False conds @ '')''"
  let ?r = "tag_sql_open @ tag_texts [PERCENT] E False conds @ '')''"
  have head: "PERCENT \<notin> set tag_sql_open" by (simp add: tag_sql_open_def)
  have sql: "get_sql_tag E conds = Some ?b"
  proof -
    have "emit 8192 tag_sql_open [] [] = Some tag_sql_open"
      using emit_ok [OF printf_no_pct [OF head], of "[]" 8192 "[]"] fits by simp
    moreover have "emit_tag_conds E False conds tag_sql_open = Some (tag_sql_open @ tag_texts ''%%'' E False conds)"
      using fits by (intro emit_tag_texts [OF plain]) simp
    moreover have "emit 8192 '')'' [] (tag_sql_open @ tag_texts ''%%'' E False conds) = Some ?b"
      using fits emit_ok [of "'')''" "[]" "'')''" "tag_sql_open @ tag_texts ''%%'' E False conds" 8192] by simp
    ultimately show ?thesis by (simp add: get_sql_tag_def tag_sql_open_def)
  qed
  have received: "printf ?b [] = Some ?r"
    using printf_head [OF head] printf_tag_texts [OF plain, of False "'')''" "[]"] by simp
  have means: "tag_sql_selects num row ?r = Some (\<forall>c\<in>set conds. tag_holds num E row c)" for row
  proof (cases conds)
    case (Cons c cs)
    let ?s = "tag_texts [PERCENT] E False conds @ '')''"
    have "length cs < length ?s" using tag_texts_length [of conds "[PERCENT]" E False] Cons by simp
    then have "tag_conj (length ?s) num row (tag_text [PERCENT] E c @ tag_texts [PERCENT] E True cs @ '')'')
        = Some (\<forall>d\<in>set conds. tag_holds num E row d)"
      using tag_conj_texts [of c cs E] plain unfolding Cons by blast
    then show ?thesis by (simp add: tag_sql_selects_def Cons)
  qed (simp add: tag_sql_selects_def)
  have one_key: "tag_holds num E row c \<Longrightarrow> tag_holds num E row d \<Longrightarrow> tc_name c = tc_name d" for row c d
    by (simp add: tag_holds_def)
  have "\<exists>c\<in>set conds. \<exists>d\<in>set conds. tc_name c \<noteq> tc_name d \<Longrightarrow> \<not> (\<forall>c\<in>set conds. tag_holds num E row c)" for row
    using one_key by blast
  then show ?thesis
    by (intro exI [of _ ?b] exI [of _ ?r] conjI sql received means allI impI) (simp add: means)
qed

definition sample_tags :: "tag_cond list" where
  "sample_tags = [\<lparr>tc_name = ''user.hpssix.project'', tc_val = ''climate'', tc_op = - 1, tc_val1 = ''0'', tc_val2 = ''0''\<rparr>,
     \<lparr>tc_name = ''user.hpssix.year'', tc_val = ''>2018'', tc_op = HPSSIX_OP_GT, tc_val1 = ''2018'', tc_val2 = ''0''\<rparr>]"

theorem tag_sql_meets_on_one_row_witness:
  "\<exists>sql received. get_sql_tag quiet_env sample_tags = Some sql \<and> printf sql [] = Some received \<and>
     (\<forall>row. tag_sql_selects (\<lambda>s. int (digits_val 10 0 s)) row received = Some False)"
proof -
  have "\<forall>c\<in>set sample_tags. tag_plain quiet_env c"
    by (simp add: sample_tags_def tag_plain_def quiet_env_def)
  moreover have "length (tag_sql_open @ tag_texts ''%%'' quiet_env False sample_tags @ '')'') < 8192"
    by (simp add: tag_sql_open_def sample_tags_def tag_text_def key_open_def like_open_def opstr_def quiet_env_def)
  moreover have "\<exists>c\<in>set sample_tags. \<exists>d\<in>set sample_tags. tc_name c \<noteq> tc_name d"
    by (auto simp: sample_tags_def)
  ultimately show ?thesis
    using tag_sql_meets_on_one_row [of sample_tags quiet_env "\<lambda>s. int (digits_val 10 0 s)"] by blast
qed

end
