(* ===== verification/Hpssix_Search_Date.thy ===== *)
theory Hpssix_Search_Date
  imports Hpssix_Search_Run
begin

text \<open>
  Conditions on dates: the option takes a date and time with an operator, or a range, and
  rewrites it to the seconds \<open>mktime\<close> gives before the conditions are read.
\<close>

section \<open>Reading digits\<close>

definition digits :: "string \<Rightarrow> bool" where
  "digits ds \<longleftrightarrow> ds \<noteq> [] \<and> (\<forall>c\<in>set ds. isdigit c)"

lemma digits_start:
  assumes "digits ds"
  shows "dropWhile isspace (ds @ r) = ds @ r" "split_sign (ds @ r) = (False, ds @ r)"
proof -
  obtain c cs where ds: "ds = c # cs" "isdigit c" using assms by (cases ds) (auto simp: digits_def)
  then show "dropWhile isspace (ds @ r) = ds @ r" "split_sign (ds @ r) = (False, ds @ r)"
    using digit_lower [of c] by (simp_all add: isdigit_not_isspace split_sign_def)
qed

lemma num_field_digits:
  assumes "digits ds" and "w = 0 \<and> (case r of [] \<Rightarrow> True | c # _ \<Rightarrow> \<not> isdigit c) \<or> w = length ds"
  shows "num_field w (ds @ r) = (ds, r)"
proof -
  have all: "\<forall>c\<in>set ds. isdigit c" "ds \<noteq> []" using assms(1) by (auto simp: digits_def)
  have sign: "split_sign ds = (False, ds)" "split_sign (ds @ r) = (False, ds @ r)"
    using digits_start [OF assms(1), of "[]"] digits_start [OF assms(1), of r] by simp_all
  have take: "takeWhile isdigit ds = ds" using all by (simp add: takeWhile_eq_all_conv)
  show ?thesis
  proof (cases "w = 0")
    case True
    then have "takeWhile isdigit (ds @ r) = ds"
      using assms(2) all by (auto simp: takeWhile_all takeWhile_append_stop split: list.splits)
    then show ?thesis using True all sign by (simp add: num_field_def Let_def)
  next
    case False
    then show ?thesis using assms(2) all sign by (simp add: num_field_def Let_def take)
  qed
qed

lemma num_assign_digits:
  assumes "digits ds" and "digits_val 10 0 ds < 2 ^ 31"
  shows "int32 (num_assign True 32 ds) = int (digits_val 10 0 ds)"
proof -
  have v: "int (digits_val 10 0 ds) < 2 ^ 31" using assms(2) by (metis of_nat_less_iff of_nat_numeral of_nat_power)
  have "sat_signed False (digits_val 10 0 ds) = of_nat (digits_val 10 0 ds)"
    using v by (simp add: sat_signed_def)
  moreover have "split_sign ds = (False, ds)" using digits_start(2) [OF assms(1), of "[]"] by simp
  ultimately have "num_assign True 32 ds = ucast (ucast (of_nat (digits_val 10 0 ds) :: u64) :: u32)"
    by (simp add: num_assign_def Let_def)
  then have "int32 (num_assign True 32 ds) = int32 (of_int (int (digits_val 10 0 ds)))"
    by (simp add: int32_def)
  also have "\<dots> = int (digits_val 10 0 ds)" using v by (intro int32_small) simp_all
  finally show ?thesis .
qed

lemma scan_num_digits:
  assumes "digits ds" and "w = 0 \<and> (case r of [] \<Rightarrow> True | c # _ \<Rightarrow> \<not> isdigit c) \<or> w = length ds" and "length vs < n"
  shows "scan_go (SNum w True 32 # dirs) n (ds @ r) vs = scan_go dirs n r (vs @ [num_assign True 32 ds])"
proof -
  obtain c cs where "ds @ r = c # cs" using assms(1) by (cases ds) (auto simp: digits_def)
  then show ?thesis
    using num_field_digits [OF assms(1,2)] digits_start(1) [OF assms(1), of r] assms(1,3)
    by (auto simp: digits_def)
qed

section \<open>Dates\<close>

text \<open>A calendar time, and the text the option takes for it.\<close>

definition date_ok :: "tm \<Rightarrow> bool" where
  "date_ok t \<longleftrightarrow> 0 \<le> tm_year t + 1900 \<and> tm_year t + 1900 \<le> 9999 \<and> 0 \<le> tm_mon t \<and> tm_mon t \<le> 11 \<and>
     1 \<le> tm_mday t \<and> tm_mday t \<le> 31 \<and> 0 \<le> tm_hour t \<and> tm_hour t \<le> 23 \<and> 0 \<le> tm_min t \<and> tm_min t \<le> 59 \<and>
     0 \<le> tm_sec t \<and> tm_sec t \<le> 60"

definition two :: "int \<Rightarrow> string" where
  "two i = pad True 2 (sdec i)"

definition date_text :: "tm \<Rightarrow> string" where
  "date_text t = dec (nat ((tm_year t + 1900) * 10000 + (tm_mon t + 1) * 100 + tm_mday t)) @ ''-'' @
     two (tm_hour t) @ '':'' @ two (tm_min t) @ '':'' @ two (tm_sec t)"

lemma two_digits:
  assumes "0 \<le> i" "i < 100"
  shows "digits (two i)" "length (two i) = 2" "digits_val 10 0 (two i) = nat i"
proof -
  show len: "length (two i) = 2" unfolding two_def using assms by (rule length_pad2)
  have eq: "two i = replicate (2 - length (dec (nat i))) (CHR ''0'') @ dec (nat i)"
    using assms(1) by (simp add: two_def pad_def sdec_def)
  have zeros: "digits_val 10 0 (replicate k (CHR ''0'')) = 0" for k
    by (induction k) (simp_all add: code_def)
  show "digits (two i)" using dec_isdigit by (auto simp: eq digits_def)
  show "digits_val 10 0 (two i) = nat i" by (simp add: eq digits_val_append zeros)
qed

lemma sscanf_date:
  assumes "date_ok t"
  obtains v0 v1 v2 v3 where "sscanf ''%d-%02d:%02d:%02d'' 4 (date_text t) = Some (4, [v0, v1, v2, v3])"
    "int32 v0 = (tm_year t + 1900) * 10000 + (tm_mon t + 1) * 100 + tm_mday t"
    "int32 v1 = tm_hour t" "int32 v2 = tm_min t" "int32 v3 = tm_sec t"
proof -
  let ?d = "(tm_year t + 1900) * 10000 + (tm_mon t + 1) * 100 + tm_mday t"
  have fmt: "scan_fmt ''%d-%02d:%02d:%02d'' = [SNum 0 True 32, SLit (CHR ''-''), SNum 2 True 32, SLit (CHR '':''),
      SNum 2 True 32, SLit (CHR '':''), SNum 2 True 32]"
    by code_simp
  have d: "0 \<le> ?d" "?d < 2 ^ 31" using assms by (auto simp: date_ok_def)
  have ds: "digits (dec (nat ?d))" using dec_isdigit by (auto simp: digits_def)
  have h: "0 \<le> tm_hour t" "tm_hour t < 100" and m: "0 \<le> tm_min t" "tm_min t < 100" and s: "0 \<le> tm_sec t" "tm_sec t < 100"
    using assms by (auto simp: date_ok_def)
  note twos = two_digits [OF h] two_digits [OF m] two_digits [OF s]
  have scan: "scan_go [SNum 2 True 32] 4 (two (tm_sec t)) vs = Some (vs @ [num_assign True 32 (two (tm_sec t))], False)"
    if "length vs < 4" for vs
    using scan_num_digits [OF two_digits(1) [OF s], of 2 "[]" vs 4 "[]"] twos that by simp
  define D where "D = dec (nat ?d)"
  have "sscanf ''%d-%02d:%02d:%02d'' 4 (date_text t) = Some (4, [num_assign True 32 D,
      num_assign True 32 (two (tm_hour t)), num_assign True 32 (two (tm_min t)), num_assign True 32 (two (tm_sec t))])"
    using ds twos unfolding sscanf_def fmt date_text_def D_def [symmetric]
    by (simp add: scan_num_digits scan del: scan_go.simps(3))
  moreover have "int32 (num_assign True 32 D) = ?d"
    using num_assign_digits [OF ds] d by (simp add: D_def)
  moreover have "int32 (num_assign True 32 (two (tm_hour t))) = tm_hour t" "int32 (num_assign True 32 (two (tm_min t))) = tm_min t"
    "int32 (num_assign True 32 (two (tm_sec t))) = tm_sec t"
    using num_assign_digits twos h m s by simp_all
  ultimately show thesis by (rule that)
qed

lemma signed_nonneg:
  assumes "0 \<le> (a :: int)" "0 < b"
  shows "a sdiv b = a div b" "a smod b = a mod b"
  using assms by (auto simp: signed_divide_int_def signed_modulo_int_def sgn_if)

lemma date_split:
  assumes "0 \<le> (y :: int)" "0 \<le> m" "m < 100" "0 \<le> d" "d < 100"
  shows "(y * 10000 + m * 100 + d) smod 100 = d" "((y * 10000 + m * 100 + d) smod 10000) sdiv 100 = m"
    "(y * 10000 + m * 100 + d) sdiv 10000 = y"
proof -
  have dm: "(q * b + r) div b = q" "(q * b + r) mod b = r" if "0 \<le> r" "r < b" for q b r :: int
    using that by simp_all
  have "(y * 10000 + m * 100 + d) mod 100 = d" "(y * 10000 + m * 100 + d) div 10000 = y"
    "(y * 10000 + m * 100 + d) mod 10000 = m * 100 + d" "(m * 100 + d) div 100 = m"
    using dm [of d 100 "y * 100 + m"] dm [of "m * 100 + d" 10000 y] dm [of d 100 m] assms
    by (simp_all add: algebra_simps)
  then show "(y * 10000 + m * 100 + d) smod 100 = d" "((y * 10000 + m * 100 + d) smod 10000) sdiv 100 = m"
    "(y * 10000 + m * 100 + d) sdiv 10000 = y"
    using assms by (simp_all add: signed_nonneg)
qed

lemma parse_datetime_str_text:
  assumes "date_ok t"
  shows "parse_datetime_str E (date_text t) = Some (env_mktime E t)"
proof -
  obtain v0 v1 v2 v3 where scan: "sscanf ''%d-%02d:%02d:%02d'' 4 (date_text t) = Some (4, [v0, v1, v2, v3])"
    "int32 v0 = (tm_year t + 1900) * 10000 + (tm_mon t + 1) * 100 + tm_mday t"
    "int32 v1 = tm_hour t" "int32 v2 = tm_min t" "int32 v3 = tm_sec t"
    using assms by (rule sscanf_date)
  have rng: "0 \<le> tm_year t + 1900" "0 \<le> tm_mon t + 1" "tm_mon t + 1 < 100" "0 \<le> tm_mday t" "tm_mday t < 100"
    using assms by (auto simp: date_ok_def)
  show ?thesis
    unfolding parse_datetime_str_def scan(1)
    by (simp only: option.case prod.case Let_def scan(2-5) date_split [OF rng] nth_Cons_0 nth_Cons_Suc One_nat_def
        numeral_2_eq_2 numeral_3_eq_3 simp_thms if_False if_True add_diff_cancel_right') (cases t, simp)
qed

section \<open>Conditions\<close>

lemma printf_c [simp]:
  "printf (PERCENT # CHR ''c'' # cs) (PInt (of_nat (code c)) # args) = map_option (Cons c) (printf cs args)"
proof -
  have "code c < 256" by (simp add: code_def)
  then have "unat (of_nat (code c) :: u64) = code c" by (simp add: unsigned_of_nat take_bit_nat_eq_self)
  then have "char_of (unat (of_nat (code c) :: u64)) = c" by (simp add: code_def)
  then show ?thesis
    by (cases "printf cs args") (simp_all add: printf.simps(2) spec_simps conv_arg_def)
qed

lemma date_text_start:
  obtains c cs where "date_text t = c # cs" "isdigit c"
proof -
  let ?n = "nat ((tm_year t + 1900) * 10000 + (tm_mon t + 1) * 100 + tm_mday t)"
  obtain c cs where "dec ?n = c # cs" by (cases "dec ?n") simp_all
  then show thesis
    using that dec_isdigit [of c ?n] by (simp add: date_text_def)
qed

lemma date_text_no_comma:
  assumes "date_ok t"
  shows "CHR '','' \<notin> set (date_text t)"
proof -
  have "CHR '','' \<notin> set (two i)" if "0 \<le> i" "i < 100" for i
    using two_digits(1) [OF that] by (auto simp: digits_def)
  then show ?thesis
    using assms dec_no_comma by (auto simp: date_text_def date_ok_def)
qed

lemma parse_datetime_text:
  assumes "date_ok t" and "(w, k) \<in> set op_texts" and "\<And>tr n. env_alloc E tr n"
  shows "parse_datetime E (w @ date_text t) tr = (Ret (w @ dec (unat (env_mktime E t))), tr)"
proof -
  let ?s = "dec (unat (env_mktime E t))"
  have io: "datetime_io E (date_text t) = return_io (env_mktime E t)"
    by (simp add: datetime_io_def parse_datetime_str_text [OF assms(1)])
  have len: "length ?s \<le> 20" by (rule length_dec_u64)
  have none: "strchr (date_text t) (CHR '','') = None"
  proof -
    have nil: "dropWhile (\<lambda>x. x \<noteq> CHR '','') (date_text t) = []"
      using date_text_no_comma [OF assms(1)] by (auto simp: dropWhile_eq_Nil_conv)
    show ?thesis by (simp add: strchr_def nil)
  qed
  obtain c cs where start: "date_text t = c # cs" "isdigit c" by (rule date_text_start)
  note run = parse_datetime_def strdup_def alloc_def bind_io_apply assms(3) sprintf_buf_def io [unfolded start(1)]
    start none [unfolded start(1)]
  consider "w = []" | x where "w = [x]" "\<not> isdigit x" | x y where "w = [x, y]" "\<not> isdigit x" "\<not> isdigit y"
  proof -
    have "length w \<le> 2 \<and> (\<forall>x\<in>set w. \<not> isdigit x)"
      using assms(2) by (auto simp: op_texts_def isdigit_def code_def)
    then show thesis using that by (cases w; cases "tl w") auto
  qed
  then show ?thesis
  proof cases
    case 1
    then show ?thesis using len by (simp add: run)
  next
    case 2
    then show ?thesis using len by (simp add: run)
  next
    case 3
    then show ?thesis using len by (simp add: run)
  qed
qed

lemma parse_datetime_range:
  assumes "date_ok t" "date_ok u" and "\<And>tr n. env_alloc E tr n"
  shows "parse_datetime E (date_text t @ CHR '','' # date_text u) tr
     = (Ret (dec (unat (env_mktime E t)) @ CHR '','' # dec (unat (env_mktime E u))), tr)"
proof -
  have io: "datetime_io E (date_text x) = return_io (env_mktime E x)" if "date_ok x" for x
    by (simp add: datetime_io_def parse_datetime_str_text [OF that])
  obtain c cs where start: "date_text t = c # cs" "isdigit c" by (rule date_text_start)
  have pos: "strchr (date_text t @ CHR '','' # date_text u) (CHR '','') = Some (CHR '','' # date_text u)"
    "takeWhile (\<lambda>x. x \<noteq> CHR '','') (date_text t @ CHR '','' # date_text u) = date_text t"
    using date_text_no_comma [OF assms(1)] by (simp_all add: strchr_def split_at_char)
  show ?thesis
    using length_dec_u64 [of "env_mktime E t"] length_dec_u64 [of "env_mktime E u"] pos io [OF assms(1)] start(2)
    unfolding start(1)
    by (simp add: parse_datetime_def strdup_def alloc_def bind_io_apply assms(3) sprintf_buf_def io [OF assms(2)])
qed

text \<open>
  C33: a date is understood as it is written.  For every calendar time, every operator in
  every spelling and every range, option \<open>d\<close> stores a condition on the modification time
  that is later read as that operator and exactly the seconds \<open>mktime\<close> gives for the date.
\<close>

theorem date_condition_roundtrip:
  assumes "date_ok t" "date_ok u" and mem: "\<And>tr n. env_alloc E tr n"
  shows "(\<forall>(w, k)\<in>set op_texts. \<exists>s. search_option E (CHR ''d'') (w @ date_text t) g tr
       = (Ret (g\<lparr>cond_str := (cond_str g)[COND_ARG_MTIME := Some s]\<rparr>), tr) \<and>
       parse_fattr_condition cond s COND_ARG_MTIME
         = Some (0, cond\<lparr>fc_attr := int COND_ARG_MTIME, fc_op := k, fc_val1 := env_mktime E t\<rparr>)) \<and>
     (\<exists>s. search_option E (CHR ''d'') (date_text t @ CHR '','' # date_text u) g tr
       = (Ret (g\<lparr>cond_str := (cond_str g)[COND_ARG_MTIME := Some s]\<rparr>), tr) \<and>
       parse_fattr_condition cond s COND_ARG_MTIME = Some (0, cond\<lparr>fc_attr := int COND_ARG_MTIME,
         fc_op := HPSSIX_OP_BETWEEN, fc_val1 := env_mktime E t, fc_val2 := env_mktime E u\<rparr>))"
proof -
  have k: "0 \<le> k" if "(w, k) \<in> set op_texts" for w k
    using that by (auto simp: op_texts_def)
  have one: "\<exists>s. search_option E (CHR ''d'') (w @ date_text t) g tr
       = (Ret (g\<lparr>cond_str := (cond_str g)[COND_ARG_MTIME := Some s]\<rparr>), tr) \<and>
       parse_fattr_condition cond s COND_ARG_MTIME
         = Some (0, cond\<lparr>fc_attr := int COND_ARG_MTIME, fc_op := k, fc_val1 := env_mktime E t\<rparr>)"
    if "(w, k) \<in> set op_texts" for w k
    using parse_datetime_text [OF assms(1) that mem] parse_op_text [OF that] k [OF that]
    by (intro exI [of _ "w @ dec (unat (env_mktime E t))"])
      (simp add: search_option_def bind_io_apply parse_fattr_condition_def strtoull0_dec_word Let_def)
  moreover have "search_option E (CHR ''d'') (date_text t @ CHR '','' # date_text u) g tr
       = (Ret (g\<lparr>cond_str := (cond_str g)[COND_ARG_MTIME := Some (dec (unat (env_mktime E t)) @ CHR '','' # dec (unat (env_mktime E u)))]\<rparr>), tr)"
    using parse_datetime_range [OF assms] by (simp add: search_option_def bind_io_apply)
  moreover have "parse_fattr_condition cond (dec (unat (env_mktime E t)) @ CHR '','' # dec (unat (env_mktime E u))) COND_ARG_MTIME
      = Some (0, cond\<lparr>fc_attr := int COND_ARG_MTIME,
         fc_op := HPSSIX_OP_BETWEEN, fc_val1 := env_mktime E t, fc_val2 := env_mktime E u\<rparr>)"
    by (simp add: parse_fattr_condition_def parse_op_range strtoull0_dec_word Let_def)
  ultimately show ?thesis by blast
qed

text \<open>Noon of 27 February 2019, and a clock in UTC that counts days of that month.\<close>

definition sample_date :: tm where
  "sample_date = \<lparr>tm_sec = 0, tm_min = 30, tm_hour = 12, tm_mday = 27, tm_mon = 1, tm_year = 119\<rparr>"

definition sample_clock :: env where
  "sample_clock = quiet_env\<lparr>env_mktime := \<lambda>t. of_int (1548979200 + (tm_mday t - 1) * 86400 + tm_hour t * 3600 + tm_min t * 60 + tm_sec t)\<rparr>"

lemma sample_date_text: "date_text sample_date = ''20190227-12:30:00''"
proof -
  have digit: "digit_char 0 = CHR ''0''" "digit_char (Suc 0) = CHR ''1''" "digit_char 2 = CHR ''2''" "digit_char 3 = CHR ''3''"
    "digit_char 7 = CHR ''7''" "digit_char 9 = CHR ''9''"
    by code_simp+
  have "nat ((tm_year sample_date + 1900) * 10000 + (tm_mon sample_date + 1) * 100 + tm_mday sample_date) = 20190227"
    by (simp add: sample_date_def)
  moreover have "dec 20190227 = ''20190227''" by (simp add: dec.simps digit)
  moreover have "two (tm_hour sample_date) = ''12''" "two (tm_min sample_date) = ''30''" "two (tm_sec sample_date) = ''00''"
    by (simp_all add: sample_date_def two_def sdec_def dec.simps digit pad_def)
  ultimately show ?thesis by (simp add: date_text_def)
qed

theorem date_condition_roundtrip_witness:
  "\<exists>s. search_option sample_clock (CHR ''d'') ''>=20190227-12:30:00'' search_zero []
      = (Ret (search_zero\<lparr>cond_str := (cond_str search_zero)[COND_ARG_MTIME := Some s]\<rparr>), []) \<and>
     parse_fattr_condition fattr_cond_zero s COND_ARG_MTIME
       = Some (0, \<lparr>fc_attr = 6, fc_op = HPSSIX_OP_GE, fc_val1 = 1551270600, fc_val2 = 0\<rparr>)"
proof -
  have ok: "date_ok sample_date" by (simp add: date_ok_def sample_date_def)
  have mem: "env_alloc sample_clock tr n" for tr n by (simp add: sample_clock_def quiet_env_def)
  have secs: "env_mktime sample_clock sample_date = 1551270600" by (simp add: sample_clock_def sample_date_def)
  have ge: "(''>='', HPSSIX_OP_GE) \<in> set op_texts" by (simp add: op_texts_def)
  note all = conjunct1 [OF date_condition_roundtrip [OF ok ok mem, where g = search_zero and tr = "[]" and cond = fattr_cond_zero]]
  show ?thesis
    using bspec [OF all ge] unfolding prod.case sample_date_text secs by (simp add: fattr_cond_zero_def)
qed

end
