(* ===== verification/Spec2Isabelle.thy ===== *)
theory Spec2Isabelle
  imports Hpssix_Scanner_Refine Hpssix_Pipeline Hpssix_Meta Hpssix_Search_Tag Hpssix_Search_Date
begin

text \<open>
  A verification of hpssix, the metadata index of an HPSS archive.

  \<^bold>\<open>The program.\<close>  A scanner daemon periodically runs a script that lists the objects
  created, changed or deleted in the archive.  It then asks a builder daemon, which
  runs hpssix-builder to load the lists into PostgreSQL and to write the work list of
  the files worth reading, and an extractor daemon, which runs hpssix-extractor to
  send those files to Apache Tika and to store the text.  The outcome of each task is
  recorded in the master database, from which the next scan learns where to start.
  Four utilities use the index: hpssix-search asks it by attributes, tags, contents and
  names, hpssix-meta prints what it has of one file, hpssix-tag edits the tags the next
  scan will find, and hpssix-admin prints the history of the scans.  libhpssix holds what the programs share: configuration, directories, a wrapper of
  SQLite, the work list and the master database on it, and access to PostgreSQL.

  \<^bold>\<open>How it is modelled.\<close>  A C function is a HOL function of the same name in the monad
  of Hpssix_Prelude: from a world to an outcome (a result, undefined behaviour, the
  end of the process, or a loop that has not ended within its bound) and a world.  The
  world of Hpssix_World is the history of the calls to what the sources do not contain
  (operating system, SQLite, libpq, libconfig, libxml2, libcurl, Sun RPC), and the
  answers come from a parameter \<open>E\<close> of type \<open>env\<close>, a function of the history.  A theorem
  holds for every environment that satisfies its hypotheses; what is said of
  libraries is stated as named conditions on \<open>E\<close> (\<open>sqlite_sound\<close>, \<open>sqlite_live\<close>,
  \<open>load_served\<close>, \<open>work_rows\<close>, \<open>db_up\<close>, \<open>threads_run\<close>, \<open>extractor_served\<close>, \<open>xattr_fs\<close>,
  \<open>meta_server\<close>, \<open>search_ready\<close>).  Structures are records, out parameters components of the result,
  null pointers \<open>None\<close>, C integers words of their width where it matters and
  otherwise integers; a write outside a buffer, a null dereference and a wrong printf
  argument are the outcome \<open>UB\<close>.

  \<^bold>\<open>The theories.\<close>
  \<^item> Hpssix_Prelude: the monad, its rules, invariants of programs, lists.
  \<^item> C_Stdio: what is used of the C library: decimal printing, strtoull, printf and
    sscanf formats, bounded buffers, fgets.
  \<^item> Hpssix_World: the environment, calls and primitives.
  \<^item> Hpssix_Config: libhpssix/src/hpssix-config.c.  Reading hpssix.conf and the
    extension filter; every setting ends in its field.
  \<^item> Hpssix_Utils: hpssix-utils.c and hpssix.c.  The directory tree of the day and the
    room its name needs.
  \<^item> Hpssix_Tmpdb: hpssix-tmpdb.c, with a reference semantics of the SQL statements the
    programs use, replayed from the history of calls.
  \<^item> Hpssix_Workdata: hpssix-workdata.c.  Append and dispatch of the work list are
    inverse; a dispatch stays inside its array.
  \<^item> Hpssix_Mdb: hpssix-mdb.c.  A recorded status is read back and determines the next scan.
  \<^item> Hpssix_Db: hpssix-db.c and hpssix-db.h.  The COPY protocol and the bulk loader.
  \<^item> Hpssix_Observe: observing part of a history; the locales \<open>dir_observer\<close>,
    \<open>local_observer\<close> and \<open>sqlite_observer\<close>, interpreted by the components that talk to
    other programs or print.
  \<^item> Hpssix_Builder and Hpssix_Builder_Run: tools/builder.  Translation of scanner lines,
    the modes, the extension filter, the work list, and the one transaction of a run.
  \<^item> Hpssix_Extractor and Hpssix_Extractor_Run: tools/extractor.  The partition of the
    work among threads, that every object is tried once, and the count, with the race
    on it as a step relation.
  \<^item> Hpssix_Pipeline: the builder and the extractor together.  The files the main program
    of the extractor looks at are exactly those the builder's run selected, whatever
    happens between the two runs as long as it leaves SQLite alone.
  \<^item> Hpssix_Daemon and Hpssix_Services: hpssixd-daemon.c, hpssixd.h, hpssixd-comm.c,
    hpssixd-builder.c and hpssixd-extractor.c.  A task is run once, the counts the
    programs print come back as answers, and the signal loops do not end.
  \<^item> Hpssix_Scanner, Hpssix_Scanner_Run and Hpssix_Scanner_Refine: hpssixd-scanner.c and
    hpssixd.c.  The order of the requests, a complete scan, the alarm, the end on
    SIGTERM, and that the daemon refines an abstract history.
  \<^item> Hpssix_Admin: utils/hpssix-admin.  The pages of the history are together what one
    query would deliver.
  \<^item> Hpssix_Tag: utils/hpssix-tag.  A tag that was set is read back and listed, on a file
    system whose attributes are replayed from the calls (\<open>xattr_fs\<close>).
  \<^item> Pq_Literal and C_Float: the string literals of PostgreSQL, and how \<open>sscanf\<close> reads a
    floating-point number.
  \<^item> Hpssix_Meta: utils/hpssix-meta.  The query names exactly the path of the file.
  \<^item> Hpssix_Search and Hpssix_Search_Run: utils/hpssix-search.  Conditions are read as they
    are written and are well typed, the SQL made of them has their meaning under an
    evaluator for SQL conditions, and patterns are sent as literals.
  \<^item> Hpssix_Search_Tag: conditions on tags.  An evaluator for their predicates and for LIKE
    shows that all conditions are asked of one row, so two tags are never found together.
  \<^item> Hpssix_Search_Date: conditions on dates are read as the seconds of their date.

  \<^bold>\<open>Interfaces.\<close>  \<open>prepared_store\<close> (a store opened with its statements prepared) is
  interpreted by the work list and the master database; \<open>work_queue\<close> by append and
  dispatch of the work list; \<open>line_translator\<close> by the plain load and by the attribute
  lines of the builder; \<open>work_partition\<close> by the thread parts; \<open>task_service\<close> by the
  builder's and the extractor's service; the observer locales by the transaction
  observers of the builder and the extractor, and by the observers of SQLite calls, of
  RPC requests and of standard output.

  \<^bold>\<open>Bounds.\<close>  Loops that depend on the outside (a busy SQLite, \<open>sigwait\<close>) run for at
  most \<open>env_fuel E\<close> rounds and then have the outcome \<open>Spin\<close>; the theorems that promise a
  result assume with \<open>sqlite_live\<close> that the database becomes free within it, and the
  theorem on worker loops holds for every bound.  All other loops are structural or
  have a termination proof.  Buffer sizes are the constants of the sources
  (\<open>PATH_MAX\<close> 4096, \<open>LINE_MAX\<close> 2048).

  \<^bold>\<open>Concurrency.\<close>  Threads of the extractor run one after the other in any order, since
  they share only the counter, whose unprotected increment is modelled apart.  The
  two threads of the scanner daemon are the step relation \<open>scanner_step\<close>; the control
  thread only sets two flags that a scan reads at its start.

  \<^bold>\<open>Not modelled.\<close>  Diagnostics on standard error, the log (with its opening flag and its
  closing at the end of the scanner daemon), the backtrace of a fatal signal, release of
  memory (\<open>hpssix_config_free\<close>, \<open>hpssix_extfilter_free\<close> and the like), the text of usage messages, the parsing of the command line by \<open>getopt_long\<close> (the programs get
  the options and operands it makes), the value of a double (it is known by the text it
  is read from).  The scan script, a shell script around the DB2 client, is known by its
  output only, and the programs under tests are not part of the system.
\<close>

end
